(* ===== verification/Prelude.thy ===== *)
theory Prelude
  imports Main "HOL-Library.Word" "HOL-Library.Monad_Syntax"
begin

text \<open>
  The vocabulary every component shares: the integer types of
  \<^verbatim>\<open>libs/common/include/types.h\<close>, its error values, its alignment macros, and the
  assertion macros of \<^verbatim>\<open>libs/common/include/print_macros.h\<close>.

  A C function that can halt the machine (a failed \<^verbatim>\<open>ASSERT\<close>, a \<^verbatim>\<open>PANIC\<close>) or that would
  leave the bounds of an array is modelled with an \<open>option\<close> result: \<open>None\<close> is "does not
  return normally". The debug build is modelled, so \<^verbatim>\<open>DEBUG_ASSERT\<close> is \<^verbatim>\<open>ASSERT\<close>.
\<close>

unbundle bit_operations_syntax

type_synonym u8 = "8 word"
type_synonym u16 = "16 word"
type_synonym u32 = "32 word"
type_synonym u64 = "64 word"

text \<open>\<^verbatim>\<open>typedef int task_t\<close>: task identifiers, with 0 and -1 reserved (see \<open>IPC_ANY\<close>).\<close>

type_synonym task_t = int

text \<open>The numeric constants of the headers; \<open>simp add: kconst\<close> evaluates them.\<close>

named_theorems kconst

text \<open>Unfolding rules of the operations of a component, for symbolic execution.\<close>

named_theorems exec

section \<open>Error values\<close>

datatype error_t =
    OK
  | ERR_NO_MEMORY
  | ERR_NOT_PERMITTED
  | ERR_WOULD_BLOCK
  | ERR_ABORTED
  | ERR_TOO_LARGE
  | ERR_TOO_SMALL
  | ERR_NOT_FOUND
  | ERR_INVALID_ARG
  | ERR_INVALID_TASK
  | ERR_ALREADY_EXISTS
  | ERR_UNAVAILABLE
  | ERR_NOT_ACCEPTABLE
  | ERR_EMPTY
  | DONT_REPLY
  | ERR_IN_USE
  | ERR_TRY_AGAIN
  | ERR_END

fun err_code :: "error_t \<Rightarrow> int" where
  "err_code OK = 0"
| "err_code ERR_NO_MEMORY = -1"
| "err_code ERR_NOT_PERMITTED = -2"
| "err_code ERR_WOULD_BLOCK = -3"
| "err_code ERR_ABORTED = -4"
| "err_code ERR_TOO_LARGE = -5"
| "err_code ERR_TOO_SMALL = -6"
| "err_code ERR_NOT_FOUND = -7"
| "err_code ERR_INVALID_ARG = -8"
| "err_code ERR_INVALID_TASK = -9"
| "err_code ERR_ALREADY_EXISTS = -10"
| "err_code ERR_UNAVAILABLE = -11"
| "err_code ERR_NOT_ACCEPTABLE = -12"
| "err_code ERR_EMPTY = -13"
| "err_code DONT_REPLY = -14"
| "err_code ERR_IN_USE = -15"
| "err_code ERR_TRY_AGAIN = -16"
| "err_code ERR_END = -17"

definition IS_ERROR :: "int \<Rightarrow> bool" where
  "IS_ERROR err \<longleftrightarrow> err < 0"

definition IS_OK :: "int \<Rightarrow> bool" where
  "IS_OK err \<longleftrightarrow> 0 \<le> err"

lemma IS_ERROR_err_code [simp]: "IS_ERROR (err_code e) \<longleftrightarrow> e \<noteq> OK"
  by (cases e) (auto simp: IS_ERROR_def)

lemma err_code_inject [simp]: "err_code a = err_code b \<longleftrightarrow> a = b"
  by (cases a; cases b) simp_all

section \<open>Assertions\<close>

definition ASSERT :: "bool \<Rightarrow> unit option" where
  "ASSERT b = (if b then Some () else None)"

lemma ASSERT_simps [simp]:
  "ASSERT True = Some ()"
  "ASSERT False = None"
  "ASSERT b = None \<longleftrightarrow> \<not> b"
  "ASSERT b = Some u \<longleftrightarrow> b"
  by (auto simp: ASSERT_def)

lemma ASSERT_bind [simp]: "(ASSERT b \<bind> f) = (if b then f () else None)"
  by (simp add: ASSERT_def)

lemma bind_Some_eq: "(x \<bind> f) = Some y \<longleftrightarrow> (\<exists>v. x = Some v \<and> f v = Some y)"
  by (cases x) auto

text \<open>\<open>returns x P\<close>: the computation returns normally, with a result that satisfies \<open>P\<close>.\<close>

definition returns :: "'a option \<Rightarrow> ('a \<Rightarrow> bool) \<Rightarrow> bool" where
  "returns x P \<longleftrightarrow> (\<exists>r. x = Some r \<and> P r)"

lemma returns_simps [simp]: "returns (Some r) P \<longleftrightarrow> P r" "returns None P \<longleftrightarrow> False"
  by (simp_all add: returns_def)

lemma returns_if [simp]:
  "returns (if b then x else y) P \<longleftrightarrow> (b \<longrightarrow> returns x P) \<and> (\<not> b \<longrightarrow> returns y P)"
  by simp

lemma returns_bind: "returns x P \<Longrightarrow> (\<And>r. P r \<Longrightarrow> returns (f r) Q) \<Longrightarrow> returns (x \<bind> f) Q"
  by (auto simp: returns_def)

lemma returns_mono: "returns x P \<Longrightarrow> (\<And>r. P r \<Longrightarrow> Q r) \<Longrightarrow> returns x Q"
  by (auto simp: returns_def)

lemma returnsE: "returns x P \<Longrightarrow> (\<And>r. x = Some r \<Longrightarrow> P r \<Longrightarrow> thesis) \<Longrightarrow> thesis"
  by (auto simp: returns_def)

section \<open>Alignment\<close>

definition ALIGN_DOWN :: "'a::len word \<Rightarrow> 'a word \<Rightarrow> 'a word" where
  "ALIGN_DOWN v align = v AND NOT (align - 1)"

definition ALIGN_UP :: "'a::len word \<Rightarrow> 'a word \<Rightarrow> 'a word" where
  "ALIGN_UP v align = ALIGN_DOWN (v + align - 1) align"

definition IS_ALIGNED :: "'a::len word \<Rightarrow> 'a word \<Rightarrow> bool" where
  "IS_ALIGNED v align \<longleftrightarrow> v AND (align - 1) = 0"

definition PAGE_SIZE :: u64 where
  [kconst]: "PAGE_SIZE = 4096"

lemma IS_ALIGNED_ALIGN_DOWN [simp]: "IS_ALIGNED (ALIGN_DOWN v align) align"
  by (simp add: IS_ALIGNED_def ALIGN_DOWN_def and.assoc)

lemma ALIGN_DOWN_idem [simp]: "ALIGN_DOWN (ALIGN_DOWN v align) align = ALIGN_DOWN v align"
  by (simp add: ALIGN_DOWN_def and.assoc)

lemma ALIGN_DOWN_aligned: "IS_ALIGNED v align \<Longrightarrow> ALIGN_DOWN v align = v"
proof (rule bit_word_eqI)
  fix n
  assume "IS_ALIGNED v align" and n: "n < LENGTH('a)"
  then have "\<not> bit (v AND (align - 1)) n"
    by (simp add: IS_ALIGNED_def)
  then show "bit (ALIGN_DOWN v align) n = bit v n"
    using n by (auto simp: ALIGN_DOWN_def bit_simps)
qed

lemma ALIGN_DOWN_le: "ALIGN_DOWN v align \<le> v"
  by (simp add: ALIGN_DOWN_def word_and_le2)

section \<open>Integers in memory\<close>

text \<open>An integer in memory, little end first, and the integer at the head of a byte list.\<close>

definition le16 :: "u16 \<Rightarrow> u8 list" where
  "le16 x = [ucast x, ucast (drop_bit 8 x)]"

definition le32 :: "u32 \<Rightarrow> u8 list" where
  "le32 x = [ucast x, ucast (drop_bit 8 x), ucast (drop_bit 16 x), ucast (drop_bit 24 x)]"

definition get16 :: "u8 list \<Rightarrow> nat \<Rightarrow> u16" where
  "get16 bs i = ucast (bs ! i) OR push_bit 8 (ucast (bs ! (i + 1)))"

definition get32 :: "u8 list \<Rightarrow> nat \<Rightarrow> u32" where
  "get32 bs i =
     ucast (bs ! i) OR push_bit 8 (ucast (bs ! (i + 1))) OR
     push_bit 16 (ucast (bs ! (i + 2))) OR push_bit 24 (ucast (bs ! (i + 3)))"

end
