(* ===== verification/Intrusive_List.thy ===== *)
theory Intrusive_List
  imports Prelude
begin

text \<open>
  \<^verbatim>\<open>libs/common/include/list.h\<close>: circular doubly linked lists whose nodes are embedded in
  the objects they link. A heap gives every node its \<open>prev\<close> and \<open>next\<close> pointer (\<open>None\<close> is
  \<^verbatim>\<open>NULL\<close>); a list is named by its head node. Reading through a null pointer is a fault.
  The operations are shown to implement finite sequences, which is the view every other
  component takes of its queues.
\<close>

section \<open>The operations\<close>

record 'a list_heap =
  prv :: "'a \<Rightarrow> 'a option"
  nxt :: "'a \<Rightarrow> 'a option"

definition set_prv :: "'a option \<Rightarrow> 'a option \<Rightarrow> 'a list_heap \<Rightarrow> 'a list_heap option" where
  "set_prv p v h = (case p of None \<Rightarrow> None | Some a \<Rightarrow> Some (h\<lparr>prv := (prv h)(a := v)\<rparr>))"

definition set_nxt :: "'a option \<Rightarrow> 'a option \<Rightarrow> 'a list_heap \<Rightarrow> 'a list_heap option" where
  "set_nxt p v h = (case p of None \<Rightarrow> None | Some a \<Rightarrow> Some (h\<lparr>nxt := (nxt h)(a := v)\<rparr>))"

definition list_is_empty :: "'a list_heap \<Rightarrow> 'a \<Rightarrow> bool" where
  "list_is_empty h l \<longleftrightarrow> nxt h l = Some l"

text \<open>The loops follow \<open>next\<close> until they are back at the head; \<open>None\<close> covers both a null
  pointer and a walk that never comes back.\<close>

partial_function (option) list_len_loop ::
  "'a list_heap \<Rightarrow> 'a \<Rightarrow> 'a option \<Rightarrow> nat \<Rightarrow> nat option" where
  "list_len_loop h l node len =
     (if node = Some l then Some len
      else Option.bind node (\<lambda>n. list_len_loop h l (nxt h n) (Suc len)))"

definition list_len :: "'a list_heap \<Rightarrow> 'a \<Rightarrow> nat option" where
  "list_len h l = list_len_loop h l (nxt h l) 0"

partial_function (option) list_contains_loop ::
  "'a list_heap \<Rightarrow> 'a \<Rightarrow> 'a \<Rightarrow> 'a option \<Rightarrow> bool option" where
  "list_contains_loop h l elem node =
     (if node = Some l then Some False
      else if node = Some elem then Some True
      else Option.bind node (\<lambda>n. list_contains_loop h l elem (nxt h n)))"

definition list_contains :: "'a list_heap \<Rightarrow> 'a \<Rightarrow> 'a \<Rightarrow> bool option" where
  "list_contains h l elem = list_contains_loop h l elem (nxt h l)"

definition list_insert ::
  "'a option \<Rightarrow> 'a option \<Rightarrow> 'a \<Rightarrow> 'a list_heap \<Rightarrow> 'a list_heap option" where
  "list_insert prev next new h =
     do {
       h \<leftarrow> set_prv (Some new) prev h;
       h \<leftarrow> set_nxt (Some new) next h;
       h \<leftarrow> set_prv next (Some new) h;
       set_nxt prev (Some new) h
     }"

definition list_init :: "'a \<Rightarrow> 'a list_heap \<Rightarrow> 'a list_heap" where
  "list_init l h = h\<lparr>prv := (prv h)(l := Some l), nxt := (nxt h)(l := Some l)\<rparr>"

definition list_nullify :: "'a \<Rightarrow> 'a list_heap \<Rightarrow> 'a list_heap" where
  "list_nullify elem h = h\<lparr>prv := (prv h)(elem := None), nxt := (nxt h)(elem := None)\<rparr>"

definition list_remove :: "'a \<Rightarrow> 'a list_heap \<Rightarrow> 'a list_heap option" where
  "list_remove elem h =
     (if nxt h elem = None then Some h
      else do {
        h \<leftarrow> set_nxt (prv h elem) (nxt h elem) h;
        h \<leftarrow> set_prv (nxt h elem) (prv h elem) h;
        Some (list_nullify elem h)
      })"

definition list_push_back :: "'a \<Rightarrow> 'a \<Rightarrow> 'a list_heap \<Rightarrow> 'a list_heap option" where
  "list_push_back l new_tail h =
     do {
       contains \<leftarrow> list_contains h l new_tail;
       ASSERT (\<not> contains);
       list_insert (prv h l) (Some l) new_tail h
     }"

definition list_pop_front :: "'a \<Rightarrow> 'a list_heap \<Rightarrow> ('a option \<times> 'a list_heap) option" where
  "list_pop_front l h =
     (case nxt h l of
        None \<Rightarrow> None
      | Some head \<Rightarrow>
          if head = l then Some (None, h)
          else do {
            let next = nxt h head;
            h \<leftarrow> set_nxt (Some l) next h;
            h \<leftarrow> set_prv next (Some l) h;
            Some (Some head, list_nullify head h)
          })"

text \<open>\<^verbatim>\<open>LIST_FOR_EACH\<close>: the successor is read before the body runs, so the body may unlink
  the element it is given. \<open>body\<close> acts on the heap and on a state of its own.\<close>

partial_function (option) list_for_each ::
  "('a \<Rightarrow> 'a list_heap \<times> 's \<Rightarrow> ('a list_heap \<times> 's) option) \<Rightarrow> 'a \<Rightarrow> 'a option
    \<Rightarrow> 'a list_heap \<times> 's \<Rightarrow> ('a list_heap \<times> 's) option" where
  "list_for_each body l elem hs =
     (if elem = Some l then Some hs
      else Option.bind elem (\<lambda>e. Option.bind (body e hs) (list_for_each body l (nxt (fst hs) e))))"

definition LIST_FOR_EACH ::
  "('a \<Rightarrow> 'a list_heap \<times> 's \<Rightarrow> ('a list_heap \<times> 's) option) \<Rightarrow> 'a
    \<Rightarrow> 'a list_heap \<times> 's \<Rightarrow> ('a list_heap \<times> 's) option" where
  "LIST_FOR_EACH body l hs = list_for_each body l (nxt (fst hs) l) hs"

section \<open>The sequence a list holds\<close>

fun path :: "'a list_heap \<Rightarrow> 'a \<Rightarrow> 'a list \<Rightarrow> 'a \<Rightarrow> bool" where
  "path h a [] b \<longleftrightarrow> nxt h a = Some b \<and> prv h b = Some a"
| "path h a (x # xs) b \<longleftrightarrow> nxt h a = Some x \<and> prv h x = Some a \<and> path h x xs b"

definition dlist :: "'a list_heap \<Rightarrow> 'a \<Rightarrow> 'a list \<Rightarrow> bool" where
  "dlist h l xs \<longleftrightarrow> distinct (l # xs) \<and> path h l xs l"

lemma path_append [simp]: "path h a (xs @ y # ys) b \<longleftrightarrow> path h a xs y \<and> path h y ys b"
  by (induction xs arbitrary: a) auto

lemma path_upd_nxt [simp]:
  "p \<notin> set (a # xs) \<Longrightarrow> path (h\<lparr>nxt := (nxt h)(p := v)\<rparr>) a xs b = path h a xs b"
  by (induction xs arbitrary: a) auto

lemma path_upd_prv [simp]:
  "p \<notin> set xs \<Longrightarrow> p \<noteq> b \<Longrightarrow> path (h\<lparr>prv := (prv h)(p := v)\<rparr>) a xs b = path h a xs b"
  by (induction xs arbitrary: a) auto

lemma path_cong:
  "(\<And>x. x \<in> set (a # xs) \<Longrightarrow> nxt h' x = nxt h x) \<Longrightarrow> (\<And>x. x \<in> set xs \<union> {b} \<Longrightarrow> prv h' x = prv h x)
    \<Longrightarrow> path h' a xs b = path h a xs b"
  by (induction xs arbitrary: a) auto

lemma path_first: "path h a xs b \<Longrightarrow> nxt h a = Some (hd (xs @ [b]))"
  by (cases xs) auto

lemma path_last: "path h a xs b \<Longrightarrow> prv h b = Some (last (a # xs))"
  by (cases xs rule: rev_cases) auto

lemma path_nxt: "path h a xs b \<Longrightarrow> x \<in> set (a # xs) \<Longrightarrow> \<exists>y \<in> set xs \<union> {b}. nxt h x = Some y"
  by (induction xs arbitrary: a) auto

lemma dlist_cong:
  assumes "\<And>x. x \<in> set (l # xs) \<Longrightarrow> nxt h' x = nxt h x \<and> prv h' x = prv h x"
  shows "dlist h' l xs = dlist h l xs"
proof -
  have "path h' l xs l = path h l xs l"
    by (rule path_cong) (use assms in auto)
  then show ?thesis by (simp add: dlist_def)
qed


section \<open>Each operation on the sequence\<close>

lemma list_init_dlist [simp]: "dlist (list_init l h) l []"
  by (simp add: dlist_def list_init_def)

lemma list_is_empty_dlist: "dlist h l xs \<Longrightarrow> list_is_empty h l \<longleftrightarrow> xs = []"
  by (cases xs) (auto simp: dlist_def list_is_empty_def)

lemma list_len_loop_path:
  "path h a xs l \<Longrightarrow> l \<notin> set xs \<Longrightarrow> list_len_loop h l (nxt h a) n = Some (n + length xs)"
proof (induction xs arbitrary: a n)
  case Nil
  then show ?case by (simp add: list_len_loop.simps)
next
  case (Cons x xs)
  then have "list_len_loop h l (nxt h x) (Suc n) = Some (Suc n + length xs)"
    by simp
  with Cons.prems show ?case
    by (subst list_len_loop.simps) auto
qed

lemma list_len_dlist: "dlist h l xs \<Longrightarrow> list_len h l = Some (length xs)"
  using list_len_loop_path [of h l xs l 0] by (simp add: list_len_def dlist_def)

lemma list_contains_loop_path:
  "path h a xs l \<Longrightarrow> l \<notin> set xs \<Longrightarrow>
    list_contains_loop h l e (nxt h a) = Some (e \<in> set xs)"
proof (induction xs arbitrary: a)
  case Nil
  then show ?case by (simp add: list_contains_loop.simps)
next
  case (Cons x xs)
  then have IH: "list_contains_loop h l e (nxt h x) = Some (e \<in> set xs)"
    by simp
  from Cons.prems have "nxt h a = Some x" "x \<noteq> l"
    by auto
  then show ?case
    using IH by (subst list_contains_loop.simps) auto
qed

lemma list_contains_dlist: "dlist h l xs \<Longrightarrow> list_contains h l e = Some (e \<in> set xs)"
  by (simp add: list_contains_def list_contains_loop_path dlist_def)

definition same_outside :: "'a set \<Rightarrow> 'a list_heap \<Rightarrow> 'a list_heap \<Rightarrow> bool" where
  "same_outside A h h' \<longleftrightarrow> (\<forall>x. x \<notin> A \<longrightarrow> nxt h' x = nxt h x \<and> prv h' x = prv h x)"

lemma dlist_same_outside:
  "same_outside A h h' \<Longrightarrow> dlist h m ys \<Longrightarrow> A \<inter> set (m # ys) = {} \<Longrightarrow> dlist h' m ys"
  by (subst dlist_cong [of m ys h' h]) (auto simp: same_outside_def)

lemma list_push_back_dlist:
  assumes "dlist h l xs" and "e \<notin> set (l # xs)"
  obtains h' where "list_push_back l e h = Some h'" "dlist h' l (xs @ [e])"
    "same_outside (set (l # e # xs)) h h'"
proof -
  from assms(1) have d: "distinct (l # xs)" and p: "path h l xs l"
    by (auto simp: dlist_def)
  define z where "z = last (l # xs)"
  have z: "prv h l = Some z" "z \<in> set (l # xs)"
    using path_last [OF p] unfolding z_def by (simp, simp only: last_in_set list.distinct simp_thms)
  define h' where "h' = h\<lparr>prv := (prv h)(e := Some z, l := Some e),
    nxt := (nxt h)(e := Some l, z := Some e)\<rparr>"
  have push: "list_push_back l e h = Some h'"
    using assms z by (simp add: list_push_back_def list_contains_dlist [OF assms(1)]
      list_insert_def set_prv_def set_nxt_def h'_def)
  have "path h' l (xs @ [e]) l"
  proof (cases xs rule: rev_cases)
    case Nil
    then show ?thesis
      using assms by (simp add: h'_def z_def)
  next
    case (snoc ys y)
    then have "path h l ys y" "y = z" "z \<notin> set (l # ys)" "l \<notin> set ys"
      using p d by (auto simp: z_def)
    moreover from this have "path h' l ys z = path h l ys z"
      using assms snoc by (intro path_cong) (auto simp: h'_def)
    ultimately show ?thesis
      using snoc assms d by (auto simp: h'_def)
  qed
  then have "dlist h' l (xs @ [e])"
    using d assms by (auto simp: dlist_def)
  moreover have "same_outside (set (l # e # xs)) h h'"
    using z by (auto simp: same_outside_def h'_def)
  ultimately show ?thesis using push that by blast
qed

lemma path_bypass:
  assumes "path h l as e" "path h e bs m" "distinct (l # as @ e # bs)" "m \<notin> set (as @ e # bs)"
    and h': "\<And>x. x \<noteq> e \<Longrightarrow> x \<noteq> last (l # as) \<Longrightarrow> nxt h' x = nxt h x"
      "\<And>x. x \<noteq> e \<Longrightarrow> x \<noteq> hd (bs @ [m]) \<Longrightarrow> prv h' x = prv h x"
      "nxt h' (last (l # as)) = Some (hd (bs @ [m]))" "prv h' (hd (bs @ [m])) = Some (last (l # as))"
  shows "path h' l (as @ bs) m"
proof -
  have tail: "path h' (hd (bs @ [m])) (tl bs) m" if "bs \<noteq> []"
  proof -
    from that obtain b bs' where bs: "bs = b # bs'" by (cases bs) auto
    then have "path h b bs' m" using assms(2) by simp
    moreover have "path h' b bs' m = path h b bs' m"
    proof (rule path_cong)
      fix x assume x: "x \<in> set (b # bs')"
      have "last (l # as) \<in> set (l # as)" by (rule last_in_set) simp
      with x assms(3) bs show "nxt h' x = nxt h x" by (intro h'(1)) auto
    next
      fix x assume "x \<in> set bs' \<union> {m}"
      with assms(3,4) bs show "prv h' x = prv h x" by (intro h'(2)) auto
    qed
    ultimately show ?thesis using bs by simp
  qed
  have join: "path h' (last (l # as)) bs m"
    using h'(3,4) tail by (cases bs) auto
  show ?thesis
  proof (cases as rule: rev_cases)
    case Nil
    with join show ?thesis by simp
  next
    case (snoc ys y)
    have "path h' l ys y = path h l ys y"
    proof (rule path_cong)
      fix x assume "x \<in> set (l # ys)"
      with assms(3) snoc show "nxt h' x = nxt h x" by (intro h'(1)) auto
    next
      fix x assume x: "x \<in> set ys \<union> {y}"
      have "hd (bs @ [m]) \<in> set bs \<union> {m}" by (cases bs) auto
      with x assms(3,4) snoc show "prv h' x = prv h x" by (intro h'(2)) auto
    qed
    with join snoc assms(1) show ?thesis by simp
  qed
qed

lemma list_remove_dlist:
  assumes "dlist h l xs" and "e \<in> set xs"
  obtains h' where "list_remove e h = Some h'" "dlist h' l (remove1 e xs)"
    "nxt h' e = None" "same_outside (set (l # xs)) h h'"
proof -
  from assms(2) obtain as bs where xs: "xs = as @ e # bs" "e \<notin> set as"
    by (meson split_list_first)
  from assms(1) xs have d: "distinct (l # as @ e # bs)" and p: "path h l as e" "path h e bs l"
    by (auto simp: dlist_def)
  define a b where "a = last (l # as)" and "b = hd (bs @ [l])"
  have a: "prv h e = Some a" "a \<in> set (l # as)" and b: "nxt h e = Some b" "b \<in> set bs \<union> {l}"
    using path_last [OF p(1)] path_first [OF p(2)] unfolding a_def b_def
    by (simp, simp only: last_in_set list.distinct simp_thms, simp, cases bs, auto)
  have ab: "a \<noteq> e" "b \<noteq> e"
    using a b d by auto
  define h' where "h' = h\<lparr>prv := (prv h)(b := Some a, e := None),
    nxt := (nxt h)(a := Some b, e := None)\<rparr>"
  have rem: "list_remove e h = Some h'"
    using a b ab by (simp add: list_remove_def set_nxt_def set_prv_def list_nullify_def h'_def)
  have "path h' l (as @ bs) l"
    using p d ab by (intro path_bypass [of h l as e bs]) (auto simp: h'_def a_def b_def)
  then have "dlist h' l (remove1 e xs)"
    using d xs by (auto simp: dlist_def remove1_append)
  moreover have "same_outside (set (l # xs)) h h'"
    using a b xs by (auto simp: same_outside_def h'_def)
  ultimately show ?thesis using rem that by (simp add: h'_def)
qed

lemma list_pop_front_Nil: "dlist h l [] \<Longrightarrow> list_pop_front l h = Some (None, h)"
  by (simp add: dlist_def list_pop_front_def)

lemma list_pop_front_Cons:
  assumes "dlist h l (x # xs)"
  obtains h' where "list_pop_front l h = Some (Some x, h')" "dlist h' l xs"
    "nxt h' x = None" "same_outside (set (l # x # xs)) h h'"
proof -
  have "list_pop_front l h = map_option (\<lambda>h'. (Some x, h')) (list_remove x h)"
    using assms path_nxt [of h x xs l x]
    by (auto simp: dlist_def list_pop_front_def list_remove_def set_nxt_def set_prv_def
      split: option.splits)
  then show ?thesis
    using list_remove_dlist [OF assms, of x] that by force
qed


section \<open>Iteration that may unlink the current element\<close>

definition unlink_if :: "('a \<Rightarrow> bool) \<Rightarrow> ('a \<Rightarrow> 's \<Rightarrow> 's) \<Rightarrow> 'a \<Rightarrow> 'a list_heap \<times> 's
    \<Rightarrow> ('a list_heap \<times> 's) option" where
  "unlink_if P g e hs =
     Option.bind (if P e then list_remove e (fst hs) else Some (fst hs)) (\<lambda>h. Some (h, g e (snd hs)))"

lemma dlist_hd: "dlist h l (ys @ x # xs) \<Longrightarrow> nxt h x = Some (hd (xs @ [l]))"
  by (auto simp: dlist_def path_first)

lemma list_for_each_unlink:
  "dlist h l (ys @ xs) \<Longrightarrow>
    \<exists>h'. list_for_each (unlink_if P g) l (Some (hd (xs @ [l]))) (h, s) = Some (h', fold g xs s)
      \<and> dlist h' l (ys @ filter (\<lambda>x. \<not> P x) xs)"
proof (induction xs arbitrary: h s ys)
  case Nil
  then show ?case by (subst list_for_each.simps) simp
next
  case (Cons x xs)
  from Cons.prems have x: "x \<noteq> l" "x \<notin> set ys" "nxt h x = Some (hd (xs @ [l]))"
    by (auto simp: dlist_def path_first)
  have "\<exists>h1. unlink_if P g x (h, s) = Some (h1, g x s)
      \<and> dlist h1 l ((ys @ (if P x then [] else [x])) @ xs)"
  proof (cases "P x")
    case True
    from list_remove_dlist [OF Cons.prems, of x] obtain h1
      where "list_remove x h = Some h1" "dlist h1 l (remove1 x (ys @ x # xs))" by auto
    with True x show ?thesis by (simp add: unlink_if_def remove1_append)
  next
    case False
    with Cons.prems show ?thesis by (simp add: unlink_if_def)
  qed
  then obtain h1 where h1: "unlink_if P g x (h, s) = Some (h1, g x s)"
      "dlist h1 l ((ys @ (if P x then [] else [x])) @ xs)" by blast
  from Cons.IH [OF h1(2)] obtain h'
    where "list_for_each (unlink_if P g) l (Some (hd (xs @ [l]))) (h1, g x s)
        = Some (h', fold g xs (g x s))"
      "dlist h' l ((ys @ (if P x then [] else [x])) @ filter (\<lambda>x. \<not> P x) xs)" by blast
  with h1 x show ?case
    by (subst list_for_each.simps) (auto split: if_splits)
qed

text \<open>
  C21: \<^verbatim>\<open>LIST_FOR_EACH\<close> terminates and visits every element in list order, even when the
  body unlinks the element it is visiting; the list that remains holds exactly the elements
  the body kept.
\<close>

theorem LIST_FOR_EACH_visits_all:
  assumes "dlist h l xs"
  shows "\<exists>h'. LIST_FOR_EACH (unlink_if P g) l (h, s) = Some (h', fold g xs s)
    \<and> dlist h' l (filter (\<lambda>x. \<not> P x) xs)"
  using list_for_each_unlink [of h l "[]" xs P g s] assms
  by (simp add: LIST_FOR_EACH_def) (auto simp: dlist_def path_first)

definition empty_heap :: "nat list_heap" where
  "empty_heap = list_init 0 \<lparr>prv = (\<lambda>_. None), nxt = (\<lambda>_. None)\<rparr>"

lemma empty_heap_dlist [simp]: "dlist empty_heap 0 []"
  by (simp add: empty_heap_def)

definition two_heap :: "nat list_heap" where
  "two_heap = \<lparr>prv = (\<lambda>_. None)(0 := Some 3, 2 := Some 0, 3 := Some 2),
    nxt = (\<lambda>_. None)(0 := Some 2, 2 := Some 3, 3 := Some 0)\<rparr>"

lemma two_heap_dlist [simp]: "dlist two_heap 0 [2, 3]"
  by (simp add: dlist_def two_heap_def)

theorem LIST_FOR_EACH_visits_all_witness:
  "dlist two_heap 0 [2, 3] \<and>
   (\<exists>h'. LIST_FOR_EACH (unlink_if even (#)) 0 (two_heap, []) = Some (h', [3, 2]) \<and> dlist h' 0 [3])"
  using LIST_FOR_EACH_visits_all [OF two_heap_dlist, of even "(#)" "[]"] by simp

section \<open>The interface the queues' clients rely on\<close>

fun push_all :: "('a \<Rightarrow> 'a \<Rightarrow> 'h \<Rightarrow> 'h option) \<Rightarrow> 'a \<Rightarrow> 'a list \<Rightarrow> 'h \<Rightarrow> 'h option" where
  "push_all push l [] h = Some h"
| "push_all push l (e # es) h = Option.bind (push l e h) (push_all push l es)"

fun pop_n :: "('a \<Rightarrow> 'h \<Rightarrow> ('a option \<times> 'h) option) \<Rightarrow> 'a \<Rightarrow> nat \<Rightarrow> 'h \<Rightarrow> ('a option list \<times> 'h) option" where
  "pop_n pop l 0 h = Some ([], h)"
| "pop_n pop l (Suc n) h =
     Option.bind (pop l h) (\<lambda>(x, h). Option.bind (pop_n pop l n h) (\<lambda>(xs, h). Some (x # xs, h)))"

locale intrusive_queue =
  fixes repr :: "'h \<Rightarrow> 'a \<Rightarrow> 'a list \<Rightarrow> bool"
    and unlinked :: "'h \<Rightarrow> 'a \<Rightarrow> bool"
    and push :: "'a \<Rightarrow> 'a \<Rightarrow> 'h \<Rightarrow> 'h option"
    and pop :: "'a \<Rightarrow> 'h \<Rightarrow> ('a option \<times> 'h) option"
    and unlink :: "'a \<Rightarrow> 'h \<Rightarrow> 'h option"
  assumes repr_distinct: "repr h l xs \<Longrightarrow> distinct (l # xs)"
    and push_repr: "repr h l xs \<Longrightarrow> e \<notin> set (l # xs) \<Longrightarrow>
      \<exists>h'. push l e h = Some h' \<and> repr h' l (xs @ [e]) \<and>
        (\<forall>m ys. repr h m ys \<longrightarrow> set (m # ys) \<inter> set (l # e # xs) = {} \<longrightarrow> repr h' m ys)"
    and pop_empty: "repr h l [] \<Longrightarrow> pop l h = Some (None, h)"
    and pop_repr: "repr h l (x # xs) \<Longrightarrow>
      \<exists>h'. pop l h = Some (Some x, h') \<and> repr h' l xs \<and> unlinked h' x \<and>
        (\<forall>m ys. repr h m ys \<longrightarrow> set (m # ys) \<inter> set (l # x # xs) = {} \<longrightarrow> repr h' m ys)"
    and unlink_repr: "repr h l xs \<Longrightarrow> e \<in> set xs \<Longrightarrow>
      \<exists>h'. unlink e h = Some h' \<and> repr h' l (remove1 e xs) \<and> unlinked h' e \<and>
        (\<forall>m ys. repr h m ys \<longrightarrow> set (m # ys) \<inter> set (l # xs) = {} \<longrightarrow> repr h' m ys)"
    and unlink_unlinked: "unlinked h e \<Longrightarrow> unlink e h = Some h"
begin

lemma push_all_repr:
  "repr h l xs \<Longrightarrow> distinct (l # xs @ es) \<Longrightarrow>
    \<exists>h'. push_all push l es h = Some h' \<and> repr h' l (xs @ es)"
proof (induction es arbitrary: h xs)
  case Nil
  then show ?case by simp
next
  case (Cons e es)
  from push_repr [OF Cons.prems(1), of e] Cons.prems(2) obtain h1
    where h1: "push l e h = Some h1" "repr h1 l (xs @ [e])" by auto
  from Cons.IH [OF h1(2)] Cons.prems(2) h1(1) show ?case by simp
qed

lemma pop_n_repr:
  "repr h l xs \<Longrightarrow> n \<le> length xs \<Longrightarrow>
    \<exists>h'. pop_n pop l n h = Some (map Some (take n xs), h') \<and> repr h' l (drop n xs)"
proof (induction n arbitrary: h xs)
  case 0
  then show ?case by simp
next
  case (Suc n)
  then obtain x xs' where xs: "xs = x # xs'" by (cases xs) auto
  from pop_repr [of h l x xs'] Suc.prems(1) xs obtain h1
    where h1: "pop l h = Some (Some x, h1)" "repr h1 l xs'" by auto
  from Suc.IH [OF h1(2)] Suc.prems(2) xs obtain h'
    where "pop_n pop l n h1 = Some (map Some (take n xs'), h')" "repr h' l (drop n xs')"
    by auto
  with h1 xs show ?case by simp
qed

text \<open>First in, first out.\<close>

lemma fifo:
  assumes "repr h l xs" and "distinct (l # xs @ es)"
  shows "\<exists>h1 h2. push_all push l es h = Some h1 \<and>
    pop_n pop l (length (xs @ es)) h1 = Some (map Some (xs @ es), h2) \<and> repr h2 l []"
proof -
  from push_all_repr [OF assms] obtain h1 where
    h1: "push_all push l es h = Some h1" "repr h1 l (xs @ es)" by blast
  from pop_n_repr [OF h1(2), of "length (xs @ es)"] h1(1) show ?thesis by auto
qed

text \<open>Popping the head and pushing it back rotates the queue: round-robin order.\<close>

lemma rotate:
  assumes "repr h l (x # xs)"
  shows "\<exists>h1 h2. pop l h = Some (Some x, h1) \<and> push l x h1 = Some h2 \<and> repr h2 l (xs @ [x])"
proof -
  from pop_repr [OF assms] obtain h1
    where h1: "pop l h = Some (Some x, h1)" "repr h1 l xs" by blast
  moreover have "x \<notin> set (l # xs)" using repr_distinct [OF assms] by auto
  ultimately show ?thesis using push_repr [of h1 l xs x] by auto
qed

text \<open>Unlinking an element twice is unlinking it once, and it may then be queued elsewhere
  without disturbing the list it came from.\<close>

lemma requeue:
  assumes "repr h l xs" and "repr h m ys" and "e \<in> set xs"
    and "set (l # xs) \<inter> set (m # ys) = {}"
  shows "\<exists>h1 h2. unlink e h = Some h1 \<and> unlink e h1 = Some h1 \<and> push m e h1 = Some h2
    \<and> repr h2 l (remove1 e xs) \<and> repr h2 m (ys @ [e])"
proof -
  from unlink_repr [OF assms(1,3)] assms(2,4) obtain h1
    where h1: "unlink e h = Some h1" "repr h1 l (remove1 e xs)" "unlinked h1 e" "repr h1 m ys"
    by (metis inf_commute)
  have e: "e \<notin> set (m # ys)" using assms(3,4) by auto
  have sub: "set (remove1 e xs) \<subseteq> set xs - {e}"
    using repr_distinct [OF assms(1)] by auto
  have "set (l # remove1 e xs) \<inter> set (m # e # ys) = {}"
    using assms(3,4) repr_distinct [OF assms(1)] sub by auto
  with push_repr [OF h1(4) e] h1 show ?thesis
    using unlink_unlinked by blast
qed

end

interpretation dl: intrusive_queue dlist "\<lambda>h e. nxt h e = None" list_push_back list_pop_front list_remove
proof (unfold_locales, goal_cases)
  case (1 h l xs)
  then show ?case by (simp add: dlist_def)
next
  case (2 h l xs e)
  from list_push_back_dlist [OF 2] show ?case
    by (metis dlist_same_outside inf_commute)
next
  case (3 h l)
  then show ?case by (rule list_pop_front_Nil)
next
  case (4 h l x xs)
  from list_pop_front_Cons [OF 4] show ?case
    by (metis dlist_same_outside inf_commute)
next
  case (5 h l xs e)
  from list_remove_dlist [OF 5] show ?case
    by (metis dlist_same_outside inf_commute)
next
  case (6 h e)
  then show ?case by (simp add: list_remove_def)
qed

text \<open>
  C20: the pointer operations implement a queue: elements pushed with \<^verbatim>\<open>list_push_back\<close> onto a
  well-formed list come out of \<^verbatim>\<open>list_pop_front\<close> in the order they went in, behind the elements
  already there, and the list ends empty. No null pointer is followed on the way.
\<close>

theorem list_fifo:
  assumes "dlist h l xs" and "distinct (l # xs @ es)"
  shows "\<exists>h1 h2. push_all list_push_back l es h = Some h1 \<and>
    pop_n list_pop_front l (length (xs @ es)) h1 = Some (map Some (xs @ es), h2) \<and> dlist h2 l []"
  using assms by (rule dl.fifo)

theorem list_fifo_witness:
  "dlist two_heap 0 [2, 3] \<and> distinct [0::nat, 2, 3, 4] \<and>
   (\<exists>h1 h2. push_all list_push_back 0 [4] two_heap = Some h1 \<and>
     pop_n list_pop_front 0 (length [2::nat, 3, 4]) h1 = Some (map Some [2, 3, 4], h2) \<and> dlist h2 0 [])"
  using list_fifo [OF two_heap_dlist, of "[4]"] two_heap_dlist by (simp del: pop_n.simps push_all.simps)

text \<open>
  \<^verbatim>\<open>list_remove\<close> takes an element out of the list it is in without knowing which list that
  is, is idempotent, and leaves the element free to be pushed onto another list; the first
  list keeps its other elements in order.
\<close>

theorem list_remove_requeue:
  assumes "dlist h l xs" and "dlist h m ys" and "e \<in> set xs"
    and "set (l # xs) \<inter> set (m # ys) = {}"
  shows "\<exists>h1 h2. list_remove e h = Some h1 \<and> list_remove e h1 = Some h1
    \<and> list_push_back m e h1 = Some h2 \<and> dlist h2 l (remove1 e xs) \<and> dlist h2 m (ys @ [e])"
  using assms by (rule dl.requeue)

theorem list_remove_requeue_witness:
  "dlist (list_init 9 two_heap) 0 [2, 3] \<and> dlist (list_init 9 two_heap) 9 [] \<and>
   (\<exists>h1 h2. list_remove 2 (list_init 9 two_heap) = Some h1 \<and> list_remove 2 h1 = Some h1
    \<and> list_push_back 9 2 h1 = Some h2 \<and> dlist h2 0 [3] \<and> dlist h2 9 [2])"
proof -
  have h: "dlist (list_init 9 two_heap) 0 [2, 3]"
    by (simp add: dlist_def two_heap_def list_init_def)
  show ?thesis
    using h list_remove_requeue [OF h list_init_dlist, of 2] by simp
qed

end
