(* ===== verification/Bitmap.thy ===== *)
theory Bitmap
  imports Prelude
begin

text \<open>
  \<^verbatim>\<open>libs/common/bitmap.c\<close>: bitmaps over a byte array. The array is the list of its bytes;
  \<open>sz\<close> is the byte count the caller passes.
\<close>

definition BITS_PER_BYTE :: nat where
  [kconst]: "BITS_PER_BYTE = 8"

definition BITMAP_SIZE :: "nat \<Rightarrow> nat" where
  "BITMAP_SIZE n = ((n + BITS_PER_BYTE - 1) div BITS_PER_BYTE * BITS_PER_BYTE) div BITS_PER_BYTE"

definition bitmap_fill :: "u8 list \<Rightarrow> nat \<Rightarrow> bool \<Rightarrow> u8 list option" where
  "bitmap_fill bitmap sz v =
     (if sz \<le> length bitmap
      then Some (replicate sz (if v then 0xff else 0x00) @ drop sz bitmap) else None)"

definition bitmap_get :: "u8 list \<Rightarrow> nat \<Rightarrow> nat \<Rightarrow> u8 option" where
  "bitmap_get bitmap sz index =
     do {
       ASSERT (index < sz * BITS_PER_BYTE);
       ASSERT (index div BITS_PER_BYTE < length bitmap);
       Some (drop_bit (index mod BITS_PER_BYTE) (bitmap ! (index div BITS_PER_BYTE)))
     }"

definition bitmap_set :: "u8 list \<Rightarrow> nat \<Rightarrow> nat \<Rightarrow> u8 list option" where
  "bitmap_set bitmap sz index =
     do {
       ASSERT (index < sz * BITS_PER_BYTE);
       ASSERT (index div BITS_PER_BYTE < length bitmap);
       Some (bitmap[index div BITS_PER_BYTE :=
         bitmap ! (index div BITS_PER_BYTE) OR push_bit (index mod BITS_PER_BYTE) 1])
     }"

definition bitmap_clear :: "u8 list \<Rightarrow> nat \<Rightarrow> nat \<Rightarrow> u8 list option" where
  "bitmap_clear bitmap sz index =
     do {
       ASSERT (index < sz * BITS_PER_BYTE);
       ASSERT (index div BITS_PER_BYTE < length bitmap);
       Some (bitmap[index div BITS_PER_BYTE :=
         bitmap ! (index div BITS_PER_BYTE) AND NOT (push_bit (index mod BITS_PER_BYTE) 1)])
     }"

text \<open>The abstract bitmap: which bits are set.\<close>

definition bm_test :: "u8 list \<Rightarrow> nat \<Rightarrow> bool" where
  "bm_test bitmap i \<longleftrightarrow> i div 8 < length bitmap \<and> bit (bitmap ! (i div 8)) (i mod 8)"

lemma bm_test_set:
  assumes "bitmap_set bm sz i = Some bm'"
  shows "bm_test bm' j \<longleftrightarrow> j = i \<or> bm_test bm j"
proof -
  have i: "i div 8 < length bm" and bm': "bm' = bm[i div 8 := bm ! (i div 8) OR push_bit (i mod 8) 1]"
    using assms by (auto simp: bitmap_set_def BITS_PER_BYTE_def split: if_splits)
  have "j div 8 = i div 8 \<and> j mod 8 = i mod 8 \<longleftrightarrow> j = i"
    by (metis div_mult_mod_eq)
  then show ?thesis
    using i by (auto simp: bm' bm_test_def nth_list_update bit_simps)
qed

lemma bm_test_clear:
  assumes "bitmap_clear bm sz i = Some bm'"
  shows "bm_test bm' j \<longleftrightarrow> j \<noteq> i \<and> bm_test bm j"
proof -
  have i: "i div 8 < length bm"
    and bm': "bm' = bm[i div 8 := bm ! (i div 8) AND NOT (push_bit (i mod 8) 1)]"
    using assms by (auto simp: bitmap_clear_def BITS_PER_BYTE_def split: if_splits)
  have "j div 8 = i div 8 \<and> j mod 8 = i mod 8 \<longleftrightarrow> j = i"
    by (metis div_mult_mod_eq)
  then show ?thesis
    using i by (auto simp: bm' bm_test_def nth_list_update bit_simps)
qed

lemma byte_index_add:
  fixes i n :: nat
  assumes "i mod 8 + n < 8"
  shows "(i + n) div 8 = i div 8" and "(i + n) mod 8 = i mod 8 + n"
proof -
  show "(i + n) div 8 = i div 8"
    using assms div_mult_mod_eq [of i 8] div_mult_mod_eq [of "i + n" 8]
      mod_less_divisor [of 8 "i + n"] by linarith
  show "(i + n) mod 8 = i mod 8 + n"
    using assms by (metis mod_add_left_eq mod_less)
qed

lemma byte_index_diff: "i \<le> j \<Longrightarrow> (j::nat) div 8 = i div 8 \<Longrightarrow> j mod 8 = i mod 8 + (j - i)"
  using div_mult_mod_eq [of i 8] div_mult_mod_eq [of j 8] by linarith

lemma bitmap_get_Some:
  assumes "bitmap_get bm sz i = Some v"
  shows "i div 8 < length bm" and "v = drop_bit (i mod 8) (bm ! (i div 8))"
  using assms by (auto simp: bitmap_get_def BITS_PER_BYTE_def split: if_splits)

text \<open>
  \<open>bitmap_get\<close> shifts the byte but does not mask it, so its result is nonzero exactly
  when the queried bit or some higher bit of the same byte is set.
\<close>

theorem bitmap_get_nonzero:
  assumes "bitmap_get bm sz i = Some v"
  shows "v \<noteq> 0 \<longleftrightarrow> (\<exists>j. i \<le> j \<and> j div 8 = i div 8 \<and> bm_test bm j)"
proof -
  note i = bitmap_get_Some(1) [OF assms] and v = bitmap_get_Some(2) [OF assms]
  have "v \<noteq> 0 \<longleftrightarrow> (\<exists>n. bit v n)"
    by (metis bit_0_eq bit_eqI bot_apply bot_bool_def)
  also have "\<dots> \<longleftrightarrow> (\<exists>n. bit (bm ! (i div 8)) (i mod 8 + n))"
    by (simp add: v bit_simps)
  also have "\<dots> \<longleftrightarrow> (\<exists>j. i \<le> j \<and> j div 8 = i div 8 \<and> bm_test bm j)"
  proof (intro iffI; elim exE conjE)
    fix n
    assume b: "bit (bm ! (i div 8)) (i mod 8 + n)"
    then have "i mod 8 + n < 8"
      using bit_imp_le_length by fastforce
    then show "\<exists>j. i \<le> j \<and> j div 8 = i div 8 \<and> bm_test bm j"
      using b i by (intro exI [of _ "i + n"]) (simp add: bm_test_def byte_index_add)
  next
    fix j
    assume j: "i \<le> j" "j div 8 = i div 8" "bm_test bm j"
    then have "bit (bm ! (i div 8)) (i mod 8 + (j - i))"
      by (simp add: bm_test_def byte_index_diff [OF j(1,2)])
    then show "\<exists>n. bit (bm ! (i div 8)) (i mod 8 + n)" ..
  qed
  finally show ?thesis .
qed

theorem bitmap_get_nonzero_witness:
  "bitmap_get [0x10] 1 2 = Some 4 \<and>
   ((4::u8) \<noteq> 0 \<longleftrightarrow> (\<exists>j. 2 \<le> j \<and> j div 8 = 2 div 8 \<and> bm_test [0x10] j))"
proof -
  have h: "bitmap_get [0x10] 1 2 = Some 4"
    by (simp add: bitmap_get_def BITS_PER_BYTE_def)
  show ?thesis using h bitmap_get_nonzero [OF h] by simp
qed

text \<open>
  on a bitmap just filled, which is how the kernel builds a task's capabilities, every
  lookup inside the bitmap succeeds and answers what the bitmap was filled with.
\<close>

theorem bitmap_get_fill:
  assumes "bitmap_fill bm sz b = Some bm'" and "i < sz * 8"
  shows "\<exists>v. bitmap_get bm' sz i = Some v \<and> (v \<noteq> 0 \<longleftrightarrow> b)"
proof -
  have bm': "bm' = replicate sz (if b then 0xff else 0) @ drop sz bm"
    using assms(1) by (auto simp: bitmap_fill_def split: if_splits)
  have i: "i div 8 < sz"
    using assms(2) by (simp add: less_mult_imp_div_less)
  let ?v = "drop_bit (i mod 8) (if b then 0xff else 0) :: u8"
  have get: "bitmap_get bm' sz i = Some ?v"
    using i assms(2) by (simp add: bitmap_get_def bm' BITS_PER_BYTE_def nth_append)
  have "bit (0xff :: u8) (i mod 8)"
  proof -
    have "(0xff :: u8) = - 1" by simp
    then show ?thesis by (simp only: bit_minus_1_iff) simp
  qed
  then have "b \<Longrightarrow> bit ?v 0"
    by (simp add: bit_simps)
  then have "?v \<noteq> 0 \<longleftrightarrow> b"
    by (cases b) auto
  with get show ?thesis by blast
qed

theorem bitmap_get_fill_witness:
  "bitmap_fill [0x00] 1 True = Some [0xff] \<and> (\<exists>v. bitmap_get [0xff] 1 3 = Some v \<and> (v \<noteq> 0 \<longleftrightarrow> True))"
proof -
  have h: "bitmap_fill [0x00] 1 True = Some [0xff]"
    by (simp add: bitmap_fill_def)
  show ?thesis using h bitmap_get_fill [OF h, of 3] by simp
qed

end
