(* ===== verification/C_String.thy ===== *)
theory C_String
  imports Prelude
begin

text \<open>
  \<^verbatim>\<open>libs/common/string.c\<close>. A \<^verbatim>\<open>char *\<close> argument is the list of the bytes from the pointer to the
  end of the object it points into; reading or writing past that end is a fault (\<open>None\<close>). A
  pointer the function returns into its argument is the offset from the argument. The block
  copies work on one array \<open>mem\<close> with the two regions given by their offsets, so that
  overlapping regions are modelled. Plain \<^verbatim>\<open>char\<close> is signed, as it is on x64.
\<close>

type_synonym cbuf = "u8 list"

section \<open>The functions\<close>

fun strlen :: "cbuf \<Rightarrow> nat option" where
  "strlen [] = None"
| "strlen (c # s) = (if c \<noteq> 0 then map_option Suc (strlen s) else Some 0)"

text \<open>\<^verbatim>\<open>num - 1\<close> is a \<^verbatim>\<open>size_t\<close>, so it wraps when \<open>num\<close> is zero.\<close>

function strncpy2_loop :: "cbuf \<Rightarrow> cbuf \<Rightarrow> nat \<Rightarrow> nat \<Rightarrow> cbuf option" where
  "strncpy2_loop dst src limit i =
     (if i < limit \<and> length src \<le> i then None
      else if i < limit \<and> src ! i \<noteq> 0 then
        (if i < length dst then strncpy2_loop (dst[i := src ! i]) src limit (Suc i) else None)
      else if i < length dst then Some (dst[i := 0]) else None)"
  by pat_completeness auto
termination
  by (relation "measure (\<lambda>(dst, src, limit, i). limit - i)") auto

definition strncpy2 :: "cbuf \<Rightarrow> cbuf \<Rightarrow> nat \<Rightarrow> cbuf option" where
  "strncpy2 dst src num = strncpy2_loop dst src (if num = 0 then 2 ^ 64 - 1 else num - 1) 0"

fun strcmp :: "cbuf \<Rightarrow> cbuf \<Rightarrow> int option" where
  "strcmp (a # s1) (b # s2) =
     (if a = b \<and> a \<noteq> 0 \<and> b \<noteq> 0 then strcmp s1 s2 else Some (sint a - sint b))"
| "strcmp _ _ = None"

fun strncmp :: "cbuf \<Rightarrow> cbuf \<Rightarrow> nat \<Rightarrow> int option" where
  "strncmp s1 s2 0 = Some 0"
| "strncmp (a # s1) (b # s2) (Suc len) =
     (if a \<noteq> b then Some (sint a - sint b)
      else if a = 0 then Some 0
      else strncmp s1 s2 len)"
| "strncmp _ _ (Suc len) = None"

fun strstr_loop :: "cbuf \<Rightarrow> cbuf \<Rightarrow> nat \<Rightarrow> nat \<Rightarrow> nat option option" where
  "strstr_loop [] needle needle_len off = None"
| "strstr_loop (c # s) needle needle_len off =
     (if c \<noteq> 0 then
        do {
          r \<leftarrow> strncmp (c # s) needle needle_len;
          if r = 0 then Some (Some off) else strstr_loop s needle needle_len (Suc off)
        }
      else Some None)"

definition strstr :: "cbuf \<Rightarrow> cbuf \<Rightarrow> nat option option" where
  "strstr haystack needle =
     do {
       needle_len \<leftarrow> strlen needle;
       strstr_loop haystack needle needle_len 0
     }"

text \<open>\<open>strchr\<close> stops at the terminator when the character does not occur, and returns the
  pointer to it (never a null pointer).\<close>

fun strchr :: "cbuf \<Rightarrow> int \<Rightarrow> nat option" where
  "strchr [] c = None"
| "strchr (a # s) c = (if sint a \<noteq> c \<and> a \<noteq> 0 then map_option Suc (strchr s c) else Some 0)"

text \<open>Signed overflow in \<open>atoi\<close> is undefined, hence a fault.\<close>

fun atoi_loop :: "cbuf \<Rightarrow> int \<Rightarrow> int option" where
  "atoi_loop [] x = None"
| "atoi_loop (c # s) x =
     (if 0x30 \<le> sint c \<and> sint c \<le> 0x39 then
        (if x * 10 + (sint c - 0x30) < 2 ^ 31 then atoi_loop s (x * 10 + (sint c - 0x30)) else None)
      else Some x)"

definition atoi :: "cbuf \<Rightarrow> int option" where
  "atoi s = atoi_loop s 0"

text \<open>\<open>memcmp\<close> tests the bytes before it tests the length.\<close>

fun memcmp :: "cbuf \<Rightarrow> cbuf \<Rightarrow> nat \<Rightarrow> int option" where
  "memcmp (a # s1) (b # s2) len =
     (if a = b \<and> 0 < len then memcmp s1 s2 (len - 1)
      else Some (if 0 < len then uint a - uint b else 0))"
| "memcmp _ _ len = None"

fun memset :: "u8 list \<Rightarrow> nat \<Rightarrow> u8 \<Rightarrow> nat \<Rightarrow> u8 list option" where
  "memset mem d ch 0 = Some mem"
| "memset mem d ch (Suc len) =
     (if d < length mem then memset (mem[d := ch]) (Suc d) ch len else None)"

definition bzero :: "u8 list \<Rightarrow> nat \<Rightarrow> nat \<Rightarrow> u8 list option" where
  "bzero mem dst len = memset mem dst 0 len"

fun memcpy :: "u8 list \<Rightarrow> nat \<Rightarrow> nat \<Rightarrow> nat \<Rightarrow> u8 list option" where
  "memcpy mem d s 0 = Some mem"
| "memcpy mem d s (Suc len) =
     (if d < length mem \<and> s < length mem
      then memcpy (mem[d := mem ! s]) (Suc d) (Suc s) len else None)"

text \<open>The backward loop of \<open>memmove\<close>; \<open>d\<close> and \<open>s\<close> are the starts of the regions, of which
  the first \<open>len\<close> bytes remain to be copied.\<close>

fun memmove_back :: "u8 list \<Rightarrow> nat \<Rightarrow> nat \<Rightarrow> nat \<Rightarrow> u8 list option" where
  "memmove_back mem d s 0 = Some mem"
| "memmove_back mem d s (Suc len) =
     (if d + len < length mem \<and> s + len < length mem
      then memmove_back (mem[d + len := mem ! (s + len)]) d s len else None)"

definition memmove :: "u8 list \<Rightarrow> nat \<Rightarrow> nat \<Rightarrow> nat \<Rightarrow> u8 list option" where
  "memmove mem dst src len =
     (if dst \<le> src then memcpy mem dst src len else memmove_back mem dst src len)"

section \<open>The strings buffers hold\<close>

text \<open>\<open>cstr buf s\<close>: the buffer holds the string \<open>s\<close>, NUL-terminated.\<close>

definition cstr :: "cbuf \<Rightarrow> u8 list \<Rightarrow> bool" where
  "cstr buf s \<longleftrightarrow> 0 \<notin> set s \<and> (\<exists>rest. buf = s @ 0 # rest)"

lemma cstr_simps [simp]:
  "\<not> cstr [] s"
  "cstr (c # buf) [] \<longleftrightarrow> c = 0"
  "cstr (c # buf) (a # s) \<longleftrightarrow> c = a \<and> a \<noteq> 0 \<and> cstr buf s"
  by (auto simp: cstr_def Cons_eq_append_conv)

lemma cstr_Cons: "cstr (c # buf) s \<longleftrightarrow> (if c = 0 then s = [] else \<exists>t. s = c # t \<and> cstr buf t)"
  by (cases s) auto

lemma cstr_unique: "cstr buf s \<Longrightarrow> cstr buf t \<Longrightarrow> s = t"
  by (induction buf arbitrary: s t) (auto simp: cstr_Cons split: if_splits)

lemma strlen_cstr: "cstr buf s \<Longrightarrow> strlen buf = Some (length s)"
  by (induction buf arbitrary: s) (auto simp: cstr_Cons split: if_splits)

lemma strlen_Some: "strlen buf = Some n \<Longrightarrow> cstr buf (take n buf)"
  by (induction buf arbitrary: n) (auto split: if_splits)

lemma sint_eq [simp]: "sint (a::u8) = sint b \<longleftrightarrow> a = b"
proof
  assume "sint a = sint b"
  then have "uint a = uint b" by (simp add: uint_sint)
  then show "a = b" by (rule unsigned_word_eqI)
qed simp

lemma strcmp_cstr:
  "cstr b1 s1 \<Longrightarrow> cstr b2 s2 \<Longrightarrow> \<exists>r. strcmp b1 b2 = Some r \<and> (r = 0 \<longleftrightarrow> s1 = s2)"
  by (induction b1 b2 arbitrary: s1 s2 rule: strcmp.induct) (fastforce simp: cstr_Cons split: if_splits)+

lemma strncmp_cstr:
  "cstr b1 s1 \<Longrightarrow> cstr b2 s2 \<Longrightarrow> \<exists>r. strncmp b1 b2 n = Some r \<and> (r = 0 \<longleftrightarrow> take n s1 = take n s2)"
  by (induction b1 b2 n arbitrary: s1 s2 rule: strncmp.induct) (fastforce simp: cstr_Cons split: if_splits)+


section \<open>Copying strings\<close>

declare strncpy2_loop.simps [simp del]

lemma strncpy2_loop_cstr:
  "cstr src s \<Longrightarrow> i \<le> limit \<Longrightarrow> limit < length dst \<Longrightarrow> i \<le> length s \<Longrightarrow> take i dst = take i s \<Longrightarrow>
    strncpy2_loop dst src limit i = Some (take limit s @ 0 # drop (Suc (min (length s) limit)) dst)"
proof (induction dst src limit i rule: strncpy2_loop.induct)
  case (1 dst src limit i)
  from "1.prems" obtain rest where src: "src = s @ 0 # rest" and s0: "0 \<notin> set s"
    by (auto simp: cstr_def)
  have i: "i < length src" using src "1.prems" by simp
  show ?case
  proof (cases "i < limit \<and> src ! i \<noteq> 0")
    case True
    then have il: "i < length s" using src "1.prems" by (cases "i = length s") auto
    then have "take (Suc i) (dst[i := src ! i]) = take (Suc i) s"
      using "1.prems" src by (simp add: take_Suc_conv_app_nth nth_append)
    moreover have "drop (Suc (min (length s) limit)) (dst[i := src ! i])
        = drop (Suc (min (length s) limit)) dst"
      using True il by (intro drop_update_cancel) auto
    ultimately have "strncpy2_loop (dst[i := src ! i]) src limit (Suc i)
        = Some (take limit s @ 0 # drop (Suc (min (length s) limit)) dst)"
      using "1.IH" "1.prems" True i il by simp
    with True i il "1.prems" show ?thesis
      by (subst strncpy2_loop.simps) simp
  next
    case False
    have "src ! i = 0 \<Longrightarrow> i = length s"
      using src s0 "1.prems" by (metis le_neq_implies_less nth_append nth_mem)
    with False "1.prems" have im: "i = min (length s) limit"
      by (auto simp: min_def)
    then have "take i s = take limit s"
      by (simp add: min_def)
    then have "dst[i := 0] = take limit s @ 0 # drop (Suc i) dst"
      using "1.prems" by (simp add: upd_conv_take_nth_drop)
    with False i im "1.prems" show ?thesis
      by (subst strncpy2_loop.simps) auto
  qed
qed

lemma strncpy2_eq:
  assumes "cstr src s" and "0 < num" and "num \<le> length dst"
  shows "strncpy2 dst src num
    = Some (take (num - 1) s @ 0 # drop (Suc (min (length s) (num - 1))) dst)"
  using assms strncpy2_loop_cstr [OF assms(1), of 0 "num - 1" dst] by (simp add: strncpy2_def)



lemma strncpy2_is_cstr:
  assumes "cstr src s" and "0 < num" and "num \<le> length dst"
  shows "\<exists>d. strncpy2 dst src num = Some d \<and> length d = length dst \<and> cstr d (take (num - 1) s)"
proof -
  have "0 \<notin> set (take (num - 1) s)"
    using assms(1) in_set_takeD by (fastforce simp: cstr_def)
  then show ?thesis
    using assms by (auto simp: strncpy2_eq cstr_def)
qed

section \<open>Block operations\<close>

lemma memset_eq:
  "d + len \<le> length mem \<Longrightarrow>
    memset mem d ch len = Some (take d mem @ replicate len ch @ drop (d + len) mem)"
proof (induction len arbitrary: mem d)
  case 0
  then show ?case by simp
next
  case (Suc len)
  then have "memset (mem[d := ch]) (Suc d) ch len
      = Some (take (Suc d) (mem[d := ch]) @ replicate len ch @ drop (Suc d + len) (mem[d := ch]))"
    by simp
  with Suc.prems show ?case
    by (simp add: take_Suc_conv_app_nth)
qed

text \<open>The bytes a region copy puts at each offset.\<close>

definition copied :: "u8 list \<Rightarrow> nat \<Rightarrow> nat \<Rightarrow> nat \<Rightarrow> u8 list \<Rightarrow> bool" where
  "copied mem d s len mem' \<longleftrightarrow> length mem' = length mem \<and>
     (\<forall>k < length mem. mem' ! k = (if d \<le> k \<and> k < d + len then mem ! (s + (k - d)) else mem ! k))"

lemma copied_unique: "copied mem d s len a \<Longrightarrow> copied mem d s len b \<Longrightarrow> a = b"
  by (auto simp: copied_def intro!: nth_equalityI)

lemma memcpy_copied:
  assumes "d + len \<le> length mem" "s + len \<le> length mem" "d \<le> s \<or> s + len \<le> d"
  shows "\<exists>mem'. memcpy mem d s len = Some mem' \<and> copied mem d s len mem'"
  using assms
proof (induction len arbitrary: mem d s)
  case 0
  then show ?case by (auto simp: copied_def)
next
  case (Suc len)
  let ?m = "mem[d := mem ! s]"
  from Suc have "\<exists>mem'. memcpy ?m (Suc d) (Suc s) len = Some mem' \<and> copied ?m (Suc d) (Suc s) len mem'"
    by (intro Suc.IH) auto
  then obtain mem' where m': "memcpy ?m (Suc d) (Suc s) len = Some mem'"
      "copied ?m (Suc d) (Suc s) len mem'" by blast
  have "copied mem d s (Suc len) mem'"
    unfolding copied_def
  proof (intro conjI allI impI)
    show "length mem' = length mem" using m'(2) by (simp add: copied_def)
  next
    fix k assume k: "k < length mem"
    then have "mem' ! k = (if Suc d \<le> k \<and> k < Suc d + len then ?m ! (Suc s + (k - Suc d)) else ?m ! k)"
      using m'(2) by (simp add: copied_def)
    moreover have "Suc d \<le> k \<Longrightarrow> k < Suc d + len \<Longrightarrow> Suc s + (k - Suc d) = s + (k - d) \<and> s + (k - d) \<noteq> d"
      using Suc.prems(3) by auto
    ultimately show "mem' ! k = (if d \<le> k \<and> k < d + Suc len then mem ! (s + (k - d)) else mem ! k)"
      using Suc.prems k by (cases "k = d") (auto simp: nth_list_update)
  qed
  with m' Suc.prems show ?case by auto
qed

lemma memmove_back_copied:
  assumes "d + len \<le> length mem" "s + len \<le> length mem" "s < d"
  shows "\<exists>mem'. memmove_back mem d s len = Some mem' \<and> copied mem d s len mem'"
  using assms
proof (induction len arbitrary: mem)
  case 0
  then show ?case by (auto simp: copied_def)
next
  case (Suc len)
  let ?m = "mem[d + len := mem ! (s + len)]"
  from Suc have "\<exists>mem'. memmove_back ?m d s len = Some mem' \<and> copied ?m d s len mem'"
    by (intro Suc.IH) auto
  then obtain mem' where m': "memmove_back ?m d s len = Some mem'" "copied ?m d s len mem'" by blast
  have "copied mem d s (Suc len) mem'"
    unfolding copied_def
  proof (intro conjI allI impI)
    show "length mem' = length mem" using m'(2) by (simp add: copied_def)
  next
    fix k assume k: "k < length mem"
    then have "mem' ! k = (if d \<le> k \<and> k < d + len then ?m ! (s + (k - d)) else ?m ! k)"
      using m'(2) by (simp add: copied_def)
    moreover have "d \<le> k \<Longrightarrow> k < d + len \<Longrightarrow> s + (k - d) \<noteq> d + len"
      using Suc.prems(3) by auto
    ultimately show "mem' ! k = (if d \<le> k \<and> k < d + Suc len then mem ! (s + (k - d)) else mem ! k)"
      using Suc.prems k by (cases "k = d + len") (auto simp: nth_list_update)
  qed
  with m' Suc.prems show ?case by auto
qed

text \<open>
  C32: \<open>memmove\<close> is correct for overlapping regions in either direction: afterwards the
  destination holds the bytes the source held before the call, and every other byte is
  unchanged.
\<close>

theorem memmove_copied:
  assumes "dst + len \<le> length mem" "src + len \<le> length mem"
  shows "\<exists>mem'. memmove mem dst src len = Some mem' \<and> length mem' = length mem \<and>
    (\<forall>k < length mem. mem' ! k = (if dst \<le> k \<and> k < dst + len then mem ! (src + (k - dst)) else mem ! k))"
proof -
  have "\<exists>mem'. memmove mem dst src len = Some mem' \<and> copied mem dst src len mem'"
    using assms memcpy_copied memmove_back_copied by (simp add: memmove_def)
  then show ?thesis unfolding copied_def by blast
qed

theorem memmove_copied_witness:
  "\<exists>mem'. memmove [1, 2, 3, 4] 1 0 3 = Some mem' \<and> mem' ! 1 = 1 \<and> mem' ! 2 = 2 \<and> mem' ! 3 = 3"
proof -
  have h: "1 + 3 \<le> length [1, 2, 3, 4 :: u8]" "0 + 3 \<le> length [1, 2, 3, 4 :: u8]" by simp_all
  from memmove_copied [OF h] obtain mem' where m: "memmove [1, 2, 3, 4] 1 0 3 = Some mem'"
    "\<forall>k < length [1, 2, 3, 4 :: u8]. mem' ! k =
      (if 1 \<le> k \<and> k < 1 + 3 then [1, 2, 3, 4 :: u8] ! (0 + (k - 1)) else [1, 2, 3, 4] ! k)"
    by blast
  from m(2) [rule_format, of 1] m(2) [rule_format, of 2] m(2) [rule_format, of 3] m(1)
  show ?thesis by simp
qed

section \<open>Comparing and searching\<close>

lemma memcmp_eq:
  "length a = n \<Longrightarrow> length b = n \<Longrightarrow> \<exists>r. memcmp (a @ x # a') (b @ y # b') n = Some r \<and> (r = 0 \<longleftrightarrow> a = b)"
proof (induction a arbitrary: b n)
  case Nil
  then show ?case by auto
next
  case (Cons c a)
  then obtain d b1 where b: "b = d # b1" and n: "n = Suc (length a)" "length b1 = length a"
    by (cases b) auto
  from Cons.IH [of "length a" b1] n b show ?case
    by (cases "c = d") (auto dest: unsigned_word_eqI)
qed

text \<open>
  \<open>memcmp\<close> reads one byte behind both regions when they are equal, because it compares the
  current bytes before it looks at the remaining length: called on two equal objects of exactly
  \<open>len\<close> bytes it leaves their bounds.
\<close>

theorem memcmp_overread: "memcmp a a (length a) = None"
  by (induction a) auto

lemma strchr_cstr:
  assumes "cstr buf s" and "c \<noteq> 0"
  shows "strchr buf c = Some (length (takeWhile (\<lambda>a. sint a \<noteq> c) s))"
  using assms by (induction buf arbitrary: s) (auto simp: cstr_Cons split: if_splits)

lemma strstr_loop_cstr:
  assumes "cstr needle n"
  shows "cstr buf s \<Longrightarrow> strstr_loop buf needle (length n) off
    = Some (if \<exists>i < length s. take (length n) (drop i s) = n
            then Some (off + (LEAST i. i < length s \<and> take (length n) (drop i s) = n)) else None)"
proof (induction buf arbitrary: s off)
  case Nil
  then show ?case by simp
next
  case (Cons c buf)
  show ?case
  proof (cases "c = 0")
    case True
    with Cons.prems show ?thesis by (simp add: cstr_Cons)
  next
    case False
    with Cons.prems obtain t where s: "s = c # t" and t: "cstr buf t"
      by (auto simp: cstr_Cons)
    let ?P = "\<lambda>s i. i < length s \<and> take (length n) (drop i s) = n"
    from strncmp_cstr [OF Cons.prems assms, of "length n"] obtain r
      where r: "strncmp (c # buf) needle (length n) = Some r" "r = 0 \<longleftrightarrow> take (length n) s = n"
      by auto
    show ?thesis
    proof (cases "r = 0")
      case True
      then have "?P s 0" using r s by simp
      moreover from this have "(LEAST i. ?P s i) = 0" by (intro Least_equality) auto
      ultimately show ?thesis using r True False by auto
    next
      case r0: False
      then have np: "\<not> ?P s 0" using r by simp
      have ex: "(\<exists>i. ?P s i) \<longleftrightarrow> (\<exists>i. ?P t i)"
        using np s by (metis Suc_less_eq drop_Suc_Cons length_Cons not0_implies_Suc)
      have least: "(LEAST i. ?P s i) = Suc (LEAST i. ?P t i)" if "\<exists>i. ?P t i"
      proof -
        from that ex obtain i where "?P s i" by blast
        from Least_Suc [of "?P s", OF this np] show ?thesis using s by simp
      qed
      from Cons.IH [OF t, of "Suc off"] r r0 False show ?thesis
        using ex least by auto
    qed
  qed
qed

text \<open>
  \<open>strstr\<close> returns the leftmost position of the haystack at which the needle starts, and a
  null pointer when there is none (so also for an empty haystack, whatever the needle).
\<close>

theorem strstr_leftmost:
  assumes "cstr haystack h" and "cstr needle n"
  shows "strstr haystack needle
    = Some (if \<exists>i < length h. take (length n) (drop i h) = n
            then Some (LEAST i. i < length h \<and> take (length n) (drop i h) = n) else None)"
  using strstr_loop_cstr [OF assms(2,1), of 0] strlen_cstr [OF assms(2)] by (simp add: strstr_def)

theorem strstr_leftmost_witness:
  "cstr [65, 66, 66, 0] [65, 66, 66] \<and> cstr [66, 0] [66] \<and>
   strstr [65, 66, 66, 0] [66, 0] = Some (Some
     (LEAST i. i < length [65, 66, 66 :: u8] \<and> take (length [66 :: u8]) (drop i [65, 66, 66 :: u8]) = [66]))"
proof -
  have h: "cstr [65, 66, 66, 0] [65, 66, 66]" "cstr [66, 0] [66]" by simp_all
  have "\<exists>i < length [65, 66, 66 :: u8]. take (length [66 :: u8]) (drop i [65, 66, 66 :: u8]) = [66]"
    by (rule exI [of _ 1]) simp
  with strstr_leftmost [OF h] h show ?thesis by simp
qed

lemma atoi_loop_digits:
  "\<lbrakk> \<forall>c \<in> set ds. 0x30 \<le> sint c \<and> sint c \<le> 0x39; \<not> (0x30 \<le> sint z \<and> sint z \<le> 0x39);
     foldl (\<lambda>x c. x * 10 + (sint c - 0x30)) x ds < 2 ^ 31; 0 \<le> x \<rbrakk> \<Longrightarrow>
    atoi_loop (ds @ z # rest) x = Some (foldl (\<lambda>x c. x * 10 + (sint c - 0x30)) x ds)"
proof (induction ds arbitrary: x)
  case Nil
  then show ?case by auto
next
  case (Cons c ds)
  let ?x = "x * 10 + (sint c - 0x30)"
  have mono: "y \<le> foldl (\<lambda>x c. x * 10 + (sint c - 0x30)) y ds" if "0 \<le> y" for y
    using that Cons.prems(1)
  proof (induction ds arbitrary: y)
    case Nil
    then show ?case by simp
  next
    case (Cons d ds)
    then have "0 \<le> y * 10 + (sint d - 0x30)" "y \<le> y * 10 + (sint d - 0x30)" by auto
    with Cons show ?case by fastforce
  qed
  have "0 \<le> ?x" using Cons.prems by auto
  with Cons mono [of ?x] show ?case by auto
qed

end
