(* ===== verification/Klog.thy ===== *)
theory Klog
  imports C_String
begin

text \<open>
  The kernel log of \<^verbatim>\<open>kernel/printk.c\<close>: a ring buffer of \<open>CONFIG_KLOG_BUF_SIZE\<close> characters
  written by \<^verbatim>\<open>printk\<close> and drained by \<^verbatim>\<open>klog_read\<close>. One slot stays unused, so equal indices
  mean empty.
\<close>

definition CONFIG_KLOG_BUF_SIZE :: nat where
  [kconst]: "CONFIG_KLOG_BUF_SIZE = 1024"

record klog =
  kl_buf :: "u8 list"
  kl_head :: nat
  kl_tail :: nat

definition klog_write :: "u8 \<Rightarrow> klog \<Rightarrow> klog" where
  "klog_write ch k =
     (let buf = (kl_buf k)[kl_head k := ch];
          head = (kl_head k + 1) mod CONFIG_KLOG_BUF_SIZE;
          tail = (if head = kl_tail k then (kl_tail k + 1) mod CONFIG_KLOG_BUF_SIZE else kl_tail k)
      in \<lparr>kl_buf = buf, kl_head = head, kl_tail = tail\<rparr>)"

text \<open>\<open>klog_read buf_len k\<close> is what the function writes to the caller's buffer (its length is the
  return value) and the new log.\<close>

definition klog_read :: "nat \<Rightarrow> klog \<Rightarrow> u8 list \<times> klog" where
  "klog_read buf_len k =
     (let (out1, remaining, tail) =
        (if kl_tail k > kl_head k then
           let copy_len = min buf_len (CONFIG_KLOG_BUF_SIZE - kl_tail k)
           in (take copy_len (drop (kl_tail k) (kl_buf k)), buf_len - copy_len, 0)
         else ([], buf_len, kl_tail k));
          copy_len = min remaining (kl_head k - tail)
      in (out1 @ take copy_len (drop tail (kl_buf k)),
          k\<lparr>kl_tail := (tail + copy_len) mod CONFIG_KLOG_BUF_SIZE\<rparr>))"

section \<open>The sequence the log holds\<close>

definition klog_inv :: "klog \<Rightarrow> bool" where
  "klog_inv k \<longleftrightarrow> length (kl_buf k) = CONFIG_KLOG_BUF_SIZE \<and>
     kl_head k < CONFIG_KLOG_BUF_SIZE \<and> kl_tail k < CONFIG_KLOG_BUF_SIZE"

definition klog_contents :: "klog \<Rightarrow> u8 list" where
  "klog_contents k =
     (if kl_tail k \<le> kl_head k then take (kl_head k - kl_tail k) (drop (kl_tail k) (kl_buf k))
      else drop (kl_tail k) (kl_buf k) @ take (kl_head k) (kl_buf k))"

lemma klog_write_inv: "klog_inv k \<Longrightarrow> klog_inv (klog_write ch k)"
  by (auto simp: klog_inv_def klog_write_def Let_def CONFIG_KLOG_BUF_SIZE_def)

lemma klog_read_inv: "klog_inv k \<Longrightarrow> klog_inv (snd (klog_read n k))"
  by (auto simp: klog_inv_def klog_read_def Let_def CONFIG_KLOG_BUF_SIZE_def)

lemma length_klog_contents:
  "klog_inv k \<Longrightarrow> length (klog_contents k) < CONFIG_KLOG_BUF_SIZE"
  by (auto simp: klog_inv_def klog_contents_def)

lemma take_update_snoc: "n < length xs \<Longrightarrow> take (Suc n) (xs[n := x]) = take n xs @ [x]"
  by (simp add: take_Suc_conv_app_nth)

lemma klog_write_step:
  assumes "length buf = N" "h < N" "t < N"
  defines "h' \<equiv> (h + 1) mod N"
  defines "c \<equiv> (if t \<le> h then take (h - t) (drop t buf) else drop t buf @ take h buf)"
  shows "h' \<noteq> t \<Longrightarrow>
    (if t \<le> h' then take (h' - t) (drop t (buf[h := ch])) else drop t (buf[h := ch]) @ take h' (buf[h := ch]))
      = c @ [ch]"
proof -
  assume ne: "h' \<noteq> t"
  show ?thesis
  proof (cases "h + 1 = N")
    case True
    then have "h' = 0" by (simp add: h'_def)
    with ne True assms show ?thesis
      by (auto simp: c_def drop_update_swap take_update_snoc)
         (metis One_nat_def Suc_diff_le length_drop length_list_update less_Suc_eq_le list_update_id
            take_all_iff take_update_snoc diff_less_mono lessI order_refl diff_Suc_Suc)
  next
    case False
    then have "h' = Suc h" using assms by (simp add: h'_def)
    with ne False assms show ?thesis
      by (auto simp: c_def drop_update_swap take_update_snoc Suc_diff_le)
  qed
qed

end
