(* ===== verification/X64_VM.thy ===== *)
theory X64_VM
  imports Prelude
begin

text \<open>
  The x64 memory management the kernel calls: the address predicates of
  \<^verbatim>\<open>kernel/arch/x64/arch.h\<close>, the page-table walk and the mapping operations of
  \<^verbatim>\<open>kernel/arch/x64/vm.c\<close>, and the page-table part of \<^verbatim>\<open>arch_task_create\<close> in
  \<^verbatim>\<open>kernel/arch/x64/task.c\<close>. Physical memory is read and written in 64-bit entries, so it is a
  function from the physical address of an entry to the entry. The addresses the linker
  assigns (the kernel image, its page table, the array of top-level tables) are the fields of
  a \<open>layout\<close>. Invalidating the translation cache has no effect on this state.
\<close>

type_synonym pmem = "u64 \<Rightarrow> u64"

record layout =
  kernel_image :: u64
  kernel_image_end :: u64
  kernel_pml4 :: u64
  pml4_tables :: u64

section \<open>Addresses\<close>

definition KERNEL_BASE_ADDR :: u64 where
  [kconst]: "KERNEL_BASE_ADDR = 0xffff800000000000"

definition is_kernel_addr_range :: "u64 \<Rightarrow> u64 \<Rightarrow> bool" where
  "is_kernel_addr_range base len \<longleftrightarrow>
     base + len < len \<or> base \<ge> KERNEL_BASE_ADDR \<or> base + len \<ge> KERNEL_BASE_ADDR"

definition is_kernel_paddr :: "layout \<Rightarrow> u64 \<Rightarrow> bool" where
  "is_kernel_paddr ly paddr \<longleftrightarrow> kernel_image ly \<le> paddr \<and> paddr \<le> kernel_image_end ly"

definition is_canonical_addr :: "u64 \<Rightarrow> bool" where
  "is_canonical_addr addr =
     (let mask = 0xffff800000000000; upper = addr AND mask in upper = 0 \<or> upper = mask)"

section \<open>Page tables\<close>

definition NTH_LEVEL_INDEX :: "nat \<Rightarrow> u64 \<Rightarrow> u64" where
  "NTH_LEVEL_INDEX level vaddr = drop_bit ((level - 1) * 9 + 12) vaddr AND 0x1ff"

definition ENTRY_PADDR :: "u64 \<Rightarrow> u64" where
  "ENTRY_PADDR entry = entry AND 0x7ffffffffffff000"

definition X64_PAGE_PRESENT :: u64 where
  [kconst]: "X64_PAGE_PRESENT = 1"

definition X64_PAGE_WRITABLE :: u64 where
  [kconst]: "X64_PAGE_WRITABLE = 2"

definition X64_PAGE_USER :: u64 where
  [kconst]: "X64_PAGE_USER = 4"

definition MAP_TYPE :: "u32 \<Rightarrow> u32" where
  "MAP_TYPE fl = fl AND 3"

definition MAP_TYPE_READONLY :: u32 where
  [kconst]: "MAP_TYPE_READONLY = 1"

definition MAP_TYPE_READWRITE :: u32 where
  [kconst]: "MAP_TYPE_READWRITE = 2"

definition clear_page :: "u64 \<Rightarrow> pmem \<Rightarrow> pmem" where
  "clear_page page pm = (\<lambda>a. if page \<le> a \<and> a - page < PAGE_SIZE then 0 else pm a)"

text \<open>\<open>table[index]\<close>: tables hold 512 entries of eight bytes.\<close>

definition entry_addr :: "u64 \<Rightarrow> nat \<Rightarrow> u64 \<Rightarrow> u64" where
  "entry_addr table level vaddr = table + 8 * NTH_LEVEL_INDEX level vaddr"

fun traverse_loop :: "nat \<Rightarrow> u64 \<Rightarrow> u64 \<Rightarrow> u64 \<Rightarrow> u64 \<Rightarrow> pmem \<Rightarrow> u64 option \<times> pmem" where
  "traverse_loop 0 table vaddr kpage attrs pm = (Some (entry_addr table 1 vaddr), pm)"
| "traverse_loop (Suc n) table vaddr kpage attrs pm =
     (let e = entry_addr table (n + 2) vaddr in
      if pm e = 0 then
        if attrs = 0 then (None, pm)
        else (None, (clear_page kpage pm)(e := kpage))
      else
        let pm = pm(e := pm e OR attrs) in
        traverse_loop n (ENTRY_PADDR (pm e)) vaddr kpage attrs pm)"

text \<open>The loop runs for levels 4, 3 and 2; \<open>traverse_loop n\<close> is entered at level \<open>n + 1\<close>.\<close>

definition traverse_page_table ::
  "u64 \<Rightarrow> u64 \<Rightarrow> u64 \<Rightarrow> u64 \<Rightarrow> pmem \<Rightarrow> (u64 option \<times> pmem) option" where
  "traverse_page_table pml4 vaddr kpage attrs pm =
     do {
       ASSERT (vaddr < KERNEL_BASE_ADDR);
       ASSERT (IS_ALIGNED vaddr PAGE_SIZE);
       ASSERT (IS_ALIGNED kpage PAGE_SIZE);
       Some (traverse_loop 3 pml4 vaddr kpage attrs pm)
     }"

definition map_attrs :: "u32 \<Rightarrow> u64" where
  "map_attrs fl =
     (if MAP_TYPE fl = MAP_TYPE_READWRITE
      then X64_PAGE_PRESENT OR X64_PAGE_USER OR X64_PAGE_WRITABLE
      else X64_PAGE_PRESENT OR X64_PAGE_USER)"

definition arch_vm_map ::
  "u64 \<Rightarrow> u64 \<Rightarrow> u64 \<Rightarrow> u64 \<Rightarrow> u32 \<Rightarrow> pmem \<Rightarrow> (error_t \<times> pmem) option" where
  "arch_vm_map pml4 vaddr paddr kpage fl pm =
     do {
       ASSERT (IS_ALIGNED paddr PAGE_SIZE);
       let attrs = map_attrs fl;
       (entry, pm) \<leftarrow> traverse_page_table pml4 vaddr kpage attrs pm;
       Some (case entry of
          None \<Rightarrow> (if kpage \<noteq> 0 then ERR_TRY_AGAIN else ERR_EMPTY, pm)
        | Some e \<Rightarrow> (OK, pm(e := paddr OR attrs)))
     }"

definition arch_vm_unmap :: "u64 \<Rightarrow> u64 \<Rightarrow> pmem \<Rightarrow> (error_t \<times> pmem) option" where
  "arch_vm_unmap pml4 vaddr pm =
     do {
       (entry, pm) \<leftarrow> traverse_page_table pml4 vaddr 0 0 pm;
       Some (case entry of None \<Rightarrow> (ERR_NOT_FOUND, pm) | Some e \<Rightarrow> (OK, pm(e := 0)))
     }"

definition vm_resolve :: "u64 \<Rightarrow> u64 \<Rightarrow> pmem \<Rightarrow> (u64 \<times> pmem) option" where
  "vm_resolve pml4 vaddr pm =
     do {
       (entry, pm) \<leftarrow> traverse_page_table pml4 vaddr 0 0 pm;
       Some (case entry of None \<Rightarrow> (0, pm) | Some e \<Rightarrow> (ENTRY_PADDR (pm e), pm))
     }"

section \<open>Creating a task's page table\<close>

text \<open>
  \<open>pml4_tables\<close> has one table per task identifier below \<open>num_tasks\<close>; the code indexes it, and
  the stacks beside it, with the identifier itself. Only the effect on the page table is
  modelled: a copy of the kernel's table with the lowest entry cleared.
\<close>

definition task_pml4 :: "layout \<Rightarrow> int \<Rightarrow> u64" where
  "task_pml4 ly tid = pml4_tables ly + word_of_int tid * PAGE_SIZE"

definition arch_task_create :: "layout \<Rightarrow> int \<Rightarrow> int \<Rightarrow> u64 \<Rightarrow> pmem \<Rightarrow> (error_t \<times> pmem) option" where
  "arch_task_create ly num_tasks tid ip pm =
     (if \<not> is_canonical_addr ip then Some (ERR_INVALID_ARG, pm)
      else do {
        ASSERT (0 \<le> tid \<and> tid < num_tasks);
        let table = task_pml4 ly tid;
        let pm = (\<lambda>a. if table \<le> a \<and> a - table < PAGE_SIZE
                      then pm (kernel_pml4 ly + (a - table)) else pm a);
        Some (OK, pm(table := 0))
      })"

end
