(* ===== verification/Kernel_State.thy ===== *)
theory Kernel_State
  imports Bitmap C_String Klog X64_VM
begin

text \<open>
  The data of the kernel: the task control block of \<^verbatim>\<open>kernel/task.h\<close>, messages, the run queues
  and IRQ table of \<^verbatim>\<open>kernel/task.c\<close>, and the constants they use. The default configuration of
  \<^verbatim>\<open>kernel/Kconfig\<close> on x64 is modelled: one CPU (the kernel refuses to schedule on a second
  one), no ABI emulation, no hypervisor, the IPC fast path enabled.

  A \<^verbatim>\<open>struct task *\<close> is named by the task's identifier, which \<^verbatim>\<open>task_init\<close> fixes for ever:
  \<open>1 .. CONFIG_NUM_TASKS\<close> for \<^verbatim>\<open>tasks[tid - 1]\<close>, and 0 for the idle task. A queue that is an
  intrusive list in the code is the sequence it holds (theory \<open>Intrusive_List\<close>).

  The kernel is single-threaded but its code blocks: \<^verbatim>\<open>task_switch\<close> leaves a task in the
  middle of a C function and continues another one. What a task still has to do when it is
  switched to again is recorded as a value of type \<open>kcont\<close>, one constructor per call of
  \<^verbatim>\<open>task_switch\<close> that can leave a task suspended.
\<close>

section \<open>Constants\<close>

definition CONFIG_NUM_TASKS :: int where
  [kconst]: "CONFIG_NUM_TASKS = 64"

definition CONFIG_TASK_NAME_LEN :: nat where
  [kconst]: "CONFIG_TASK_NAME_LEN = 16"

definition TASK_TIME_SLICE :: int where
  [kconst]: "TASK_TIME_SLICE = (10 * 1000) div 1000"

definition TASK_PRIORITY_MAX :: nat where
  [kconst]: "TASK_PRIORITY_MAX = 8"

definition IRQ_MAX :: nat where
  [kconst]: "IRQ_MAX = 256"

definition IDLE_TASK :: task_t where
  [kconst]: "IDLE_TASK = 0"

definition KERNEL_TASK :: task_t where
  [kconst]: "KERNEL_TASK = 0"

definition INIT_TASK :: task_t where
  [kconst]: "INIT_TASK = 1"

definition IPC_ANY :: task_t where
  [kconst]: "IPC_ANY = 0"

definition IPC_DENY :: task_t where
  [kconst]: "IPC_DENY = -1"

definition IPC_SEND :: u32 where [kconst]: "IPC_SEND = 1"
definition IPC_RECV :: u32 where [kconst]: "IPC_RECV = 2"
definition IPC_CALL :: u32 where [kconst]: "IPC_CALL = 3"
definition IPC_NOBLOCK :: u32 where [kconst]: "IPC_NOBLOCK = 4"
definition IPC_KERNEL :: u32 where [kconst]: "IPC_KERNEL = 8"

definition TASK_ALL_CAPS :: u32 where [kconst]: "TASK_ALL_CAPS = 1"
definition TASK_ABI_EMU :: u32 where [kconst]: "TASK_ABI_EMU = 2"
definition TASK_SCHED :: u32 where [kconst]: "TASK_SCHED = 4"
definition TASK_HV :: u32 where [kconst]: "TASK_HV = 8"

definition NOTIFY_TIMER :: u8 where [kconst]: "NOTIFY_TIMER = 1"
definition NOTIFY_IRQ :: u8 where [kconst]: "NOTIFY_IRQ = 2"
definition NOTIFY_ABORTED :: u8 where [kconst]: "NOTIFY_ABORTED = 4"
definition NOTIFY_ASYNC :: u8 where [kconst]: "NOTIFY_ASYNC = 8"

definition CAP_TASK :: nat where [kconst]: "CAP_TASK = 0"
definition CAP_IRQ :: nat where [kconst]: "CAP_IRQ = 1"
definition CAP_IO :: nat where [kconst]: "CAP_IO = 2"
definition CAP_MAP :: nat where [kconst]: "CAP_MAP = 3"
definition CAP_KDEBUG :: nat where [kconst]: "CAP_KDEBUG = 4"
definition CAP_MAX :: nat where [kconst]: "CAP_MAX = 4"

definition MESSAGE_SIZE :: u64 where [kconst]: "MESSAGE_SIZE = 256"

section \<open>Messages\<close>

datatype exception_type =
    EXP_GRACE_EXIT
  | EXP_INVALID_MSG_FROM_PAGER
  | EXP_INVALID_MEMORY_ACCESS
  | EXP_INVALID_OP
  | EXP_ABORTED_KERNEL_IPC
  | EXP_HV_UNIMPLEMENTED
  | EXP_HV_CRASHED
  | EXP_HV_INVALID_STATE

text \<open>
  The message types the kernel itself constructs or tests; their numbers are generated from
  the interface definition. A negative type is an error, every other type is \<open>USER_MSG\<close>.
\<close>

datatype msg_type =
    ERROR_MSG error_t
  | NOTIFICATIONS_MSG
  | EXCEPTION_MSG
  | PAGE_FAULT_MSG
  | PAGE_FAULT_REPLY_MSG
  | USER_MSG nat

text \<open>The union of a message: the layouts the kernel writes, and uninterpreted bytes.\<close>

datatype msg_body =
    Raw "u8 list"
  | Notifications_data u8
  | Exception_data task_t exception_type
  | Page_fault_data task_t u64 u64 u32

record message =
  m_type :: msg_type
  m_src :: task_t
  m_body :: msg_body

section \<open>Tasks\<close>

datatype task_state = TASK_UNUSED | TASK_RUNNABLE | TASK_BLOCKED

text \<open>\<open>t_ref_count\<close> is an \<^verbatim>\<open>unsigned\<close>: its wrap-around is written out where it changes.\<close>

record task =
  t_state :: task_state
  t_name :: cbuf
  t_flags :: u32
  t_ref_count :: nat
  t_pager :: "task_t option"
  t_quantum :: int
  t_priority :: int
  t_m :: message
  t_src :: task_t
  t_notifications :: u8
  t_timeout :: int
  t_senders :: "task_t list"
  t_caps :: "u8 list"

definition CAPABLE :: "task \<Rightarrow> nat \<Rightarrow> bool option" where
  "CAPABLE task cap = map_option (\<lambda>v. v \<noteq> 0) (bitmap_get (t_caps task) (BITMAP_SIZE CAP_MAX) cap)"

text \<open>
  The \<open>m\<close> argument of the IPC functions: an address of the current task's memory, or a message
  on the kernel stack. The kernel code that called \<open>ipc\<close> decides what happens when it returns.
\<close>

datatype msgbuf = Umsg u64 | Kmsg message

datatype ipc_caller = By_Syscall | By_Page_Fault | By_Exit

text \<open>
  What a task has left to do in the kernel: nothing (it is in user mode, at the end of an
  interrupt handler, or running), or it is suspended in the send phase of \<open>ipc_slowpath dst src m flags\<close> with the message already read,
  in its receive phase, in the fast path, or in \<open>task_exit\<close>.
\<close>

datatype kcont =
    In_User
  | Send_Blocked task_t task_t msgbuf u32 message ipc_caller
  | Recv_Blocked msgbuf u32 ipc_caller
  | Fastpath_Blocked u64
  | Exited

section \<open>The kernel\<close>

text \<open>
  \<open>k_umem t a\<close> is the message stored at address \<open>a\<close> of task \<open>t\<close>, and \<open>k_ubytes t\<close> its memory
  seen as bytes: message buffers and character buffers of a task are kept apart, as the
  objects of two C types. \<open>k_uret t\<close> is what the last system call of \<open>t\<close> returned,
  \<open>k_irq_enabled\<close> the mask of the interrupt controller, \<open>k_console\<close> what has been
  sent to the serial port and \<open>k_input\<close> what it has received.
\<close>

record kernel =
  k_tasks :: "task_t \<Rightarrow> task"
  k_runqueues :: "nat \<Rightarrow> task_t list"
  k_irq_owners :: "nat \<Rightarrow> task_t option"
  k_irq_enabled :: "nat \<Rightarrow> bool"
  k_current :: task_t
  k_conts :: "task_t \<Rightarrow> kcont"
  k_umem :: "task_t \<Rightarrow> u64 \<Rightarrow> message"
  k_ubytes :: "task_t \<Rightarrow> u64 \<Rightarrow> u8"
  k_uret :: "task_t \<Rightarrow> int"
  k_pmem :: pmem
  k_console :: "u8 list"
  k_klog :: klog
  k_input :: "u8 list"

definition upd_task :: "task_t \<Rightarrow> (task \<Rightarrow> task) \<Rightarrow> kernel \<Rightarrow> kernel" where
  "upd_task t f s = s\<lparr>k_tasks := (k_tasks s)(t := f (k_tasks s t))\<rparr>"

definition set_cont :: "task_t \<Rightarrow> kcont \<Rightarrow> kernel \<Rightarrow> kernel" where
  "set_cont t c s = s\<lparr>k_conts := (k_conts s)(t := c)\<rparr>"

lemma upd_task_sel [simp]:
  "k_tasks (upd_task t f s) = (k_tasks s)(t := f (k_tasks s t))"
  "k_runqueues (upd_task t f s) = k_runqueues s"
  "k_irq_owners (upd_task t f s) = k_irq_owners s"
  "k_irq_enabled (upd_task t f s) = k_irq_enabled s"
  "k_current (upd_task t f s) = k_current s"
  "k_conts (upd_task t f s) = k_conts s"
  "k_umem (upd_task t f s) = k_umem s"
  "k_ubytes (upd_task t f s) = k_ubytes s"
  "k_uret (upd_task t f s) = k_uret s"
  "k_pmem (upd_task t f s) = k_pmem s"
  "k_console (upd_task t f s) = k_console s"
  "k_klog (upd_task t f s) = k_klog s"
  "k_input (upd_task t f s) = k_input s"
  by (simp_all add: upd_task_def)

lemma set_cont_sel [simp]:
  "k_tasks (set_cont t c s) = k_tasks s"
  "k_runqueues (set_cont t c s) = k_runqueues s"
  "k_irq_owners (set_cont t c s) = k_irq_owners s"
  "k_irq_enabled (set_cont t c s) = k_irq_enabled s"
  "k_current (set_cont t c s) = k_current s"
  "k_conts (set_cont t c s) = (k_conts s)(t := c)"
  "k_umem (set_cont t c s) = k_umem s"
  "k_ubytes (set_cont t c s) = k_ubytes s"
  "k_uret (set_cont t c s) = k_uret s"
  "k_pmem (set_cont t c s) = k_pmem s"
  "k_console (set_cont t c s) = k_console s"
  "k_klog (set_cont t c s) = k_klog s"
  "k_input (set_cont t c s) = k_input s"
  by (simp_all add: set_cont_def)

abbreviation st :: "kernel \<Rightarrow> task_t \<Rightarrow> task_state" where
  "st s t \<equiv> t_state (k_tasks s t)"

abbreviation srcof :: "kernel \<Rightarrow> task_t \<Rightarrow> task_t" where
  "srcof s t \<equiv> t_src (k_tasks s t)"

abbreviation sendersof :: "kernel \<Rightarrow> task_t \<Rightarrow> task_t list" where
  "sendersof s t \<equiv> t_senders (k_tasks s t)"

end
