(* ===== verification/Kernel_Task.thy ===== *)
theory Kernel_Task
  imports Kernel_State
begin

text \<open>
  \<^verbatim>\<open>kernel/task.c\<close>, the operations that neither block nor send: looking tasks up, creating
  them, resuming and suspending them, the scheduler and the context switch, IRQ ownership.
\<close>

section \<open>Looking tasks up\<close>

definition task_lookup_unchecked :: "task_t \<Rightarrow> task_t option" where
  "task_lookup_unchecked tid = (if tid \<le> 0 \<or> tid > CONFIG_NUM_TASKS then None else Some tid)"

definition task_lookup :: "task_t \<Rightarrow> kernel \<Rightarrow> task_t option" where
  "task_lookup tid s =
     (case task_lookup_unchecked tid of
        None \<Rightarrow> None
      | Some t \<Rightarrow> if st s t = TASK_UNUSED then None else Some t)"

section \<open>Run queues\<close>

text \<open>\<open>runqueues\<close> has \<open>TASK_PRIORITY_MAX\<close> elements: an index outside is a fault, and so is
  pushing a task onto a queue it is already in.\<close>

definition enqueue_task :: "task_t \<Rightarrow> kernel \<Rightarrow> kernel option" where
  "enqueue_task t s =
     (let p = t_priority (k_tasks s t) in
      do {
        ASSERT (0 \<le> p \<and> p < int TASK_PRIORITY_MAX);
        ASSERT (t \<notin> set (k_runqueues s (nat p)));
        Some (s\<lparr>k_runqueues := (k_runqueues s)(nat p := k_runqueues s (nat p) @ [t])\<rparr>)
      })"

text \<open>\<^verbatim>\<open>list_remove(&task->runqueue_next)\<close> and \<^verbatim>\<open>list_remove(&task->sender_next)\<close>: the task
  leaves whichever queue it is linked in.\<close>

definition unlink_runqueue :: "task_t \<Rightarrow> kernel \<Rightarrow> kernel" where
  "unlink_runqueue t s = s\<lparr>k_runqueues := (\<lambda>i. remove1 t (k_runqueues s i))\<rparr>"

definition unlink_sender :: "task_t \<Rightarrow> kernel \<Rightarrow> kernel" where
  "unlink_sender t s =
     s\<lparr>k_tasks := (\<lambda>d. (k_tasks s d)\<lparr>t_senders := remove1 t (t_senders (k_tasks s d))\<rparr>)\<rparr>"

definition task_block :: "task_t \<Rightarrow> kernel \<Rightarrow> kernel option" where
  "task_block t s =
     do {
       ASSERT (st s t = TASK_RUNNABLE);
       Some (upd_task t (\<lambda>k. k\<lparr>t_state := TASK_BLOCKED\<rparr>) s)
     }"

text \<open>\<^verbatim>\<open>mp_reschedule\<close> interrupts the other CPUs; there is none.\<close>

definition task_resume :: "task_t \<Rightarrow> kernel \<Rightarrow> kernel option" where
  "task_resume t s =
     do {
       ASSERT (st s t = TASK_BLOCKED);
       enqueue_task t (upd_task t (\<lambda>k. k\<lparr>t_state := TASK_RUNNABLE\<rparr>) s)
     }"

definition task_schedule :: "task_t \<Rightarrow> int \<Rightarrow> kernel \<Rightarrow> (error_t \<times> kernel) option" where
  "task_schedule t priority s =
     (if priority \<ge> int TASK_PRIORITY_MAX then Some (ERR_INVALID_ARG, s)
      else
        let s = upd_task t (\<lambda>k. k\<lparr>t_priority := priority\<rparr>) s in
        if st s t = TASK_RUNNABLE
        then do {
          s \<leftarrow> enqueue_task t (unlink_runqueue t s);
          Some (OK, s)
        }
        else Some (OK, s))"

fun sched_loop :: "nat list \<Rightarrow> kernel \<Rightarrow> task_t \<times> kernel" where
  "sched_loop [] s = (IDLE_TASK, s)"
| "sched_loop (i # is) s =
     (case k_runqueues s i of
        [] \<Rightarrow> sched_loop is s
      | next # rest \<Rightarrow> (next, s\<lparr>k_runqueues := (k_runqueues s)(i := rest)\<rparr>))"

definition scheduler :: "task_t \<Rightarrow> kernel \<Rightarrow> (task_t \<times> kernel) option" where
  "scheduler current s =
     do {
       s \<leftarrow> (if current \<noteq> IDLE_TASK \<and> st s current = TASK_RUNNABLE
             then enqueue_task current s else Some s);
       Some (sched_loop [0..<TASK_PRIORITY_MAX] s)
     }"

text \<open>When \<open>next = prev\<close> the C function returns to its caller at once; here the task stays
  current, with the continuation it recorded still to be run.\<close>

definition task_switch :: "kernel \<Rightarrow> kernel option" where
  "task_switch s =
     do {
       (next, s) \<leftarrow> scheduler (k_current s) s;
       let s = upd_task next (\<lambda>k. k\<lparr>t_quantum := TASK_TIME_SLICE\<rparr>) s;
       Some (s\<lparr>k_current := next\<rparr>)
     }"

section \<open>Creating tasks\<close>

definition allowed_flags :: u32 where
  "allowed_flags = TASK_ALL_CAPS OR TASK_ABI_EMU OR TASK_HV"

definition task_create ::
  "layout \<Rightarrow> task_t \<Rightarrow> cbuf \<Rightarrow> u64 \<Rightarrow> task_t option \<Rightarrow> u32 \<Rightarrow> kernel \<Rightarrow> (error_t \<times> kernel) option" where
  "task_create ly t name ip pager flags s =
     (if st s t \<noteq> TASK_UNUSED then Some (ERR_ALREADY_EXISTS, s)
      else if flags AND NOT allowed_flags \<noteq> 0 then Some (ERR_INVALID_ARG, s)
      else if flags AND TASK_ABI_EMU \<noteq> 0 then Some (ERR_UNAVAILABLE, s)
      else if flags AND TASK_HV \<noteq> 0 then Some (ERR_UNAVAILABLE, s)
      else do {
        (err, pm) \<leftarrow> arch_task_create ly CONFIG_NUM_TASKS t ip (k_pmem s);
        if err \<noteq> OK then Some (err, s)
        else do {
          caps \<leftarrow> bitmap_fill (t_caps (k_tasks s t)) (BITMAP_SIZE CAP_MAX) (flags AND TASK_ALL_CAPS \<noteq> 0);
          nm \<leftarrow> strncpy2 (t_name (k_tasks s t)) name CONFIG_TASK_NAME_LEN;
          let s = set_cont t In_User (s\<lparr>k_pmem := pm\<rparr>);
          let s = upd_task t (\<lambda>k. k\<lparr>
            t_state := TASK_BLOCKED, t_flags := flags, t_notifications := 0, t_pager := pager,
            t_src := IPC_DENY, t_timeout := 0, t_quantum := 0,
            t_priority := int TASK_PRIORITY_MAX - 1, t_ref_count := 0, t_caps := caps,
            t_name := nm, t_senders := []\<rparr>) s;
          let s = (case pager of
              None \<Rightarrow> s
            | Some p \<Rightarrow> upd_task p (\<lambda>k. k\<lparr>t_ref_count := (t_ref_count k + 1) mod 2 ^ 32\<rparr>) s);
          s \<leftarrow> (if t \<noteq> IDLE_TASK \<and> flags AND TASK_SCHED = 0 then task_resume t s else Some s);
          Some (OK, s)
        }
      })"

section \<open>Interrupt ownership\<close>

definition arch_enable_irq :: "nat \<Rightarrow> kernel \<Rightarrow> kernel option" where
  "arch_enable_irq irq s =
     do { ASSERT (irq \<le> 255); Some (s\<lparr>k_irq_enabled := (k_irq_enabled s)(irq := True)\<rparr>) }"

definition arch_disable_irq :: "nat \<Rightarrow> kernel \<Rightarrow> kernel option" where
  "arch_disable_irq irq s =
     do { ASSERT (irq \<le> 255); Some (s\<lparr>k_irq_enabled := (k_irq_enabled s)(irq := False)\<rparr>) }"

definition task_listen_irq :: "task_t \<Rightarrow> nat \<Rightarrow> kernel \<Rightarrow> (error_t \<times> kernel) option" where
  "task_listen_irq t irq s =
     (if irq \<ge> IRQ_MAX then Some (ERR_INVALID_ARG, s)
      else if k_irq_owners s irq \<noteq> None then Some (ERR_ALREADY_EXISTS, s)
      else do {
        s \<leftarrow> arch_enable_irq irq (s\<lparr>k_irq_owners := (k_irq_owners s)(irq := Some t)\<rparr>);
        Some (OK, s)
      })"

definition task_unlisten_irq :: "nat \<Rightarrow> kernel \<Rightarrow> (error_t \<times> kernel) option" where
  "task_unlisten_irq irq s =
     (if irq \<ge> IRQ_MAX then Some (ERR_INVALID_ARG, s)
      else do {
        s \<leftarrow> arch_disable_irq irq s;
        Some (OK, s\<lparr>k_irq_owners := (k_irq_owners s)(irq := None)\<rparr>)
      })"

text \<open>The zeroed static data, and \<^verbatim>\<open>task_init\<close>.\<close>

definition zero_message :: message where
  "zero_message = \<lparr>m_type = ERROR_MSG OK, m_src = 0, m_body = Raw []\<rparr>"

definition zero_task :: task where
  "zero_task = \<lparr>t_state = TASK_UNUSED, t_name = replicate CONFIG_TASK_NAME_LEN 0, t_flags = 0,
    t_ref_count = 0, t_pager = None, t_quantum = 0, t_priority = 0, t_m = zero_message, t_src = 0,
    t_notifications = 0, t_timeout = 0, t_senders = [], t_caps = replicate (BITMAP_SIZE CAP_MAX) 0\<rparr>"

definition zero_kernel :: "pmem \<Rightarrow> (task_t \<Rightarrow> u64 \<Rightarrow> message) \<Rightarrow> (task_t \<Rightarrow> u64 \<Rightarrow> u8) \<Rightarrow> kernel" where
  "zero_kernel pm um ub = \<lparr>k_tasks = (\<lambda>_. zero_task), k_runqueues = (\<lambda>_. []), k_irq_owners = (\<lambda>_. None),
    k_irq_enabled = (\<lambda>_. False), k_current = IDLE_TASK, k_conts = (\<lambda>_. In_User), k_umem = um,
    k_ubytes = ub, k_uret = (\<lambda>_. 0), k_pmem = pm, k_console = [],
    k_klog = \<lparr>kl_buf = replicate CONFIG_KLOG_BUF_SIZE 0, kl_head = 0, kl_tail = 0\<rparr>, k_input = []\<rparr>"

definition task_init :: "kernel \<Rightarrow> kernel" where
  "task_init s = s\<lparr>
     k_runqueues := (\<lambda>i. if i < TASK_PRIORITY_MAX then [] else k_runqueues s i),
     k_tasks := (\<lambda>t. if 1 \<le> t \<and> t \<le> CONFIG_NUM_TASKS
                     then (k_tasks s t)\<lparr>t_state := TASK_UNUSED\<rparr> else k_tasks s t),
     k_irq_owners := (\<lambda>i. if i < IRQ_MAX then None else k_irq_owners s i)\<rparr>"

end
