(* ===== verification/Kernel_IPC.thy ===== *)
theory Kernel_IPC
  imports Kernel_Task
begin

text \<open>
  \<^verbatim>\<open>kernel/ipc.c\<close> and the operations of \<^verbatim>\<open>kernel/task.c\<close> that use it: sending, receiving and
  notifying, destroying and exiting tasks, and the interrupt and page-fault handlers.

  A function that may block returns an \<open>outcome\<close>. \<open>Return\<close> carries its error value and its
  message buffer; \<open>Switched\<close> means that it called \<^verbatim>\<open>task_switch\<close> with the rest of its body
  recorded as the continuation of the task; \<open>Exit\<close> means that it called the function
  \<^verbatim>\<open>task_exit\<close>, which does not return. \<open>kresume\<close> runs the continuation of the task that is
  current after a switch.
\<close>

datatype outcome = Return error_t msgbuf | Switched | Exit exception_type

section \<open>Copying messages\<close>

text \<open>\<^verbatim>\<open>memcpy_from_user\<close> and \<^verbatim>\<open>memcpy_to_user\<close> for a whole message: an address in the kernel's
  half makes the current task exit.\<close>

definition memcpy_from_user :: "u64 \<Rightarrow> kernel \<Rightarrow> exception_type + message" where
  "memcpy_from_user src s =
     (if is_kernel_addr_range src MESSAGE_SIZE then Inl EXP_INVALID_MEMORY_ACCESS
      else Inr (k_umem s (k_current s) src))"

definition memcpy_to_user :: "u64 \<Rightarrow> message \<Rightarrow> kernel \<Rightarrow> exception_type + kernel" where
  "memcpy_to_user dst m s =
     (if is_kernel_addr_range dst MESSAGE_SIZE then Inl EXP_INVALID_MEMORY_ACCESS
      else Inr (s\<lparr>k_umem := (k_umem s)(k_current s := (k_umem s (k_current s))(dst := m))\<rparr>))"

text \<open>The choice both phases of the slow path make on \<open>IPC_KERNEL\<close>. A kernel message read as a
  user address, or the reverse, has no meaning.\<close>

definition copy_in :: "msgbuf \<Rightarrow> u32 \<Rightarrow> kernel \<Rightarrow> (exception_type + message) option" where
  "copy_in buf flags s =
     (if flags AND IPC_KERNEL \<noteq> 0
      then (case buf of Kmsg m \<Rightarrow> Some (Inr m) | Umsg _ \<Rightarrow> None)
      else (case buf of Umsg p \<Rightarrow> Some (memcpy_from_user p s) | Kmsg _ \<Rightarrow> None))"

definition copy_out :: "msgbuf \<Rightarrow> u32 \<Rightarrow> message \<Rightarrow> kernel \<Rightarrow> (outcome \<times> kernel) option" where
  "copy_out buf flags m s =
     (if flags AND IPC_KERNEL \<noteq> 0
      then (case buf of Kmsg _ \<Rightarrow> Some (Return OK (Kmsg m), s) | Umsg _ \<Rightarrow> None)
      else (case buf of
              Umsg p \<Rightarrow> (case memcpy_to_user p m s of
                           Inl e \<Rightarrow> Some (Exit e, s)
                         | Inr s \<Rightarrow> Some (Return OK buf, s))
            | Kmsg _ \<Rightarrow> None))"

section \<open>Sending and receiving\<close>

definition receiver_is_ready :: "task_t \<Rightarrow> kernel \<Rightarrow> bool" where
  "receiver_is_ready dst s \<longleftrightarrow>
     st s dst = TASK_BLOCKED \<and> (srcof s dst = IPC_ANY \<or> srcof s dst = k_current s)"

definition resume_sender :: "task_t \<Rightarrow> task_t \<Rightarrow> kernel \<Rightarrow> kernel option" where
  "resume_sender receiver src s =
     (case find (\<lambda>sender. src = IPC_ANY \<or> src = sender) (sendersof s receiver) of
        Some sender \<Rightarrow>
          do {
            ASSERT (st s sender = TASK_BLOCKED);
            ASSERT (srcof s sender = IPC_DENY);
            s \<leftarrow> task_resume sender s;
            Some (upd_task receiver (\<lambda>k. k\<lparr>t_src := sender\<rparr>) (unlink_sender sender s))
          }
      | None \<Rightarrow> Some (upd_task receiver (\<lambda>k. k\<lparr>t_src := src\<rparr>) s))"

text \<open>Copying the message into the receiver and waking it up (the end of the send phase).\<close>

definition deliver :: "task_t \<Rightarrow> message \<Rightarrow> u32 \<Rightarrow> kernel \<Rightarrow> kernel option" where
  "deliver dst tmp_m flags s =
     (let tmp_m = tmp_m\<lparr>m_src := if flags AND IPC_KERNEL \<noteq> 0 then KERNEL_TASK else k_current s\<rparr>
      in task_resume dst (upd_task dst (\<lambda>k. k\<lparr>t_m := tmp_m\<rparr>) s))"

definition wait_message :: "task_t \<Rightarrow> kcont \<Rightarrow> kernel \<Rightarrow> kernel option" where
  "wait_message src c s =
     do {
       s \<leftarrow> resume_sender (k_current s) src s;
       s \<leftarrow> task_block (k_current s) s;
       task_switch (set_cont (k_current s) c s)
     }"

text \<open>Sleeping in the queue of a receiver that is not ready.\<close>

definition wait_receiver :: "task_t \<Rightarrow> kcont \<Rightarrow> kernel \<Rightarrow> kernel option" where
  "wait_receiver dst c s =
     (let cur = k_current s in
      do {
        s \<leftarrow> task_block cur (upd_task cur (\<lambda>k. k\<lparr>t_src := IPC_DENY\<rparr>) s);
        ASSERT (cur \<notin> set (sendersof s dst));
        let s = upd_task dst (\<lambda>k. k\<lparr>t_senders := t_senders k @ [cur]\<rparr>) s;
        task_switch (set_cont cur c s)
      })"

definition notifications_message :: "u8 \<Rightarrow> message" where
  "notifications_message n =
     \<lparr>m_type = NOTIFICATIONS_MSG, m_src = KERNEL_TASK, m_body = Notifications_data n\<rparr>"

definition ipc_recv ::
  "task_t \<Rightarrow> msgbuf \<Rightarrow> u32 \<Rightarrow> ipc_caller \<Rightarrow> kernel \<Rightarrow> (outcome \<times> kernel) option" where
  "ipc_recv src buf flags caller s =
     (if flags AND IPC_RECV = 0 then Some (Return OK buf, s)
      else
        let cur = k_current s; pending = t_notifications (k_tasks s cur) in
        if src = IPC_ANY \<and> pending \<noteq> 0
        then copy_out buf flags (notifications_message pending)
               (upd_task cur (\<lambda>k. k\<lparr>t_notifications := 0\<rparr>) s)
        else if flags AND IPC_NOBLOCK \<noteq> 0 then Some (Return ERR_WOULD_BLOCK buf, s)
        else do {
          s \<leftarrow> wait_message src (Recv_Blocked buf flags caller) s;
          Some (Switched, s)
        })"

definition ipc_slowpath ::
  "task_t option \<Rightarrow> task_t \<Rightarrow> msgbuf \<Rightarrow> u32 \<Rightarrow> ipc_caller \<Rightarrow> kernel \<Rightarrow> (outcome \<times> kernel) option" where
  "ipc_slowpath dst src buf flags caller s =
     (if flags AND IPC_SEND = 0 then ipc_recv src buf flags caller s
      else do {
        r \<leftarrow> copy_in buf flags s;
        case r of
          Inl e \<Rightarrow> Some (Exit e, s)
        | Inr tmp_m \<Rightarrow>
            do {
              d \<leftarrow> dst;
              if receiver_is_ready d s
              then do {
                s \<leftarrow> deliver d tmp_m flags s;
                ipc_recv src buf flags caller s
              }
              else if flags AND IPC_NOBLOCK \<noteq> 0 then Some (Return ERR_WOULD_BLOCK buf, s)
              else do {
                s \<leftarrow> wait_receiver d (Send_Blocked d src buf flags tmp_m caller) s;
                Some (Switched, s)
              }
            }
      })"

text \<open>The fast path is entered with a user message: kernel callers set \<open>IPC_KERNEL\<close>, which the
  test on the flags excludes.\<close>

definition fastpath :: "task_t option \<Rightarrow> u32 \<Rightarrow> kernel \<Rightarrow> bool" where
  "fastpath dst flags s \<longleftrightarrow>
     flags AND NOT IPC_NOBLOCK = IPC_CALL \<and>
     (case dst of None \<Rightarrow> False | Some d \<Rightarrow> receiver_is_ready d s) \<and>
     t_notifications (k_tasks s (k_current s)) = 0"

definition ipc ::
  "task_t option \<Rightarrow> task_t \<Rightarrow> msgbuf \<Rightarrow> u32 \<Rightarrow> ipc_caller \<Rightarrow> kernel \<Rightarrow> (outcome \<times> kernel) option" where
  "ipc dst src buf flags caller s =
     (if dst = Some (k_current s) then Some (Return ERR_INVALID_ARG buf, s)
      else do {
        ASSERT (flags AND IPC_SEND = 0 \<or> dst \<noteq> None);
        if \<not> fastpath dst flags s then ipc_slowpath dst src buf flags caller s
        else (case buf of
            Kmsg _ \<Rightarrow> None
          | Umsg p \<Rightarrow>
              (case memcpy_from_user p s of
                 Inl e \<Rightarrow> Some (Exit e, s)
               | Inr m \<Rightarrow>
                   do {
                     d \<leftarrow> dst;
                     let s = upd_task d (\<lambda>k. k\<lparr>t_m := m\<lparr>m_src := k_current s\<rparr>\<rparr>) s;
                     s \<leftarrow> task_resume d s;
                     s \<leftarrow> wait_message src (Fastpath_Blocked p) s;
                     Some (Switched, s)
                   }))
      })"

definition notify :: "task_t \<Rightarrow> u8 \<Rightarrow> kernel \<Rightarrow> kernel option" where
  "notify dst notifications s =
     (if st s dst = TASK_BLOCKED \<and> srcof s dst = IPC_ANY
      then task_resume dst
             (upd_task dst (\<lambda>k. k\<lparr>
                t_m := (t_m k)\<lparr>m_type := NOTIFICATIONS_MSG, m_src := KERNEL_TASK,
                         m_body := Notifications_data (t_notifications k OR notifications)\<rparr>,
                t_notifications := 0\<rparr>) s)
      else Some (upd_task dst (\<lambda>k. k\<lparr>t_notifications := t_notifications k OR notifications\<rparr>) s))"

section \<open>Destroying and exiting\<close>

text \<open>The loop of \<^verbatim>\<open>task_destroy\<close> over the senders of the task; \<^verbatim>\<open>LIST_FOR_EACH\<close> visits
  every element although each is unlinked while it is visited.\<close>

primrec abort_senders :: "task_t list \<Rightarrow> kernel \<Rightarrow> kernel option" where
  "abort_senders [] s = Some s"
| "abort_senders (sender # rest) s =
     do {
       s \<leftarrow> notify sender NOTIFY_ABORTED s;
       abort_senders rest (unlink_sender sender s)
     }"

primrec release_irqs :: "task_t \<Rightarrow> nat list \<Rightarrow> kernel \<Rightarrow> kernel option" where
  "release_irqs t [] s = Some s"
| "release_irqs t (irq # irqs) s =
     (if k_irq_owners s irq = Some t
      then do {
        s \<leftarrow> arch_disable_irq irq s;
        release_irqs t irqs (s\<lparr>k_irq_owners := (k_irq_owners s)(irq := None)\<rparr>)
      }
      else release_irqs t irqs s)"

text \<open>\<^verbatim>\<open>arch_task_destroy\<close> is empty on x64.\<close>

definition task_destroy :: "task_t \<Rightarrow> kernel \<Rightarrow> (error_t \<times> kernel) option" where
  "task_destroy t s =
     do {
       ASSERT (t \<noteq> k_current s);
       ASSERT (t \<noteq> IDLE_TASK);
       if t = INIT_TASK then Some (ERR_INVALID_ARG, s)
       else if st s t = TASK_UNUSED then Some (ERR_INVALID_ARG, s)
       else if t_ref_count (k_tasks s t) > 0 then Some (ERR_IN_USE, s)
       else do {
         let s = unlink_sender t (unlink_runqueue t s);
         let s = upd_task t (\<lambda>k. k\<lparr>t_state := TASK_UNUSED\<rparr>) s;
         let s = (case t_pager (k_tasks s t) of
             None \<Rightarrow> s
           | Some p \<Rightarrow> upd_task p (\<lambda>k. k\<lparr>t_ref_count := (t_ref_count k + 2 ^ 32 - 1) mod 2 ^ 32\<rparr>) s);
         s \<leftarrow> abort_senders (sendersof s t) s;
         s \<leftarrow> release_irqs t [0..<IRQ_MAX] s;
         Some (OK, s)
       }
     }"

text \<open>The end of \<^verbatim>\<open>task_exit\<close>: the task waits to be destroyed.\<close>

definition exit_wait :: "kernel \<Rightarrow> kernel option" where
  "exit_wait s =
     (let cur = k_current s in
      task_switch (set_cont cur Exited
        (upd_task cur (\<lambda>k. k\<lparr>t_state := TASK_BLOCKED, t_src := IPC_DENY\<rparr>) s)))"

text \<open>The result of \<open>ipc\<close> is only reported by \<^verbatim>\<open>task_exit\<close>. A message sent by the kernel is not
  read from user memory, so \<open>ipc\<close> cannot exit here. The fields the caller leaves
  uninitialised are 0.\<close>

definition task_exit :: "exception_type \<Rightarrow> kernel \<Rightarrow> kernel option" where
  "task_exit exp s =
     do {
       ASSERT (k_current s \<noteq> IDLE_TASK);
       pager \<leftarrow> t_pager (k_tasks s (k_current s));
       let m = \<lparr>m_type = EXCEPTION_MSG, m_src = 0, m_body = Exception_data (k_current s) exp\<rparr>;
       (r, s) \<leftarrow> ipc (Some pager) 0 (Kmsg m) (IPC_SEND OR IPC_KERNEL) By_Exit s;
       case r of
         Return _ _ \<Rightarrow> exit_wait s
       | Switched \<Rightarrow> Some s
       | Exit _ \<Rightarrow> None
     }"

section \<open>Returning from a blocking operation\<close>

text \<open>What the caller of \<open>ipc\<close> does with its outcome: \<^verbatim>\<open>handle_syscall\<close> returns the error value
  to the user, \<^verbatim>\<open>handle_page_fault\<close> checks the pager's answer, \<^verbatim>\<open>task_exit\<close> goes on.\<close>

definition return_to :: "ipc_caller \<Rightarrow> outcome \<times> kernel \<Rightarrow> kernel option" where
  "return_to caller rs =
     (case rs of (r, s) \<Rightarrow>
       let cur = k_current s in
       (case r of
          Switched \<Rightarrow> Some s
        | Exit e \<Rightarrow> task_exit e s
        | Return err buf \<Rightarrow>
            (case caller of
               By_Syscall \<Rightarrow> Some (s\<lparr>k_uret := (k_uret s)(cur := err_code err)\<rparr>)
             | By_Page_Fault \<Rightarrow>
                 (case buf of
                    Kmsg m \<Rightarrow>
                      if err \<noteq> OK \<or> m_type m \<noteq> PAGE_FAULT_REPLY_MSG
                      then task_exit EXP_INVALID_MSG_FROM_PAGER s
                      else Some s
                  | Umsg _ \<Rightarrow> None)
             | By_Exit \<Rightarrow> exit_wait s)))"

text \<open>The code after each call of \<^verbatim>\<open>task_switch\<close>, run by the task that is now current. The
  continuation is consumed: a task that runs has none. A task that has exited is never
  switched to.\<close>

definition kresume :: "kernel \<Rightarrow> kernel option" where
  "kresume s =
     (let cur = k_current s; k = k_tasks s cur; c = k_conts s cur; s = set_cont cur In_User s in
      (case c of
         In_User \<Rightarrow> Some s
       | Send_Blocked dst src buf flags tmp_m caller \<Rightarrow>
           if t_notifications k AND NOTIFY_ABORTED \<noteq> 0
           then return_to caller (Return ERR_ABORTED buf,
                  upd_task cur (\<lambda>k. k\<lparr>t_notifications := t_notifications k AND NOT NOTIFY_ABORTED\<rparr>) s)
           else do {
             s \<leftarrow> deliver dst tmp_m flags s;
             r \<leftarrow> ipc_recv src buf flags caller s;
             return_to caller r
           }
       | Recv_Blocked buf flags caller \<Rightarrow>
           do {
             r \<leftarrow> copy_out buf flags (t_m k) s;
             return_to caller r
           }
       | Fastpath_Blocked p \<Rightarrow>
           (case memcpy_to_user p (t_m k) s of
              Inl e \<Rightarrow> return_to By_Syscall (Exit e, s)
            | Inr s \<Rightarrow> return_to By_Syscall (Return OK (Umsg p), s))
       | Exited \<Rightarrow> None))"

section \<open>Interrupts and page faults\<close>

definition to_i32 :: "int \<Rightarrow> int" where
  "to_i32 x = (x + 2 ^ 31) mod 2 ^ 32 - 2 ^ 31"

primrec timer_loop :: "task_t list \<Rightarrow> bool \<Rightarrow> kernel \<Rightarrow> (bool \<times> kernel) option" where
  "timer_loop [] resumed s = Some (resumed, s)"
| "timer_loop (t # ts) resumed s =
     (if st s t = TASK_UNUSED \<or> t_timeout (k_tasks s t) = 0 then timer_loop ts resumed s
      else
        let s = upd_task t (\<lambda>k. k\<lparr>t_timeout := to_i32 (t_timeout k - 1)\<rparr>) s in
        if t_timeout (k_tasks s t) = 0
        then do { s \<leftarrow> notify t NOTIFY_TIMER s; timer_loop ts True s }
        else timer_loop ts resumed s)"

definition handle_timer_irq :: "kernel \<Rightarrow> kernel option" where
  "handle_timer_irq s =
     do {
       (resumed_by_timeout, s) \<leftarrow> timer_loop [1..CONFIG_NUM_TASKS] False s;
       let cur = k_current s;
       ASSERT (cur = IDLE_TASK \<or> t_quantum (k_tasks s cur) \<ge> 0);
       let s = upd_task cur (\<lambda>k. k\<lparr>t_quantum := t_quantum k - 1\<rparr>) s;
       if t_quantum (k_tasks s cur) < 0 \<or> (cur = IDLE_TASK \<and> resumed_by_timeout)
       then task_switch s else Some s
     }"

definition handle_irq :: "nat \<Rightarrow> kernel \<Rightarrow> kernel option" where
  "handle_irq irq s =
     do {
       ASSERT (irq < IRQ_MAX);
       case k_irq_owners s irq of
         None \<Rightarrow> Some s
       | Some owner \<Rightarrow>
           do {
             s \<leftarrow> notify owner NOTIFY_IRQ s;
             if k_current s = IDLE_TASK then task_switch s else Some s
           }
     }"

definition handle_page_fault :: "u64 \<Rightarrow> u64 \<Rightarrow> u32 \<Rightarrow> kernel \<Rightarrow> kernel option" where
  "handle_page_fault addr ip fault s =
     do {
       pager \<leftarrow> t_pager (k_tasks s (k_current s));
       let m = \<lparr>m_type = PAGE_FAULT_MSG, m_src = 0,
                m_body = Page_fault_data (k_current s) addr ip fault\<rparr>;
       r \<leftarrow> ipc (Some pager) pager (Kmsg m) (IPC_CALL OR IPC_KERNEL) By_Page_Fault s;
       return_to By_Page_Fault r
     }"

end
