(* ===== verification/Kernel_Syscall.thy ===== *)
theory Kernel_Syscall
  imports Kernel_IPC
begin

text \<open>
  \<^verbatim>\<open>kernel/syscall.c\<close>: every system call and their dispatcher, with the parts of
  \<^verbatim>\<open>kernel/kdebug.c\<close>, \<^verbatim>\<open>kernel/printk.c\<close> and the serial port they use. A system call either
  returns a value, leaves the task blocked, or makes it exit. A user access that faults on a
  missing page is not modelled: the memory of the current task is there. What the kernel
  prints about itself (\<^verbatim>\<open>TRACE\<close>, \<^verbatim>\<open>INFO\<close>, \<^verbatim>\<open>WARN\<close>) is left out of the console and the log.
\<close>

datatype 'a sysret = Done 'a | Blocked | Killed exception_type

type_synonym 'a syscall = "kernel \<Rightarrow> ('a sysret \<times> kernel) option"

definition sys_return :: "(error_t \<times> kernel) option \<Rightarrow> (error_t sysret \<times> kernel) option" where
  "sys_return r = map_option (\<lambda>(err, s). (Done err, s)) r"

section \<open>Character buffers in user memory\<close>

definition bytes_from_user :: "u64 \<Rightarrow> nat \<Rightarrow> kernel \<Rightarrow> exception_type + u8 list" where
  "bytes_from_user src len s =
     (if is_kernel_addr_range src (of_nat len) then Inl EXP_INVALID_MEMORY_ACCESS
      else Inr (map (\<lambda>i. k_ubytes s (k_current s) (src + of_nat i)) [0..<len]))"

definition bytes_to_user :: "u64 \<Rightarrow> u8 list \<Rightarrow> kernel \<Rightarrow> exception_type + kernel" where
  "bytes_to_user dst bs s =
     (if is_kernel_addr_range dst (of_nat (length bs)) then Inl EXP_INVALID_MEMORY_ACCESS
      else Inr (s\<lparr>k_ubytes := (k_ubytes s)(k_current s := (\<lambda>a.
             if unat (a - dst) < length bs then bs ! unat (a - dst) else k_ubytes s (k_current s) a))\<rparr>))"

definition strncpy_from_user :: "u64 \<Rightarrow> nat \<Rightarrow> kernel \<Rightarrow> exception_type + cbuf" where
  "strncpy_from_user src len s = map_sum id (\<lambda>bs. bs @ [0]) (bytes_from_user src len s)"

section \<open>Tasks\<close>

definition sys_task_create ::
  "layout \<Rightarrow> task_t \<Rightarrow> u64 \<Rightarrow> u64 \<Rightarrow> task_t \<Rightarrow> u32 \<Rightarrow> error_t syscall" where
  "sys_task_create ly tid name ip pager flags s =
     do {
       cap \<leftarrow> CAPABLE (k_tasks s (k_current s)) CAP_TASK;
       if \<not> cap then Some (Done ERR_NOT_PERMITTED, s)
       else (case task_lookup_unchecked tid of
           None \<Rightarrow> Some (Done ERR_INVALID_TASK, s)
         | Some task \<Rightarrow>
             if task = k_current s then Some (Done ERR_INVALID_TASK, s)
             else (case task_lookup pager s of
                 None \<Rightarrow> Some (Done ERR_INVALID_ARG, s)
               | Some pager_task \<Rightarrow>
                   (case strncpy_from_user name (CONFIG_TASK_NAME_LEN - 1) s of
                      Inl e \<Rightarrow> Some (Killed e, s)
                    | Inr namebuf \<Rightarrow> sys_return (task_create ly task namebuf ip (Some pager_task) flags s))))
     }"

definition sys_task_destroy :: "task_t \<Rightarrow> error_t syscall" where
  "sys_task_destroy tid s =
     do {
       cap \<leftarrow> CAPABLE (k_tasks s (k_current s)) CAP_TASK;
       if \<not> cap then Some (Done ERR_NOT_PERMITTED, s)
       else (case task_lookup_unchecked tid of
           None \<Rightarrow> Some (Done ERR_INVALID_TASK, s)
         | Some task \<Rightarrow>
             if task = k_current s then Some (Done ERR_INVALID_TASK, s)
             else sys_return (task_destroy task s))
     }"

definition sys_task_exit :: "error_t syscall" where
  "sys_task_exit s = Some (Killed EXP_GRACE_EXIT, s)"

definition sys_task_self :: "kernel \<Rightarrow> task_t" where
  "sys_task_self s = k_current s"

definition sys_task_schedule :: "task_t \<Rightarrow> int \<Rightarrow> error_t syscall" where
  "sys_task_schedule tid priority s =
     do {
       cap \<leftarrow> CAPABLE (k_tasks s (k_current s)) CAP_TASK;
       if \<not> cap then Some (Done ERR_NOT_PERMITTED, s)
       else (case task_lookup_unchecked tid of
           None \<Rightarrow> Some (Done ERR_INVALID_TASK, s)
         | Some task \<Rightarrow>
             if task = k_current s then Some (Done ERR_INVALID_TASK, s)
             else sys_return (task_schedule task priority s))
     }"

section \<open>Messages, notifications and timers\<close>

definition sys_ipc :: "task_t \<Rightarrow> task_t \<Rightarrow> u64 \<Rightarrow> u32 \<Rightarrow> kernel \<Rightarrow> (outcome \<times> kernel) option" where
  "sys_ipc dst src m flags s =
     (if flags AND IPC_KERNEL \<noteq> 0 then Some (Return ERR_INVALID_ARG (Umsg m), s)
      else if src < 0 \<or> src > CONFIG_NUM_TASKS then Some (Return ERR_INVALID_ARG (Umsg m), s)
      else if flags AND IPC_SEND \<noteq> 0
      then (case task_lookup dst s of
              None \<Rightarrow> Some (Return ERR_INVALID_TASK (Umsg m), s)
            | Some d \<Rightarrow> ipc (Some d) src (Umsg m) flags By_Syscall s)
      else ipc None src (Umsg m) flags By_Syscall s)"

definition sys_notify :: "task_t \<Rightarrow> u8 \<Rightarrow> error_t syscall" where
  "sys_notify dst notifications s =
     (case task_lookup dst s of
        None \<Rightarrow> Some (Done ERR_INVALID_TASK, s)
      | Some d \<Rightarrow> do { s \<leftarrow> notify d notifications s; Some (Done OK, s) })"

definition sys_timer_set :: "int \<Rightarrow> error_t syscall" where
  "sys_timer_set timeout s =
     Some (Done OK, upd_task (k_current s) (\<lambda>k. k\<lparr>t_timeout := timeout\<rparr>) s)"

section \<open>Interrupts\<close>

text \<open>The \<^verbatim>\<open>int\<close> argument becomes the \<^verbatim>\<open>unsigned\<close> of \<^verbatim>\<open>task_listen_irq\<close>.\<close>

definition sys_irq_acquire :: "int \<Rightarrow> error_t syscall" where
  "sys_irq_acquire irq s =
     do {
       cap \<leftarrow> CAPABLE (k_tasks s (k_current s)) CAP_IRQ;
       if \<not> cap then Some (Done ERR_NOT_PERMITTED, s)
       else sys_return (task_listen_irq (k_current s) (unat (word_of_int irq :: u32)) s)
     }"

definition sys_irq_release :: "int \<Rightarrow> error_t syscall" where
  "sys_irq_release irq s =
     do {
       cap \<leftarrow> CAPABLE (k_tasks s (k_current s)) CAP_IRQ;
       if \<not> cap then Some (Done ERR_NOT_PERMITTED, s)
       else sys_return (task_unlisten_irq (unat (word_of_int irq :: u32)) s)
     }"

section \<open>Virtual memory\<close>

definition vm_map ::
  "layout \<Rightarrow> task_t \<Rightarrow> u64 \<Rightarrow> u64 \<Rightarrow> u64 \<Rightarrow> u32 \<Rightarrow> kernel \<Rightarrow> (error_t \<times> kernel) option" where
  "vm_map ly task vaddr paddr kpage flags s =
     do {
       ASSERT (IS_ALIGNED vaddr PAGE_SIZE);
       ASSERT (IS_ALIGNED paddr PAGE_SIZE);
       ASSERT (IS_ALIGNED kpage PAGE_SIZE);
       if is_kernel_addr_range vaddr PAGE_SIZE then Some (ERR_NOT_ACCEPTABLE, s)
       else do {
         (err, pm) \<leftarrow> arch_vm_map (task_pml4 ly task) vaddr paddr kpage flags (k_pmem s);
         Some (err, s\<lparr>k_pmem := pm\<rparr>)
       }
     }"

definition vm_unmap :: "layout \<Rightarrow> task_t \<Rightarrow> u64 \<Rightarrow> kernel \<Rightarrow> (error_t \<times> kernel) option" where
  "vm_unmap ly task vaddr s =
     do {
       ASSERT (IS_ALIGNED vaddr PAGE_SIZE);
       (paddr, pm) \<leftarrow> vm_resolve (task_pml4 ly task) vaddr (k_pmem s);
       let s = s\<lparr>k_pmem := pm\<rparr>;
       if paddr = 0 then Some (ERR_NOT_FOUND, s)
       else do {
         (err, pm) \<leftarrow> arch_vm_unmap (task_pml4 ly task) vaddr (k_pmem s);
         Some (err, s\<lparr>k_pmem := pm\<rparr>)
       }
     }"

definition resolve_paddr :: "layout \<Rightarrow> u64 \<Rightarrow> kernel \<Rightarrow> (u64 \<times> kernel) option" where
  "resolve_paddr ly vaddr s =
     (if k_current s = INIT_TASK then Some (vaddr, s)
      else map_option (\<lambda>(p, pm). (p, s\<lparr>k_pmem := pm\<rparr>))
             (vm_resolve (task_pml4 ly (k_current s)) vaddr (k_pmem s)))"

definition sys_vm_map :: "layout \<Rightarrow> task_t \<Rightarrow> u64 \<Rightarrow> u64 \<Rightarrow> u64 \<Rightarrow> u32 \<Rightarrow> error_t syscall" where
  "sys_vm_map ly tid vaddr src kpage flags s =
     do {
       cap \<leftarrow> CAPABLE (k_tasks s (k_current s)) CAP_MAP;
       if \<not> cap then Some (Done ERR_NOT_PERMITTED, s)
       else if \<not> IS_ALIGNED vaddr PAGE_SIZE \<or> \<not> IS_ALIGNED src PAGE_SIZE \<or> \<not> IS_ALIGNED kpage PAGE_SIZE
       then Some (Done ERR_INVALID_ARG, s)
       else do {
         (paddr, s) \<leftarrow> resolve_paddr ly src s;
         if paddr = 0 then Some (Done ERR_NOT_FOUND, s)
         else do {
           (kpage_paddr, s) \<leftarrow> resolve_paddr ly kpage s;
           if kpage_paddr = 0 then Some (Done ERR_NOT_FOUND, s)
           else if is_kernel_paddr ly paddr then Some (Done ERR_NOT_ACCEPTABLE, s)
           else if is_kernel_paddr ly kpage_paddr then Some (Done ERR_NOT_ACCEPTABLE, s)
           else (case task_lookup tid s of
               None \<Rightarrow> Some (Done ERR_INVALID_TASK, s)
             | Some task \<Rightarrow> sys_return (vm_map ly task vaddr paddr kpage_paddr flags s))
         }
       }
     }"

definition sys_vm_unmap :: "layout \<Rightarrow> task_t \<Rightarrow> u64 \<Rightarrow> error_t syscall" where
  "sys_vm_unmap ly tid vaddr s =
     do {
       cap \<leftarrow> CAPABLE (k_tasks s (k_current s)) CAP_MAP;
       if \<not> cap then Some (Done ERR_NOT_PERMITTED, s)
       else if \<not> IS_ALIGNED vaddr PAGE_SIZE then Some (Done ERR_INVALID_ARG, s)
       else (case task_lookup tid s of
           None \<Rightarrow> Some (Done ERR_INVALID_TASK, s)
         | Some task \<Rightarrow> sys_return (vm_unmap ly task vaddr s))
     }"

section \<open>The console and the kernel debugger\<close>

definition arch_printchar :: "u8 \<Rightarrow> kernel \<Rightarrow> kernel" where
  "arch_printchar ch s = s\<lparr>k_console := k_console s @ (if ch = 10 then [10, 13] else [ch])\<rparr>"

definition printchar :: "u8 \<Rightarrow> kernel \<Rightarrow> kernel" where
  "printchar ch s = (let s = arch_printchar ch s in s\<lparr>k_klog := klog_write ch (k_klog s)\<rparr>)"

text \<open>The loop copies from \<open>buf\<close> each time: the pointer is not advanced.\<close>

function console_write_loop :: "u64 \<Rightarrow> nat \<Rightarrow> error_t syscall" where
  "console_write_loop buf remaining s =
     (if remaining = 0 then Some (Done OK, s)
      else (case bytes_from_user buf (min remaining 512) s of
              Inl e \<Rightarrow> Some (Killed e, s)
            | Inr kbuf \<Rightarrow> console_write_loop buf (remaining - min remaining 512) (fold printchar kbuf s)))"
  by pat_completeness auto
termination
  by (relation "measure (\<lambda>(_, n, _). n)") auto

declare console_write_loop.simps [simp del]

definition sys_console_write :: "u64 \<Rightarrow> nat \<Rightarrow> error_t syscall" where
  "sys_console_write buf buf_len s =
     (if buf_len > 1024 then Some (Done ERR_TOO_LARGE, s) else console_write_loop buf buf_len s)"

text \<open>\<^verbatim>\<open>kdebug_readchar\<close> on the bytes the serial port has received; the result is the value
  of the C \<^verbatim>\<open>int\<close> (a signed character, or -1).\<close>

definition kdebug_readchar :: "kernel \<Rightarrow> int \<times> kernel" where
  "kdebug_readchar s =
     (case k_input s of
        [] \<Rightarrow> (-1, s)
      | ch # rest \<Rightarrow> (sint (if ch = 13 then 10 else ch), s\<lparr>k_input := rest\<rparr>))"

text \<open>\<open>console_read_loop n i\<close>: at most \<open>n\<close> more characters, \<open>i\<close> read so far. The result is \<open>i\<close>
  at the end of the loop.\<close>

fun console_read_loop :: "u64 \<Rightarrow> nat \<Rightarrow> nat \<Rightarrow> kernel \<Rightarrow> (exception_type + nat) \<times> kernel" where
  "console_read_loop buf 0 i s = (Inr i, s)"
| "console_read_loop buf (Suc n) i s =
     (let (ch, s) = kdebug_readchar s in
      if ch \<le> 0 then (Inr i, s)
      else (case bytes_to_user (buf + of_nat i) [word_of_int ch] s of
              Inl e \<Rightarrow> (Inl e, s)
            | Inr s \<Rightarrow> console_read_loop buf n (Suc i) s))"

definition sys_console_read :: "u64 \<Rightarrow> int \<Rightarrow> int syscall" where
  "sys_console_read buf max_len s =
     (if max_len = 0 then Some (Done 0, s)
      else (case console_read_loop buf (nat (max_len - 1)) 0 s of
              (Inl e, s) \<Rightarrow> Some (Killed e, s)
            | (Inr i, s) \<Rightarrow>
                (case bytes_to_user (buf + of_nat i) [0] s of
                   Inl e \<Rightarrow> Some (Killed e, s)
                 | Inr s \<Rightarrow> Some (Done (int i), s))))"

text \<open>\<^verbatim>\<open>kdebug_run\<close>: the commands that only print leave the state as it is; \<open>q\<close> halts. Writing
  before the start of the buffer is a fault.\<close>

definition kdebug_run :: "cbuf \<Rightarrow> cbuf \<Rightarrow> nat \<Rightarrow> klog \<Rightarrow> (error_t \<times> cbuf \<times> klog) option" where
  "kdebug_run cmdline buf len k =
     do {
       n \<leftarrow> strlen cmdline;
       help \<leftarrow> strcmp cmdline [104, 101, 108, 112, 0];
       ps \<leftarrow> strcmp cmdline [112, 115, 0];
       q \<leftarrow> strcmp cmdline [113, 0];
       log \<leftarrow> strcmp cmdline [95, 108, 111, 103, 0];
       if n = 0 then Some (OK, buf, k)
       else if help = 0 then Some (OK, buf, k)
       else if ps = 0 then Some (OK, buf, k)
       else if q = 0 then None
       else if log = 0 then
         if len = 0 then Some (ERR_TOO_SMALL, buf, k)
         else
           let (out, k) = klog_read (len - 1) k in
           do {
             ASSERT (length out \<le> length buf);
             ASSERT (0 < length out);
             Some (OK, (out @ drop (length out) buf)[length out - 1 := 0], k)
           }
       else Some (ERR_NOT_FOUND, buf, k)
     }"

text \<open>\<open>stack\<close> is what the 512 bytes of \<^verbatim>\<open>out_buf\<close> hold on entry.\<close>

definition sys_kdebug :: "cbuf \<Rightarrow> u64 \<Rightarrow> nat \<Rightarrow> u64 \<Rightarrow> nat \<Rightarrow> error_t syscall" where
  "sys_kdebug stack cmd cmd_len buf buf_len s =
     do {
       cap \<leftarrow> CAPABLE (k_tasks s (k_current s)) CAP_KDEBUG;
       if \<not> cap then Some (Done ERR_NOT_PERMITTED, s)
       else if cmd_len \<ge> 128 - 1 then Some (Done ERR_TOO_LARGE, s)
       else if buf_len \<ge> 512 - 1 then Some (Done ERR_TOO_LARGE, s)
       else (case strncpy_from_user cmd cmd_len s of
           Inl e \<Rightarrow> Some (Killed e, s)
         | Inr cmd_buf \<Rightarrow>
             do {
               (err, out_buf, k) \<leftarrow> kdebug_run cmd_buf (stack[0 := 0]) buf_len (k_klog s);
               let s = s\<lparr>k_klog := k\<rparr>;
               if err \<noteq> OK then Some (Done err, s)
               else do {
                 n \<leftarrow> strlen out_buf;
                 case bytes_to_user buf (take (n + 1) out_buf) s of
                   Inl e \<Rightarrow> Some (Killed e, s)
                 | Inr s \<Rightarrow> Some (Done OK, s)
               }
             })
     }"

section \<open>The system call handler\<close>

text \<open>Arguments are \<^verbatim>\<open>long\<close>s; each system call converts them to its own types. The value
  returned to the user is \<open>k_uret\<close>.\<close>

definition sys_finish :: "('a \<Rightarrow> int) \<Rightarrow> ('a sysret \<times> kernel) option \<Rightarrow> kernel option" where
  "sys_finish code r =
     do {
       (ret, s) \<leftarrow> r;
       case ret of
         Done v \<Rightarrow> Some (s\<lparr>k_uret := (k_uret s)(k_current s := code v)\<rparr>)
       | Blocked \<Rightarrow> Some s
       | Killed e \<Rightarrow> task_exit e s
     }"

abbreviation uaddr :: "int \<Rightarrow> u64" where "uaddr \<equiv> word_of_int"
abbreviation unsigned32 :: "int \<Rightarrow> u32" where "unsigned32 \<equiv> word_of_int"

definition handle_syscall ::
  "layout \<Rightarrow> cbuf \<Rightarrow> int \<Rightarrow> int \<Rightarrow> int \<Rightarrow> int \<Rightarrow> int \<Rightarrow> int \<Rightarrow> kernel \<Rightarrow> kernel option" where
  "handle_syscall ly stack n a1 a2 a3 a4 a5 s =
     (if n = 3 then
        sys_ipc (to_i32 a1) (to_i32 a2) (uaddr a3) (unsigned32 a4) s \<bind> return_to By_Syscall
      else if n = 4 then sys_finish err_code (sys_notify (to_i32 a1) (word_of_int a2) s)
      else if n = 5 then sys_finish err_code (sys_timer_set (to_i32 a1) s)
      else if n = 6 then sys_finish err_code (sys_console_write (uaddr a1) (unat (uaddr a2)) s)
      else if n = 7 then sys_finish id (sys_console_read (uaddr a1) (to_i32 a2) s)
      else if n = 8 then
        sys_finish err_code
          (sys_task_create ly (to_i32 a1) (uaddr a2) (uaddr a3) (to_i32 a4) (unsigned32 a5) s)
      else if n = 9 then sys_finish err_code (sys_task_destroy (to_i32 a1) s)
      else if n = 10 then sys_finish err_code (sys_task_exit s)
      else if n = 11 then sys_finish id (Some (Done (sys_task_self s), s))
      else if n = 12 then sys_finish err_code (sys_task_schedule (to_i32 a1) (to_i32 a2) s)
      else if n = 13 then
        sys_finish err_code
          (sys_vm_map ly (to_i32 a1) (uaddr a2) (uaddr a3) (uaddr a4) (unsigned32 a5) s)
      else if n = 14 then sys_finish err_code (sys_vm_unmap ly (to_i32 a1) (uaddr a2) s)
      else if n = 15 then sys_finish err_code (sys_irq_acquire (to_i32 a1) s)
      else if n = 16 then sys_finish err_code (sys_irq_release (to_i32 a1) s)
      else if n = 2 then
        sys_finish err_code
          (sys_kdebug stack (uaddr a1) (unat (uaddr a2)) (uaddr a3) (unat (uaddr a4)) s)
      else if n = 1 then sys_finish err_code (Some (Done OK, s))
      else sys_finish err_code (Some (Done ERR_INVALID_ARG, s)))"

section \<open>Interrupts of the x64 port\<close>

definition EXP_PAGE_FAULT :: nat where [kconst]: "EXP_PAGE_FAULT = 14"
definition VECTOR_IPI_RESCHEDULE :: nat where [kconst]: "VECTOR_IPI_RESCHEDULE = 32"
definition VECTOR_IPI_HALT :: nat where [kconst]: "VECTOR_IPI_HALT = 33"
definition VECTOR_IRQ_BASE :: nat where [kconst]: "VECTOR_IRQ_BASE = 48"
definition TIMER_IRQ :: nat where [kconst]: "TIMER_IRQ = 0"

text \<open>The bits of the error code and of the kernel's fault flags have the same numbers.\<close>

definition pf_fault :: "u64 \<Rightarrow> u32" where
  "pf_fault error =
     (if error AND 1 \<noteq> 0 then 1 else 0) OR (if error AND 4 \<noteq> 0 then 4 else 0)
       OR (if error AND 2 \<noteq> 0 then 2 else 0)"

text \<open>An interrupt or exception \<open>vec\<close> taken in user mode or in the idle loop, with the error
  code, the faulting address and the instruction pointer of the frame. The big kernel lock
  is not a part of the state: there is one CPU.\<close>

definition x64_handle_interrupt :: "nat \<Rightarrow> u64 \<Rightarrow> u64 \<Rightarrow> u64 \<Rightarrow> kernel \<Rightarrow> kernel option" where
  "x64_handle_interrupt vec error cr2 rip s =
     (if vec = VECTOR_IPI_HALT then None
      else if vec = EXP_PAGE_FAULT then
        if error AND 8 \<noteq> 0 then None
        else
          let fault = pf_fault error in
          if fault AND 4 = 0 then None else handle_page_fault cr2 rip fault s
      else if vec = VECTOR_IPI_RESCHEDULE then task_switch s
      else if vec \<le> 20 then
        if k_current s = IDLE_TASK then None else task_exit EXP_INVALID_OP s
      else if vec \<ge> VECTOR_IRQ_BASE then
        let irq = vec - VECTOR_IRQ_BASE in
        if irq = TIMER_IRQ then handle_timer_irq s else handle_irq irq s
      else None)"

end
