(* ===== verification/Kernel_Inv.thy ===== *)
theory Kernel_Inv
  imports Kernel_Syscall
begin

text \<open>
  The kernel's invariant, and that every operation of the kernel keeps it without failing an
  assertion. It has four parts: the run queues hold exactly the runnable tasks that do not run
  (\<open>runq_ok\<close>), the current task is the idle task or runnable (\<open>cur_ok\<close>), the IPC state of every
  task agrees with the place where it is suspended (\<open>ipc_ok\<close>), and the references between
  tasks are counted and not dangling (\<open>res_ok\<close>).
\<close>

section \<open>The invariant\<close>

definition task_id :: "task_t \<Rightarrow> bool" where
  "task_id t \<longleftrightarrow> 1 \<le> t \<and> t \<le> CONFIG_NUM_TASKS"

abbreviation inuse :: "kernel \<Rightarrow> task_t \<Rightarrow> bool" where
  "inuse s t \<equiv> task_id t \<and> st s t \<noteq> TASK_UNUSED"

definition runq_ok :: "kernel \<Rightarrow> bool" where
  "runq_ok s \<longleftrightarrow>
     (\<forall>i. distinct (k_runqueues s i)) \<and>
     (\<forall>i t. t \<in> set (k_runqueues s i) \<longleftrightarrow>
        i < TASK_PRIORITY_MAX \<and> task_id t \<and> st s t = TASK_RUNNABLE \<and> t \<noteq> k_current s \<and>
        t_priority (k_tasks s t) = int i) \<and>
     (\<forall>t. inuse s t \<longrightarrow> 0 \<le> t_priority (k_tasks s t) \<and> t_priority (k_tasks s t) < int TASK_PRIORITY_MAX)"

definition cur_ok :: "kernel \<Rightarrow> bool" where
  "cur_ok s \<longleftrightarrow> k_current s = IDLE_TASK \<or>
     (task_id (k_current s) \<and> st s (k_current s) = TASK_RUNNABLE \<and>
      t_quantum (k_tasks s (k_current s)) \<ge> 0)"

text \<open>The receiver a task is in the send phase to.\<close>

fun dest :: "kcont \<Rightarrow> task_t option" where
  "dest (Send_Blocked d _ _ _ _ _) = Some d"
| "dest _ = None"

definition buf_ok :: "msgbuf \<Rightarrow> u32 \<Rightarrow> ipc_caller \<Rightarrow> bool" where
  "buf_ok buf flags caller \<longleftrightarrow>
     (case buf of
        Kmsg _ \<Rightarrow> flags AND IPC_KERNEL \<noteq> 0
      | Umsg _ \<Rightarrow> flags AND IPC_KERNEL = 0 \<and> caller = By_Syscall)"

fun cont_ok :: "kcont \<Rightarrow> bool" where
  "cont_ok (Send_Blocked d src buf flags m caller) \<longleftrightarrow> task_id d \<and> 0 \<le> src \<and> buf_ok buf flags caller"
| "cont_ok (Recv_Blocked buf flags caller) \<longleftrightarrow> buf_ok buf flags caller"
| "cont_ok _ \<longleftrightarrow> True"

fun blocked_ok :: "task_t \<Rightarrow> kcont \<Rightarrow> bool" where
  "blocked_ok src In_User \<longleftrightarrow> False"
| "blocked_ok src (Send_Blocked _ _ _ _ _ _) \<longleftrightarrow> src = IPC_DENY"
| "blocked_ok src Exited \<longleftrightarrow> src = IPC_DENY"
| "blocked_ok src (Recv_Blocked _ _ _) \<longleftrightarrow> 0 \<le> src"
| "blocked_ok src (Fastpath_Blocked _) \<longleftrightarrow> 0 \<le> src"

text \<open>What a task without a pager (the initial task) may wait with: it cannot exit, so its message
  buffer must not be in the kernel, and it has no pager to wait for.\<close>

fun buf_safe :: "msgbuf \<Rightarrow> bool" where
  "buf_safe (Umsg p) \<longleftrightarrow> \<not> is_kernel_addr_range p MESSAGE_SIZE"
| "buf_safe (Kmsg _) \<longleftrightarrow> True"

fun cont_safe :: "kcont \<Rightarrow> bool" where
  "cont_safe (Send_Blocked d src buf flags m caller) \<longleftrightarrow> buf_safe buf \<and> caller = By_Syscall"
| "cont_safe (Recv_Blocked buf flags caller) \<longleftrightarrow> buf_safe buf \<and> caller = By_Syscall"
| "cont_safe (Fastpath_Blocked p) \<longleftrightarrow> buf_safe (Umsg p)"
| "cont_safe _ \<longleftrightarrow> True"

definition aborted :: "task \<Rightarrow> bool" where
  "aborted k \<longleftrightarrow> t_notifications k AND NOTIFY_ABORTED \<noteq> 0"

lemma aborted_upd [simp]:
  "aborted (k\<lparr>t_state := a\<rparr>) = aborted k" "aborted (k\<lparr>t_quantum := q\<rparr>) = aborted k"
  "aborted (k\<lparr>t_src := b\<rparr>) = aborted k" "aborted (k\<lparr>t_senders := c\<rparr>) = aborted k"
  "aborted (k\<lparr>t_m := m\<rparr>) = aborted k" "aborted (k\<lparr>t_timeout := x\<rparr>) = aborted k"
  "aborted (k\<lparr>t_priority := p\<rparr>) = aborted k" "aborted (k\<lparr>t_ref_count := n\<rparr>) = aborted k"
  by (simp_all add: aborted_def)

text \<open>A task in the send phase that is runnable again was chosen by its receiver, which waits
  for it and for nobody else (or the send was aborted).\<close>

definition task_ok :: "kernel \<Rightarrow> task_t \<Rightarrow> bool" where
  "task_ok s t \<longleftrightarrow>
     cont_ok (k_conts s t) \<and>
     (t_pager (k_tasks s t) = None \<longrightarrow> cont_safe (k_conts s t)) \<and>
     (st s t = TASK_BLOCKED \<longrightarrow> blocked_ok (srcof s t) (k_conts s t)) \<and>
     (st s t = TASK_RUNNABLE \<longrightarrow> k_conts s t \<noteq> Exited \<and>
        (\<forall>d. dest (k_conts s t) = Some d \<longrightarrow>
           aborted (k_tasks s t) \<or> (st s d = TASK_BLOCKED \<and> srcof s d = t)))"

definition senders_ok :: "kernel \<Rightarrow> bool" where
  "senders_ok s \<longleftrightarrow>
     (\<forall>d. distinct (sendersof s d)) \<and>
     (\<forall>d t. t \<in> set (sendersof s d) \<longrightarrow>
        inuse s d \<and> task_id t \<and> st s t = TASK_BLOCKED \<and> srcof s t = IPC_DENY \<and>
        dest (k_conts s t) = Some d)"

definition ipc_ok :: "kernel \<Rightarrow> bool" where
  "ipc_ok s \<longleftrightarrow> k_conts s IDLE_TASK = In_User \<and> (\<forall>t. task_id t \<longrightarrow> task_ok s t) \<and> senders_ok s"

definition paged_by :: "kernel \<Rightarrow> task_t \<Rightarrow> task_t set" where
  "paged_by s p = {t. inuse s t \<and> t_pager (k_tasks s t) = Some p}"

definition res_ok :: "kernel \<Rightarrow> bool" where
  "res_ok s \<longleftrightarrow>
     (\<forall>t. inuse s t \<and> t \<noteq> INIT_TASK \<longrightarrow> t_pager (k_tasks s t) \<noteq> None) \<and>
     (\<forall>t p. inuse s t \<and> t_pager (k_tasks s t) = Some p \<longrightarrow> inuse s p) \<and>
     (\<forall>p. task_id p \<longrightarrow> t_ref_count (k_tasks s p) = card (paged_by s p)) \<and>
     (\<forall>irq t. k_irq_owners s irq = Some t \<longrightarrow> irq < IRQ_MAX \<and> inuse s t) \<and>
     (\<forall>t. length (t_caps (k_tasks s t)) = BITMAP_SIZE CAP_MAX \<and>
          length (t_name (k_tasks s t)) = CONFIG_TASK_NAME_LEN) \<and>
     klog_inv (k_klog s)"

definition kinv :: "kernel \<Rightarrow> bool" where
  "kinv s \<longleftrightarrow> runq_ok s \<and> cur_ok s \<and> ipc_ok s \<and> res_ok s"

text \<open>The state of the kernel while the current task executes: it has no continuation.\<close>

definition kinv_run :: "kernel \<Rightarrow> bool" where
  "kinv_run s \<longleftrightarrow> kinv s \<and> k_conts s (k_current s) = In_User"

lemma not_idle_task_id [simp]: "task_id IDLE_TASK \<longleftrightarrow> False" "task_id 0 \<longleftrightarrow> False"
  by (auto simp: task_id_def IDLE_TASK_def)

lemma task_id_pos: "task_id t \<Longrightarrow> 1 \<le> t" by (simp add: task_id_def)

lemma finite_task_id: "finite {t. task_id t}"
  by (rule finite_subset [of _ "{1..CONFIG_NUM_TASKS}"]) (auto simp: task_id_def)

section \<open>What the parts depend on\<close>

lemma task_ok_frame:
  assumes "\<And>t. st s' t = st s t" "\<And>t. srcof s' t = srcof s t"
    "t_pager (k_tasks s' t) = t_pager (k_tasks s t)"
    "aborted (k_tasks s t) \<Longrightarrow> dest (k_conts s t) \<noteq> None \<Longrightarrow> aborted (k_tasks s' t)"
    "k_conts s' = k_conts s" "task_ok s t"
  shows "task_ok s' t"
  using assms(4,6) unfolding task_ok_def assms(1-3,5) by auto

lemma ipc_ok_frame:
  assumes "\<And>t. st s' t = st s t" "\<And>t. srcof s' t = srcof s t" "\<And>t. sendersof s' t = sendersof s t"
    "\<And>t. t_pager (k_tasks s' t) = t_pager (k_tasks s t)"
    "\<And>t. aborted (k_tasks s t) \<Longrightarrow> dest (k_conts s t) \<noteq> None \<Longrightarrow> aborted (k_tasks s' t)"
    "k_conts s' = k_conts s" "ipc_ok s"
  shows "ipc_ok s'"
proof -
  have "task_ok s' t" if "task_id t" for t
    by (rule task_ok_frame [OF assms(1,2,4-6)]) (use assms(7) that in \<open>simp_all add: ipc_ok_def\<close>)
  moreover have "senders_ok s'"
    using assms(7) by (simp add: ipc_ok_def senders_ok_def assms(1-3,6))
  ultimately show ?thesis
    using assms(7) by (simp add: ipc_ok_def assms(6))
qed

lemma res_ok_frame:
  assumes "\<And>t. st s' t = TASK_UNUSED \<longleftrightarrow> st s t = TASK_UNUSED"
    "\<And>t. t_pager (k_tasks s' t) = t_pager (k_tasks s t)"
    "\<And>t. t_ref_count (k_tasks s' t) = t_ref_count (k_tasks s t)"
    "\<And>t. length (t_caps (k_tasks s' t)) = length (t_caps (k_tasks s t))"
    "\<And>t. length (t_name (k_tasks s' t)) = length (t_name (k_tasks s t))"
    "k_irq_owners s' = k_irq_owners s" "klog_inv (k_klog s')" "res_ok s"
  shows "res_ok s'"
proof -
  have e: "paged_by s' = paged_by s"
    by (simp add: paged_by_def fun_eq_iff assms(1,2))
  show ?thesis
    using assms(8) assms(7) unfolding res_ok_def e assms(1-6) by blast
qed

lemma res_okD:
  assumes "res_ok s"
  shows res_ok_has_pager: "\<And>t. inuse s t \<Longrightarrow> t \<noteq> INIT_TASK \<Longrightarrow> t_pager (k_tasks s t) \<noteq> None"
    and res_ok_pager: "\<And>t p. inuse s t \<Longrightarrow> t_pager (k_tasks s t) = Some p \<Longrightarrow> inuse s p"
    and res_ok_ref: "\<And>p. task_id p \<Longrightarrow> t_ref_count (k_tasks s p) = card (paged_by s p)"
    and res_ok_irq: "\<And>irq t. k_irq_owners s irq = Some t \<Longrightarrow> irq < IRQ_MAX \<and> inuse s t"
    and res_ok_len: "\<And>t. length (t_caps (k_tasks s t)) = BITMAP_SIZE CAP_MAX"
      "\<And>t. length (t_name (k_tasks s t)) = CONFIG_TASK_NAME_LEN"
    and res_ok_klog: "klog_inv (k_klog s)"
  using assms unfolding res_ok_def by blast+

lemma no_senders: "senders_ok s \<Longrightarrow> st s t = TASK_UNUSED \<Longrightarrow> sendersof s t = []"
  unfolding senders_ok_def by (metis list.set_intros(1) neq_Nil_conv)

lemma runq_ok_frame:
  assumes "\<And>t. st s' t = st s t" "\<And>t. t_priority (k_tasks s' t) = t_priority (k_tasks s t)"
    "k_runqueues s' = k_runqueues s" "k_current s' = k_current s" "runq_ok s"
  shows "runq_ok s'"
  using assms unfolding runq_ok_def by simp

lemma cur_ok_frame:
  assumes "\<And>t. st s' t = st s t" "\<And>t. t_quantum (k_tasks s' t) = t_quantum (k_tasks s t)"
    "k_current s' = k_current s" "cur_ok s"
  shows "cur_ok s'"
  using assms unfolding cur_ok_def by simp

lemmas kinv_frame = ipc_ok_frame res_ok_frame runq_ok_frame cur_ok_frame

section \<open>Resuming a task\<close>

definition resumed :: "task_t \<Rightarrow> kernel \<Rightarrow> kernel" where
  "resumed t s =
     (let s = upd_task t (\<lambda>k. k\<lparr>t_state := TASK_RUNNABLE\<rparr>) s; p = nat (t_priority (k_tasks s t))
      in s\<lparr>k_runqueues := (k_runqueues s)(p := k_runqueues s p @ [t])\<rparr>)"

lemma resumed_sel [simp]:
  "k_tasks (resumed t s) = (k_tasks s)(t := (k_tasks s t)\<lparr>t_state := TASK_RUNNABLE\<rparr>)"
  "k_irq_owners (resumed t s) = k_irq_owners s"
  "k_current (resumed t s) = k_current s"
  "k_conts (resumed t s) = k_conts s"
  "k_umem (resumed t s) = k_umem s"
  "k_uret (resumed t s) = k_uret s"
  "k_klog (resumed t s) = k_klog s"
  by (simp_all add: resumed_def Let_def)

lemma task_resume_Some:
  assumes "runq_ok s" "task_id t" "st s t = TASK_BLOCKED"
  shows "task_resume t s = Some (resumed t s)"
proof -
  have "t \<notin> set (k_runqueues s i)" for i
    using assms by (auto simp: runq_ok_def)
  moreover have "0 \<le> t_priority (k_tasks s t) \<and> t_priority (k_tasks s t) < int TASK_PRIORITY_MAX"
    using assms by (auto simp: runq_ok_def)
  ultimately show ?thesis
    using assms by (simp add: task_resume_def enqueue_task_def resumed_def Let_def)
qed

lemma runq_ok_resumed:
  assumes "runq_ok s" "task_id t" "st s t = TASK_BLOCKED" "t \<noteq> k_current s"
  shows "runq_ok (resumed t s)"
proof -
  have "0 \<le> t_priority (k_tasks s t) \<and> t_priority (k_tasks s t) < int TASK_PRIORITY_MAX"
    using assms by (auto simp: runq_ok_def)
  with assms show ?thesis
    by (auto simp: runq_ok_def resumed_def Let_def)
qed

lemma res_ok_resumed:
  "res_ok s \<Longrightarrow> st s t = TASK_BLOCKED \<Longrightarrow> res_ok (resumed t s)"
  by (rule res_ok_frame [where s = s]) (simp_all add: res_ok_klog)

text \<open>Waking a receiver up: it is suspended in a receive phase.\<close>

lemma task_ok_resumed:
  assumes "task_ok s u" "task_id u" "st s t = TASK_BLOCKED" "srcof s t \<noteq> IPC_DENY"
    "blocked_ok (srcof s t) (k_conts s t)"
    "\<And>t'. task_id t' \<Longrightarrow> st s t' = TASK_RUNNABLE \<Longrightarrow> srcof s t = t' \<Longrightarrow> dest (k_conts s t') \<noteq> Some t"
  shows "task_ok (resumed t s) u"
proof (cases "u = t")
  case True
  then show ?thesis using assms(1,3-5) by (cases "k_conts s t") (auto simp: task_ok_def)
next
  case False
  then show ?thesis using assms(1,3) assms(6) [OF assms(2)] unfolding task_ok_def by fastforce
qed

lemma senders_ok_resumed:
  assumes "senders_ok s" "st s t = TASK_BLOCKED" "\<And>d. t \<notin> set (sendersof s d)"
  shows "senders_ok (resumed t s)"
  using assms unfolding senders_ok_def by auto

lemma not_sender: "senders_ok s \<Longrightarrow> srcof s t \<noteq> IPC_DENY \<Longrightarrow> t \<notin> set (sendersof s d)"
  by (auto simp: senders_ok_def)

lemma ipc_ok_resumed:
  assumes "ipc_ok s" "task_id t" "st s t = TASK_BLOCKED" "srcof s t \<noteq> IPC_DENY"
    "\<And>t'. task_id t' \<Longrightarrow> st s t' = TASK_RUNNABLE \<Longrightarrow> srcof s t = t' \<Longrightarrow> dest (k_conts s t') \<noteq> Some t"
  shows "ipc_ok (resumed t s)"
proof -
  have s: "senders_ok s" and t: "task_ok s t" and k: "k_conts s IDLE_TASK = In_User"
    and u: "task_id u \<Longrightarrow> task_ok s u" for u
    using assms(1,2) by (simp_all add: ipc_ok_def)
  have b: "blocked_ok (srcof s t) (k_conts s t)"
    using t assms(3) by (simp add: task_ok_def)
  have "task_ok (resumed t s) v" if "task_id v" for v
    by (rule task_ok_resumed [OF u [OF that] that assms(3,4) b assms(5)])
  moreover have "senders_ok (resumed t s)"
    by (rule senders_ok_resumed [OF s assms(3) not_sender [OF s assms(4)]])
  ultimately show ?thesis
    unfolding ipc_ok_def using k by simp
qed

section \<open>Switching tasks\<close>

definition picks :: "nat list \<Rightarrow> kernel \<Rightarrow> task_t \<Rightarrow> kernel \<Rightarrow> bool" where
  "picks is s n s' \<longleftrightarrow> (\<exists>pre i post rest. is = pre @ i # post \<and>
     (\<forall>j\<in>set pre. k_runqueues s j = []) \<and> k_runqueues s i = n # rest \<and>
     s' = s\<lparr>k_runqueues := (k_runqueues s)(i := rest)\<rparr>)"

lemma picks_Cons: "k_runqueues s i = [] \<Longrightarrow> picks is s n s' \<Longrightarrow> picks (i # is) s n s'"
  unfolding picks_def by (metis append_Cons set_ConsD)

lemma sched_loop_cases:
  obtains (idle) "sched_loop is s = (IDLE_TASK, s)" "\<forall>i\<in>set is. k_runqueues s i = []"
  | (picked) n s' where "sched_loop is s = (n, s')" "picks is s n s'"
proof -
  have "(sched_loop is s = (IDLE_TASK, s) \<and> (\<forall>i\<in>set is. k_runqueues s i = [])) \<or>
    (\<exists>n s'. sched_loop is s = (n, s') \<and> picks is s n s')"
  proof (induction "is")
    case (Cons i "is")
    show ?case
    proof (cases "k_runqueues s i")
      case Nil
      with Cons.IH picks_Cons [OF Nil] show ?thesis by auto
    next
      case (Cons n rest)
      then have "picks (i # is) s n (s\<lparr>k_runqueues := (k_runqueues s)(i := rest)\<rparr>)"
        unfolding picks_def by (intro exI [of _ "[]"] exI [of _ i] exI [of _ "is"] exI [of _ rest]) simp
      with Cons show ?thesis by simp
    qed
  qed simp
  with that show thesis by blast
qed

text \<open>Putting the current task back leaves a state where no task is current.\<close>

lemma enqueue_current:
  assumes "runq_ok s" "k_current s = IDLE_TASK \<or> task_id (k_current s)"
  obtains q where
    "(if k_current s \<noteq> IDLE_TASK \<and> st s (k_current s) = TASK_RUNNABLE
      then enqueue_task (k_current s) s else Some s) = Some (s\<lparr>k_runqueues := q\<rparr>)"
    "runq_ok (s\<lparr>k_runqueues := q, k_current := IDLE_TASK\<rparr>)"
proof (cases "k_current s \<noteq> IDLE_TASK \<and> st s (k_current s) = TASK_RUNNABLE")
  case True
  let ?c = "k_current s"
  let ?p = "nat (t_priority (k_tasks s ?c))"
  have p: "0 \<le> t_priority (k_tasks s ?c)" "t_priority (k_tasks s ?c) < int TASK_PRIORITY_MAX"
    using True assms by (auto simp: runq_ok_def)
  have n: "?c \<notin> set (k_runqueues s i)" for i
    using assms(1) by (auto simp: runq_ok_def)
  have id: "task_id ?c" using True assms(2) by blast
  show ?thesis
  proof (rule that [of "(k_runqueues s)(?p := k_runqueues s ?p @ [?c])"])
    show "runq_ok (s\<lparr>k_runqueues := (k_runqueues s)(?p := k_runqueues s ?p @ [?c]), k_current := IDLE_TASK\<rparr>)"
      using assms(1) True p n id by (auto simp: runq_ok_def)
  qed (use True p n in \<open>simp add: enqueue_task_def Let_def\<close>)
next
  case False
  show ?thesis
  proof (rule that [of "k_runqueues s"])
    have "t \<noteq> k_current s" if "task_id t" "st s t = TASK_RUNNABLE" for t
      using False that by auto
    moreover have "t \<noteq> IDLE_TASK" if "task_id t" for t using that by auto
    ultimately show "runq_ok (s\<lparr>k_runqueues := k_runqueues s, k_current := IDLE_TASK\<rparr>)"
      using assms(1) unfolding runq_ok_def by auto
  qed (use False in auto)
qed

lemma picks_runq_ok:
  assumes "picks is s n s'" "runq_ok (s\<lparr>k_current := IDLE_TASK\<rparr>)"
  shows "runq_ok (s'\<lparr>k_current := n\<rparr>)" "task_id n" "st s n = TASK_RUNNABLE"
proof -
  from assms(1) obtain i rest where r: "k_runqueues s i = n # rest"
    and s': "s' = s\<lparr>k_runqueues := (k_runqueues s)(i := rest)\<rparr>"
    by (auto simp: picks_def)
  have m: "t \<in> set (k_runqueues s j) \<longleftrightarrow> j < TASK_PRIORITY_MAX \<and> task_id t \<and> st s t = TASK_RUNNABLE \<and>
      t_priority (k_tasks s t) = int j" for j t
    using assms(2) by (auto simp: runq_ok_def)
  have d: "distinct (k_runqueues s j)" for j
    using assms(2) by (simp add: runq_ok_def)
  have n: "n \<in> set (k_runqueues s i)" "n \<notin> set rest" "distinct rest"
    using r d [of i] by simp_all
  then show "task_id n" "st s n = TASK_RUNNABLE"
    using m by simp_all
  have "n \<notin> set (k_runqueues s j)" if "j \<noteq> i" for j
    using that n(1) m by auto
  then have "t \<in> set (if j = i then rest else k_runqueues s j) \<longleftrightarrow> t \<in> set (k_runqueues s j) \<and> t \<noteq> n" for j t
    using n(2) r by (cases "j = i") auto
  then show "runq_ok (s'\<lparr>k_current := n\<rparr>)"
    using assms(2) n(3) by (auto simp: runq_ok_def s')
qed

lemma task_switch_ok:
  assumes "runq_ok s" "k_current s = IDLE_TASK \<or> task_id (k_current s)"
  obtains n q where
    "task_switch s = Some ((upd_task n (\<lambda>k. k\<lparr>t_quantum := TASK_TIME_SLICE\<rparr>) s)\<lparr>k_runqueues := q, k_current := n\<rparr>)"
    "runq_ok (s\<lparr>k_runqueues := q, k_current := n\<rparr>)"
    "n = IDLE_TASK \<or> (task_id n \<and> st s n = TASK_RUNNABLE)"
proof -
  obtain q where q: "(if k_current s \<noteq> IDLE_TASK \<and> st s (k_current s) = TASK_RUNNABLE
      then enqueue_task (k_current s) s else Some s) = Some (s\<lparr>k_runqueues := q\<rparr>)"
    and ok: "runq_ok (s\<lparr>k_runqueues := q, k_current := IDLE_TASK\<rparr>)"
    by (rule enqueue_current [OF assms])
  show thesis
  proof (rule sched_loop_cases [of "[0..<TASK_PRIORITY_MAX]" "s\<lparr>k_runqueues := q\<rparr>"])
    assume "sched_loop [0..<TASK_PRIORITY_MAX] (s\<lparr>k_runqueues := q\<rparr>) = (IDLE_TASK, s\<lparr>k_runqueues := q\<rparr>)"
    then show thesis
      using that [of IDLE_TASK q] ok q by (simp add: task_switch_def scheduler_def upd_task_def)
  next
    fix n s'
    assume *: "sched_loop [0..<TASK_PRIORITY_MAX] (s\<lparr>k_runqueues := q\<rparr>) = (n, s')"
      and p: "picks [0..<TASK_PRIORITY_MAX] (s\<lparr>k_runqueues := q\<rparr>) n s'"
    then obtain q' where s': "s' = s\<lparr>k_runqueues := q'\<rparr>" by (auto simp: picks_def)
    show thesis
      using that [of n q'] picks_runq_ok [OF p] ok q * unfolding s'
      by (simp add: task_switch_def scheduler_def upd_task_def)
  qed
qed

lemma switch_kinv:
  assumes "runq_ok s" "ipc_ok s" "res_ok s" "k_current s = IDLE_TASK \<or> task_id (k_current s)"
  shows "returns (task_switch s) kinv"
proof (rule task_switch_ok [OF assms(1,4)])
  fix n q
  let ?s = "(upd_task n (\<lambda>k. k\<lparr>t_quantum := TASK_TIME_SLICE\<rparr>) s)\<lparr>k_runqueues := q, k_current := n\<rparr>"
  assume *: "task_switch s = Some ?s" "runq_ok (s\<lparr>k_runqueues := q, k_current := n\<rparr>)"
    "n = IDLE_TASK \<or> (task_id n \<and> st s n = TASK_RUNNABLE)"
  have "runq_ok ?s"
    by (rule runq_ok_frame [OF _ _ _ _ *(2)]) simp_all
  moreover have "cur_ok ?s"
    using *(3) by (auto simp: cur_ok_def TASK_TIME_SLICE_def)
  moreover have "ipc_ok ?s"
    by (rule ipc_ok_frame [OF _ _ _ _ _ _ assms(2)]) (auto simp: aborted_def)
  moreover have "res_ok ?s"
    by (rule res_ok_frame [OF _ _ _ _ _ _ _ assms(3)]) (simp_all add: res_ok_klog assms(3))
  ultimately show ?thesis
    using * by (simp add: kinv_def)
qed

section \<open>Waiting for a message\<close>

lemma unlink_sender_sel [simp]:
  "k_tasks (unlink_sender t s) = (\<lambda>d. (k_tasks s d)\<lparr>t_senders := remove1 t (t_senders (k_tasks s d))\<rparr>)"
  "k_runqueues (unlink_sender t s) = k_runqueues s"
  "k_irq_owners (unlink_sender t s) = k_irq_owners s"
  "k_current (unlink_sender t s) = k_current s"
  "k_conts (unlink_sender t s) = k_conts s"
  "k_umem (unlink_sender t s) = k_umem s"
  "k_uret (unlink_sender t s) = k_uret s"
  "k_klog (unlink_sender t s) = k_klog s"
  by (simp_all add: unlink_sender_def)

text \<open>The state of the current task when it stops; a receiver stops with the sender it waits for.\<close>

definition receiving :: "task_t \<Rightarrow> kcont \<Rightarrow> kernel \<Rightarrow> kernel" where
  "receiving src c s =
     set_cont (k_current s) c
       (upd_task (k_current s) (\<lambda>k. k\<lparr>t_src := src, t_state := TASK_BLOCKED\<rparr>) s)"

definition awaits :: "kcont \<Rightarrow> bool" where
  "awaits c \<longleftrightarrow> cont_ok c \<and> dest c = None \<and> (\<forall>src. blocked_ok src c \<longleftrightarrow> 0 \<le> src)"

lemma receiving_sel [simp]:
  "k_tasks (receiving src c s) =
     (k_tasks s)(k_current s := (k_tasks s (k_current s))\<lparr>t_src := src, t_state := TASK_BLOCKED\<rparr>)"
  "k_runqueues (receiving src c s) = k_runqueues s"
  "k_irq_owners (receiving src c s) = k_irq_owners s"
  "k_current (receiving src c s) = k_current s"
  "k_conts (receiving src c s) = (k_conts s)(k_current s := c)"
  "k_umem (receiving src c s) = k_umem s"
  "k_uret (receiving src c s) = k_uret s"
  "k_klog (receiving src c s) = k_klog s"
  by (simp_all add: receiving_def)

lemma runq_ok_receiving: "runq_ok s \<Longrightarrow> cur_ok s \<Longrightarrow> runq_ok (receiving src c s)"
  unfolding runq_ok_def cur_ok_def by auto

lemma res_ok_receiving:
  "res_ok s \<Longrightarrow> st s (k_current s) = TASK_RUNNABLE \<Longrightarrow> res_ok (receiving src c s)"
  by (rule res_ok_frame [where s = s]) (simp_all add: res_ok_klog)

lemma senders_ok_receiving:
  assumes "senders_ok s" "st s (k_current s) = TASK_RUNNABLE"
  shows "senders_ok (receiving src c s)"
proof -
  have "k_current s \<notin> set (sendersof s d)" for d
    using assms by (auto simp: senders_ok_def)
  then show ?thesis
    using assms unfolding senders_ok_def by auto
qed

lemma ipc_ok_receiving:
  assumes "ipc_ok s" "st s (k_current s) = TASK_RUNNABLE" "task_id (k_current s)"
    "cont_ok c" "blocked_ok src c" "t_pager (k_tasks s (k_current s)) = None \<Longrightarrow> cont_safe c"
  shows "ipc_ok (receiving src c s)"
proof -
  have "task_ok (receiving src c s) t" if "task_id t" for t
  proof -
    have "task_ok s t" using that assms(1) by (simp add: ipc_ok_def)
    then show ?thesis
      using assms(2,4-6) unfolding task_ok_def by (cases "t = k_current s") auto
  qed
  moreover have "k_current s \<noteq> IDLE_TASK" using assms(3) by auto
  ultimately show ?thesis
    using assms(1) senders_ok_receiving [OF _ assms(2)] by (simp add: ipc_ok_def)
qed

text \<open>The same when a queued sender \<open>x\<close> is woken up first.\<close>

abbreviation rendezvous :: "task_t \<Rightarrow> kcont \<Rightarrow> kernel \<Rightarrow> kernel" where
  "rendezvous x c s \<equiv> receiving x c (unlink_sender x (resumed x s))"

lemma senders_ok_rendezvous:
  assumes "senders_ok s" "x \<in> set (sendersof s (k_current s))" "st s (k_current s) = TASK_RUNNABLE"
  shows "senders_ok (rendezvous x c s)"
proof -
  have ne: "k_current s \<notin> set (sendersof s d)" for d
    using assms(1,3) by (auto simp: senders_ok_def)
  have x: "x \<noteq> k_current s" "distinct (sendersof s d)" "st s x = TASK_BLOCKED" for d
    using assms by (auto simp: senders_ok_def)
  have "set (remove1 x (sendersof s d)) = set (sendersof s d) - {x}" for d
    using x(2) by simp
  then show ?thesis
    using assms(1) ne x unfolding senders_ok_def by (auto simp: assms(3))
qed

lemma ipc_ok_rendezvous:
  assumes "ipc_ok s" "x \<in> set (sendersof s (k_current s))" "st s (k_current s) = TASK_RUNNABLE"
    "task_id (k_current s)" "awaits c" "t_pager (k_tasks s (k_current s)) = None \<Longrightarrow> cont_safe c"
  shows "ipc_ok (rendezvous x c s)"
proof -
  have x: "task_id x" "st s x = TASK_BLOCKED" "srcof s x = IPC_DENY" "dest (k_conts s x) = Some (k_current s)"
    "x \<noteq> k_current s"
    using assms(1-3) by (auto simp: ipc_ok_def senders_ok_def)
  have "task_ok (rendezvous x c s) t" if t: "task_id t" for t
  proof -
    have ok: "task_ok s t" using t assms(1) by (simp add: ipc_ok_def)
    consider "t = k_current s" | "t = x" | "t \<noteq> k_current s" "t \<noteq> x" by blast
    then show ?thesis
    proof cases
      case 1
      then show ?thesis using assms(5,6) task_id_pos [OF x(1)] x(5) by (auto simp: task_ok_def awaits_def)
    next
      case 2
      then show ?thesis using ok x by (auto simp: task_ok_def)
    next
      case 3
      then show ?thesis
        using ok assms(3) x task_id_pos [OF t] by (auto simp: task_ok_def IPC_DENY_def)
    qed
  qed
  moreover have "k_current s \<noteq> IDLE_TASK" using assms(4) by auto
  moreover have "x \<noteq> IDLE_TASK" using x(1) by auto
  ultimately show ?thesis
    using assms(1) senders_ok_rendezvous [OF _ assms(2,3)] by (simp add: ipc_ok_def)
qed

lemma wait_message_ok:
  assumes "kinv s" "k_current s \<noteq> IDLE_TASK" "awaits c" "0 \<le> src"
    "t_pager (k_tasks s (k_current s)) = None \<Longrightarrow> cont_safe c"
  shows "returns (wait_message src c s) kinv"
proof -
  have ok: "runq_ok s" "cur_ok s" "ipc_ok s" "res_ok s" "senders_ok s"
    using assms(1) by (simp_all add: kinv_def ipc_ok_def)
  have cur: "task_id (k_current s)" "st s (k_current s) = TASK_RUNNABLE"
    using ok(2) assms(2) by (auto simp: cur_ok_def)
  let ?f = "\<lambda>sender. src = IPC_ANY \<or> src = sender"
  show ?thesis
  proof (cases "find ?f (sendersof s (k_current s))")
    case None
    let ?s = "receiving src c s"
    have s': "returns (task_switch ?s) kinv"
      by (rule switch_kinv)
        (use ok cur assms in
          \<open>simp_all add: runq_ok_receiving ipc_ok_receiving res_ok_receiving awaits_def\<close>)
    have "wait_message src c s = task_switch ?s"
      using None cur by (simp add: wait_message_def resume_sender_def task_block_def receiving_def
        upd_task_def set_cont_def)
    with s' show ?thesis by simp
  next
    case (Some x)
    then have xin: "x \<in> set (sendersof s (k_current s))"
      by (auto simp: find_Some_iff)
    then have x: "task_id x" "st s x = TASK_BLOCKED" "srcof s x = IPC_DENY" "x \<noteq> k_current s"
      using ok(5) cur by (auto simp: senders_ok_def)
    let ?s = "rendezvous x c s"
    have r: "runq_ok (unlink_sender x (resumed x s))"
      by (rule runq_ok_frame [OF _ _ _ _ runq_ok_resumed [OF ok(1) x(1,2,4)]]) simp_all
    have "runq_ok ?s"
      by (rule runq_ok_receiving [OF r]) (use ok(2) x in \<open>auto simp: cur_ok_def\<close>)
    moreover have "res_ok ?s"
      by (rule res_ok_frame [OF _ _ _ _ _ _ _ ok(4)]) (use x cur in \<open>auto simp: res_ok_klog ok(4)\<close>)
    moreover have "ipc_ok ?s"
      by (rule ipc_ok_rendezvous [OF ok(3) xin cur(2,1) assms(3,5)])
    ultimately have s': "returns (task_switch ?s) kinv"
      using switch_kinv [of ?s] cur by auto
    have "wait_message src c s = task_switch ?s"
      using Some cur x task_resume_Some [OF ok(1) x(1,2)]
      by (simp add: wait_message_def resume_sender_def task_block_def receiving_def
        upd_task_def set_cont_def unlink_sender_def)
    with s' show ?thesis by simp
  qed
qed

section \<open>Sending\<close>

lemma kinv_blocked:
  "kinv s \<Longrightarrow> task_id t \<Longrightarrow> st s t = TASK_BLOCKED \<Longrightarrow> blocked_ok (srcof s t) (k_conts s t)"
  by (simp add: kinv_def ipc_ok_def task_ok_def)

lemma kinv_upd_task:
  assumes "kinv s"
    "\<And>k. t_state (f k) = t_state k" "\<And>k. t_src (f k) = t_src k" "\<And>k. t_senders (f k) = t_senders k"
    "\<And>k. t_quantum (f k) = t_quantum k" "\<And>k. t_priority (f k) = t_priority k"
    "\<And>k. t_pager (f k) = t_pager k" "\<And>k. t_ref_count (f k) = t_ref_count k"
    "\<And>k. t_caps (f k) = t_caps k" "\<And>k. t_name (f k) = t_name k"
    "aborted (k_tasks s d) \<Longrightarrow> dest (k_conts s d) \<noteq> None \<Longrightarrow> aborted (f (k_tasks s d))"
  shows "kinv (upd_task d f s)"
proof -
  have ok: "runq_ok s" "cur_ok s" "ipc_ok s" "res_ok s"
    using assms(1) by (simp_all add: kinv_def)
  have "ipc_ok (upd_task d f s)"
    by (rule ipc_ok_frame [OF _ _ _ _ _ _ ok(3)]) (use assms(11) in \<open>auto simp: assms(2-10)\<close>)
  moreover have "res_ok (upd_task d f s)"
    by (rule res_ok_frame [OF _ _ _ _ _ _ _ ok(4)]) (simp_all add: assms res_ok_klog ok)
  moreover have "runq_ok (upd_task d f s)"
    by (rule runq_ok_frame [OF _ _ _ _ ok(1)]) (simp_all add: assms)
  moreover have "cur_ok (upd_task d f s)"
    by (rule cur_ok_frame [OF _ _ _ ok(2)]) (simp_all add: assms)
  ultimately show ?thesis by (simp add: kinv_def)
qed

lemma resumed_kinv:
  assumes "kinv_run s" "task_id d" "st s d = TASK_BLOCKED" "srcof s d = IPC_ANY \<or> srcof s d = k_current s"
  shows "task_resume d s = Some (resumed d s)" "kinv_run (resumed d s)"
proof -
  have ok: "runq_ok s" "cur_ok s" "ipc_ok s" "res_ok s" "k_conts s (k_current s) = In_User"
    using assms(1) by (simp_all add: kinv_run_def kinv_def)
  have ne: "d \<noteq> k_current s"
    using assms(2,3) ok(2) by (auto simp: cur_ok_def)
  have src: "srcof s d \<noteq> IPC_DENY"
    using assms(4) ok(2) task_id_pos [of "k_current s"]
    by (auto simp: cur_ok_def IPC_ANY_def IPC_DENY_def IDLE_TASK_def)
  have partner: "dest (k_conts s t) \<noteq> Some d" if "task_id t" "srcof s d = t" for t
    using that assms(4) ok(5) by (auto simp: IPC_ANY_def)
  show "task_resume d s = Some (resumed d s)"
    by (rule task_resume_Some [OF ok(1) assms(2,3)])
  have "cur_ok (resumed d s)"
    using ok(2) ne by (auto simp: cur_ok_def)
  then show "kinv_run (resumed d s)"
    using runq_ok_resumed [OF ok(1) assms(2,3) ne] ipc_ok_resumed [OF ok(3) assms(2,3) src partner]
      res_ok_resumed [OF ok(4) assms(3)] ok(5)
    by (simp add: kinv_run_def kinv_def)
qed

definition same_cur :: "kernel \<Rightarrow> kernel \<Rightarrow> bool" where
  "same_cur s s' \<longleftrightarrow> k_current s' = k_current s \<and>
     t_pager (k_tasks s' (k_current s)) = t_pager (k_tasks s (k_current s))"

lemma deliver_ok:
  assumes "kinv_run s" "task_id d" "receiver_is_ready d s"
  shows "returns (deliver d m flags s) (\<lambda>s'. kinv_run s' \<and> same_cur s s')"
proof -
  let ?f = "\<lambda>k. k\<lparr>t_m := m\<lparr>m_src := if flags AND IPC_KERNEL \<noteq> 0 then KERNEL_TASK else k_current s\<rparr>\<rparr>"
  let ?s = "upd_task d ?f s"
  have "kinv ?s"
    by (rule kinv_upd_task) (use assms(1) in \<open>simp_all add: kinv_run_def\<close>)
  then have k: "kinv_run ?s"
    using assms(1) by (simp add: kinv_run_def)
  have b: "st ?s d = TASK_BLOCKED" "srcof ?s d = IPC_ANY \<or> srcof ?s d = k_current ?s"
    using assms(3) by (auto simp: receiver_is_ready_def)
  show ?thesis
    using resumed_kinv [OF k assms(2) b] by (simp add: deliver_def Let_def same_cur_def)
qed

lemma aborted_or: "aborted k \<Longrightarrow> aborted (k\<lparr>t_notifications := t_notifications k OR n\<rparr>)"
proof -
  assume "aborted k"
  moreover have "(t_notifications k OR n) AND NOTIFY_ABORTED =
      (t_notifications k AND NOTIFY_ABORTED) OR (n AND NOTIFY_ABORTED)"
    by (rule bit_word_eqI) (auto simp: bit_simps)
  ultimately show ?thesis
    by (auto simp: aborted_def or_eq_0_iff)
qed

lemma notify_ok:
  assumes "kinv_run s" "task_id d"
  shows "returns (notify d n s) (\<lambda>s'. kinv_run s' \<and> same_cur s s')"
proof (cases "st s d = TASK_BLOCKED \<and> srcof s d = IPC_ANY")
  case True
  let ?f = "\<lambda>k. k\<lparr>t_m := (t_m k)\<lparr>m_type := NOTIFICATIONS_MSG, m_src := KERNEL_TASK,
                         m_body := Notifications_data (t_notifications k OR n)\<rparr>,
                t_notifications := 0\<rparr>"
  let ?s = "upd_task d ?f s"
  have "blocked_ok (srcof s d) (k_conts s d)"
    using assms True by (intro kinv_blocked) (simp_all add: kinv_run_def)
  then have "dest (k_conts s d) = None"
    using True by (cases "k_conts s d") (auto simp: IPC_ANY_def IPC_DENY_def)
  then have "kinv ?s"
    by (intro kinv_upd_task) (use assms(1) in \<open>simp_all add: kinv_run_def\<close>)
  then have k: "kinv_run ?s" using assms(1) by (simp add: kinv_run_def)
  have b: "st ?s d = TASK_BLOCKED" "srcof ?s d = IPC_ANY \<or> srcof ?s d = k_current ?s"
    using True by auto
  show ?thesis
    using True resumed_kinv [OF k assms(2) b] by (simp add: notify_def same_cur_def)
next
  case False
  let ?f = "\<lambda>k. k\<lparr>t_notifications := t_notifications k OR n\<rparr>"
  have "kinv (upd_task d ?f s)"
    by (rule kinv_upd_task) (use assms(1) in \<open>simp_all add: kinv_run_def aborted_or\<close>)
  with False assms(1) show ?thesis
    by (auto simp: notify_def kinv_run_def same_cur_def)
qed

lemma wait_receiver_ok:
  assumes "kinv s" "k_current s \<noteq> IDLE_TASK" "st s d \<noteq> TASK_UNUSED" "d \<noteq> k_current s"
    "cont_ok c" "dest c = Some d" "t_pager (k_tasks s (k_current s)) = None \<Longrightarrow> cont_safe c"
  shows "returns (wait_receiver d c s) kinv"
proof -
  let ?r = "receiving IPC_DENY c s"
  let ?s = "upd_task d (\<lambda>k. k\<lparr>t_senders := t_senders k @ [k_current s]\<rparr>) ?r"
  have ok: "runq_ok s" "cur_ok s" "ipc_ok s" "res_ok s" "senders_ok s"
    using assms(1) by (simp_all add: kinv_def ipc_ok_def)
  have cur: "task_id (k_current s)" "st s (k_current s) = TASK_RUNNABLE"
    using ok(2) assms(2) by (auto simp: cur_ok_def)
  have d: "task_id d" and b: "blocked_ok IPC_DENY c"
    using assms(5,6) by (cases c; simp)+
  have n: "k_current s \<notin> set (sendersof s d')" for d'
    using ok(5) cur by (auto simp: senders_ok_def)
  have r: "ipc_ok ?r"
    by (rule ipc_ok_receiving [OF ok(3) cur(2,1) assms(5) b assms(7)])
  have "senders_ok ?s"
    using ok(5) n d assms(3,4,6) cur unfolding senders_ok_def by auto
  moreover have "task_ok ?s t" if "task_id t" for t
    using r that unfolding ipc_ok_def task_ok_def by auto
  ultimately have "ipc_ok ?s"
    using r by (simp add: ipc_ok_def)
  moreover have "runq_ok ?s"
    by (rule runq_ok_frame [OF _ _ _ _ runq_ok_receiving [OF ok(1,2)]]) simp_all
  moreover have "res_ok ?s"
    by (rule res_ok_frame [OF _ _ _ _ _ _ _ res_ok_receiving [OF ok(4) cur(2)]])
      (auto simp: res_ok_klog ok(4))
  ultimately have s': "returns (task_switch ?s) kinv"
    using switch_kinv [of ?s] cur by auto
  have "wait_receiver d c s = task_switch ?s"
    using n cur assms(4)
    by (simp add: wait_receiver_def Let_def task_block_def receiving_def upd_task_def set_cont_def)
      (rule arg_cong [where f = task_switch], simp)
  with s' show ?thesis by simp
qed

lemma exit_wait_ok:
  assumes "kinv s" "k_current s \<noteq> IDLE_TASK"
  shows "returns (exit_wait s) kinv"
proof -
  let ?s = "receiving IPC_DENY Exited s"
  have ok: "runq_ok s" "cur_ok s" "ipc_ok s" "res_ok s"
    using assms(1) by (simp_all add: kinv_def)
  have cur: "task_id (k_current s)" "st s (k_current s) = TASK_RUNNABLE"
    using ok(2) assms(2) by (auto simp: cur_ok_def)
  have s': "returns (task_switch ?s) kinv"
    by (rule switch_kinv)
      (use ok cur in \<open>simp_all add: runq_ok_receiving ipc_ok_receiving res_ok_receiving\<close>)
  have "(\<lambda>k::task. k\<lparr>t_state := TASK_BLOCKED, t_src := IPC_DENY\<rparr>) =
      (\<lambda>k. k\<lparr>t_src := IPC_DENY, t_state := TASK_BLOCKED\<rparr>)"
    by (simp add: fun_eq_iff)
  then have "exit_wait s = task_switch ?s"
    by (simp only: exit_wait_def Let_def receiving_def)
  with s' show ?thesis by simp
qed

section \<open>Whole IPC operations\<close>

text \<open>What an operation run by the current task guarantees: if it returns, the task still
  runs; if it switched, the kernel is in a good state; if it makes the task exit, the task
  still runs, has a pager, and its buffer is not in the kernel.\<close>

fun outcome_ok :: "kernel \<Rightarrow> msgbuf \<Rightarrow> outcome \<times> kernel \<Rightarrow> bool" where
  "outcome_ok s buf (Return err buf', s') \<longleftrightarrow> kinv_run s' \<and> same_cur s s' \<and>
     ((\<exists>m. buf' = Kmsg m) \<longleftrightarrow> (\<exists>m. buf = Kmsg m))"
| "outcome_ok s buf (Switched, s') \<longleftrightarrow> kinv s'"
| "outcome_ok s buf (Exit e, s') \<longleftrightarrow> kinv_run s' \<and> same_cur s s' \<and> (\<exists>p. buf = Umsg p) \<and>
     t_pager (k_tasks s (k_current s)) \<noteq> None"

definition run_safe :: "kernel \<Rightarrow> msgbuf \<Rightarrow> ipc_caller \<Rightarrow> bool" where
  "run_safe s buf caller \<longleftrightarrow>
     (t_pager (k_tasks s (k_current s)) = None \<longrightarrow> buf_safe buf \<and> caller = By_Syscall)"

lemma same_cur_refl [simp]: "same_cur s s" by (simp add: same_cur_def)

lemma same_cur_trans: "same_cur s s' \<Longrightarrow> same_cur s' s'' \<Longrightarrow> same_cur s s''"
  by (simp add: same_cur_def)

lemma run_safe_cur: "same_cur s s' \<Longrightarrow> run_safe s buf caller \<Longrightarrow> run_safe s' buf caller"
  by (simp add: same_cur_def run_safe_def)

lemma kinv_run_umem [simp]: "kinv_run (s\<lparr>k_umem := m\<rparr>) = kinv_run s"
  and kinv_run_uret [simp]: "kinv_run (s\<lparr>k_uret := r\<rparr>) = kinv_run s"
  and kinv_run_pmem [simp]: "kinv_run (s\<lparr>k_pmem := pm\<rparr>) = kinv_run s"
  and kinv_run_console [simp]: "kinv_run (s\<lparr>k_console := b\<rparr>) = kinv_run s"
  and kinv_run_ubytes [simp]: "kinv_run (s\<lparr>k_ubytes := u\<rparr>) = kinv_run s"
  and kinv_run_input [simp]: "kinv_run (s\<lparr>k_input := i\<rparr>) = kinv_run s"
  by (simp_all add: kinv_run_def kinv_def runq_ok_def cur_ok_def ipc_ok_def task_ok_def senders_ok_def
    res_ok_def paged_by_def)

lemma copy_out_ok:
  assumes "kinv_run s" "buf_ok buf flags caller" "run_safe s buf caller"
  shows "returns (copy_out buf flags m s) (outcome_ok s buf)"
  using assms
  by (cases buf) (auto simp: copy_out_def buf_ok_def memcpy_to_user_def run_safe_def same_cur_def)

lemma outcome_ok_current:
  "outcome_ok s' buf r \<Longrightarrow> same_cur s s' \<Longrightarrow> outcome_ok s buf r"
  by (cases r; cases "fst r") (auto simp: same_cur_def)

lemma ipc_recv_ok:
  assumes "kinv_run s" "k_current s \<noteq> IDLE_TASK" "buf_ok buf flags caller" "0 \<le> src" "run_safe s buf caller"
  shows "returns (ipc_recv src buf flags caller s) (outcome_ok s buf)"
proof -
  let ?s = "upd_task (k_current s) (\<lambda>k. k\<lparr>t_notifications := 0\<rparr>) s"
  have "kinv ?s"
    by (rule kinv_upd_task) (use assms(1) in \<open>simp_all add: kinv_run_def\<close>)
  then have k: "kinv_run ?s" "same_cur s ?s"
    using assms(1) by (simp_all add: kinv_run_def same_cur_def)
  have n: "returns (copy_out buf flags m ?s) (outcome_ok s buf)" for m
    by (rule returns_mono [OF copy_out_ok [OF k(1) assms(3) run_safe_cur [OF k(2) assms(5)]]])
      (erule outcome_ok_current, rule k(2))
  have "returns (wait_message src (Recv_Blocked buf flags caller) s) kinv"
    by (rule wait_message_ok) (use assms in \<open>simp_all add: kinv_run_def awaits_def run_safe_def\<close>)
  then have "returns (wait_message src (Recv_Blocked buf flags caller) s \<bind> (\<lambda>s. Some (Switched, s)))
      (outcome_ok s buf)"
    by (rule returns_bind) simp
  with n assms(1) show ?thesis
    by (simp add: ipc_recv_def Let_def)
qed

lemma copy_in_ok:
  assumes "buf_ok buf flags caller" "run_safe s buf caller"
  shows "returns (copy_in buf flags s) (\<lambda>r. \<forall>e. r = Inl e \<longrightarrow>
    (\<exists>p. buf = Umsg p) \<and> t_pager (k_tasks s (k_current s)) \<noteq> None)"
  using assms by (cases buf) (auto simp: copy_in_def buf_ok_def memcpy_from_user_def run_safe_def)

lemma ipc_send_ok:
  assumes "kinv_run s" "k_current s \<noteq> IDLE_TASK" "buf_ok buf flags caller" "0 \<le> src" "run_safe s buf caller"
    "inuse s d" "d \<noteq> k_current s"
  shows "returns (if receiver_is_ready d s
      then do { s \<leftarrow> deliver d m flags s; ipc_recv src buf flags caller s }
      else if flags AND IPC_NOBLOCK \<noteq> 0 then Some (Return ERR_WOULD_BLOCK buf, s)
      else do { s \<leftarrow> wait_receiver d (Send_Blocked d src buf flags m caller) s; Some (Switched, s) })
    (outcome_ok s buf)"
proof -
  have "returns (deliver d m flags s \<bind> ipc_recv src buf flags caller) (outcome_ok s buf)"
    if r: "receiver_is_ready d s"
  proof (rule returns_bind [OF deliver_ok [OF assms(1) _ r]])
    show "task_id d" using assms(6) by simp
    fix s'
    assume s': "kinv_run s' \<and> same_cur s s'"
    have "returns (ipc_recv src buf flags caller s') (outcome_ok s' buf)"
      by (rule ipc_recv_ok) (use s' assms run_safe_cur in \<open>auto simp: same_cur_def\<close>)
    then show "returns (ipc_recv src buf flags caller s') (outcome_ok s buf)"
      by (rule returns_mono) (erule outcome_ok_current, simp add: s')
  qed
  moreover have "returns (wait_receiver d (Send_Blocked d src buf flags m caller) s \<bind> (\<lambda>s. Some (Switched, s)))
      (outcome_ok s buf)"
    by (rule returns_bind [OF wait_receiver_ok]) (use assms in \<open>auto simp: kinv_run_def run_safe_def\<close>)
  ultimately show ?thesis
    using assms(1) by simp
qed

lemma ipc_slowpath_ok:
  assumes "kinv_run s" "k_current s \<noteq> IDLE_TASK" "buf_ok buf flags caller" "0 \<le> src" "run_safe s buf caller"
    "flags AND IPC_SEND \<noteq> 0 \<Longrightarrow> \<exists>d. dst = Some d \<and> inuse s d \<and> d \<noteq> k_current s"
  shows "returns (ipc_slowpath dst src buf flags caller s) (outcome_ok s buf)"
proof (cases "flags AND IPC_SEND = 0")
  case True
  then show ?thesis
    using ipc_recv_ok [OF assms(1-5)] by (simp add: ipc_slowpath_def)
next
  case False
  then obtain d where d: "dst = Some d" "inuse s d" "d \<noteq> k_current s"
    using assms(6) by auto
  have "returns (copy_in buf flags s \<bind> case_sum (\<lambda>e. Some (Exit e, s))
     (\<lambda>m. if receiver_is_ready d s
      then do { s \<leftarrow> deliver d m flags s; ipc_recv src buf flags caller s }
      else if flags AND IPC_NOBLOCK \<noteq> 0 then Some (Return ERR_WOULD_BLOCK buf, s)
      else do { s \<leftarrow> wait_receiver d (Send_Blocked d src buf flags m caller) s; Some (Switched, s) }))
    (outcome_ok s buf)"
    by (rule returns_bind [OF copy_in_ok [OF assms(3,5)]])
      (use assms(1) ipc_send_ok [OF assms(1-5) d(2,3)] in \<open>auto split: sum.splits\<close>)
  then show ?thesis
    using False d(1) by (simp add: ipc_slowpath_def)
qed

lemma call_not_kernel: "flags AND NOT IPC_NOBLOCK = IPC_CALL \<Longrightarrow> flags AND IPC_KERNEL = 0"
proof -
  assume "flags AND NOT IPC_NOBLOCK = IPC_CALL"
  then have "(flags AND NOT IPC_NOBLOCK) AND IPC_KERNEL = IPC_CALL AND IPC_KERNEL" by simp
  moreover have "(flags AND NOT IPC_NOBLOCK) AND IPC_KERNEL = flags AND (NOT IPC_NOBLOCK AND IPC_KERNEL)"
    by (rule and.assoc)
  moreover have "NOT IPC_NOBLOCK AND IPC_KERNEL = IPC_KERNEL" "IPC_CALL AND IPC_KERNEL = 0"
    by (simp_all add: kconst)
  ultimately show ?thesis by simp
qed

lemma ipc_total:
  assumes "kinv_run s" "k_current s \<noteq> IDLE_TASK" "buf_ok buf flags caller" "0 \<le> src"
    "run_safe s buf caller" "\<And>d. dst = Some d \<Longrightarrow> inuse s d" "flags AND IPC_SEND \<noteq> 0 \<Longrightarrow> dst \<noteq> None"
  shows "returns (ipc dst src buf flags caller s) (outcome_ok s buf)"
proof (cases "dst = Some (k_current s)")
  case True
  then show ?thesis using assms(1) by (simp add: ipc_def)
next
  case other: False
  have dst: "\<exists>d. dst = Some d \<and> inuse s d \<and> d \<noteq> k_current s" if "flags AND IPC_SEND \<noteq> 0"
    using assms(6,7) that other by auto
  show ?thesis
  proof (cases "fastpath dst flags s")
    case False
    then show ?thesis
      using ipc_slowpath_ok [OF assms(1-5) dst] other assms(7) by (auto simp: ipc_def)
  next
    case True
    then obtain d where d: "dst = Some d" "receiver_is_ready d s" "inuse s d"
      using assms(6) by (auto simp: fastpath_def split: option.splits)
    have fl: "flags AND IPC_KERNEL = 0"
      using True call_not_kernel by (simp add: fastpath_def)
    then obtain p where p: "buf = Umsg p"
      using assms(3) by (cases buf) (auto simp: buf_ok_def)
    have "returns (deliver d m flags s \<bind> (\<lambda>s. wait_message src (Fastpath_Blocked p) s \<bind>
        (\<lambda>s. Some (Switched, s)))) (outcome_ok s buf)" for m
    proof (rule returns_bind [OF deliver_ok [OF assms(1) _ d(2)]])
      show "task_id d" using d by simp
      fix s'
      assume s': "kinv_run s' \<and> same_cur s s'"
      have "returns (wait_message src (Fastpath_Blocked p) s') kinv"
        by (rule wait_message_ok) (use s' assms p in \<open>simp_all add: kinv_run_def awaits_def same_cur_def run_safe_def\<close>)
      then show "returns (wait_message src (Fastpath_Blocked p) s' \<bind> (\<lambda>s. Some (Switched, s)))
          (outcome_ok s buf)"
        by (rule returns_bind) simp
    qed
    then show ?thesis
      using True other d(1) p fl assms(1,5)
      by (auto simp: ipc_def deliver_def Let_def memcpy_from_user_def run_safe_def)
  qed
qed

lemma kinv_pager:
  assumes "kinv s" "inuse s t" "t_pager (k_tasks s t) = Some p"
  shows "inuse s p"
  by (rule res_ok_pager [OF _ assms(2,3)]) (use assms(1) in \<open>simp add: kinv_def\<close>)

lemma kinv_cur:
  "kinv s \<Longrightarrow> k_current s \<noteq> IDLE_TASK \<Longrightarrow> task_id (k_current s) \<and> st s (k_current s) = TASK_RUNNABLE"
  by (auto simp: kinv_def cur_ok_def)

text \<open>Only the initial task has no pager; everybody else can exit.\<close>

lemma task_exit_ok:
  assumes "kinv_run s" "k_current s \<noteq> IDLE_TASK" "t_pager (k_tasks s (k_current s)) \<noteq> None"
  shows "returns (task_exit e s) kinv"
proof -
  obtain p where p: "t_pager (k_tasks s (k_current s)) = Some p"
    using assms(3) by auto
  have k: "kinv s" using assms(1) by (simp add: kinv_run_def)
  have "inuse s p"
    by (rule kinv_pager [OF k _ p]) (use kinv_cur [OF k assms(2)] in simp)
  let ?m = "\<lparr>m_type = EXCEPTION_MSG, m_src = 0, m_body = Exception_data (k_current s) e\<rparr>"
  have "returns (ipc (Some p) 0 (Kmsg ?m) (IPC_SEND OR IPC_KERNEL) By_Exit s) (outcome_ok s (Kmsg ?m))"
    by (rule ipc_total) (use assms \<open>inuse s p\<close> in \<open>auto simp: buf_ok_def kconst run_safe_def\<close>)
  then have "returns (ipc (Some p) 0 (Kmsg ?m) (IPC_SEND OR IPC_KERNEL) By_Exit s \<bind>
     (\<lambda>(r, s). case r of Return _ _ \<Rightarrow> exit_wait s | Switched \<Rightarrow> Some s | Exit _ \<Rightarrow> None)) kinv"
  proof (rule returns_bind)
    fix rs
    assume "outcome_ok s (Kmsg ?m) rs"
    then show "returns (case rs of (r, s) \<Rightarrow>
        (case r of Return _ _ \<Rightarrow> exit_wait s | Switched \<Rightarrow> Some s | Exit _ \<Rightarrow> None)) kinv"
      using assms(2) exit_wait_ok by (cases rs; cases "fst rs") (auto simp: kinv_run_def same_cur_def)
  qed
  then show ?thesis
    using assms(2) p by (simp add: task_exit_def)
qed

text \<open>Whatever \<open>ipc\<close> did, its caller finishes.\<close>

lemma return_to_ok:
  assumes "outcome_ok s buf r" "k_current s \<noteq> IDLE_TASK"
    "caller = By_Page_Fault \<Longrightarrow> (\<exists>m. buf = Kmsg m) \<and> t_pager (k_tasks s (k_current s)) \<noteq> None"
  shows "returns (return_to caller r) kinv"
proof -
  obtain o' s' where r: "r = (o', s')" by (cases r)
  show ?thesis
  proof (cases o')
    case (Return err buf')
    then have s': "kinv_run s'" "same_cur s s'"
      and b: "caller = By_Page_Fault \<Longrightarrow> \<exists>m. buf' = Kmsg m"
      using assms(1,3) r by auto
    have x: "returns (task_exit e s') kinv" if "caller = By_Page_Fault" for e
      by (rule task_exit_ok) (use s' assms(2,3) that in \<open>auto simp: same_cur_def\<close>)
    have w: "returns (exit_wait s') kinv"
      by (rule exit_wait_ok) (use s' assms(2) in \<open>simp_all add: kinv_run_def same_cur_def\<close>)
    have "kinv (s'\<lparr>k_uret := u\<rparr>)" for u
      using s'(1) kinv_run_uret [where s = s'] by (simp add: kinv_run_def)
    then show ?thesis
      using r Return x w b s' by (cases caller) (auto simp: return_to_def Let_def kinv_run_def)
  next
    case Switched
    then show ?thesis using assms(1) r by (simp add: return_to_def)
  next
    case (Exit e)
    have "returns (task_exit e s') kinv"
      by (rule task_exit_ok) (use assms(1,2) r Exit in \<open>auto simp: same_cur_def\<close>)
    then show ?thesis using r Exit by (simp add: return_to_def)
  qed
qed

section \<open>Running a suspended task\<close>

lemma kinv_consume:
  assumes "kinv s"
  shows "kinv_run (set_cont (k_current s) In_User s)"
proof -
  have ok: "runq_ok s" "cur_ok s" "ipc_ok s" "res_ok s" "senders_ok s"
    using assms by (simp_all add: kinv_def ipc_ok_def)
  let ?s = "set_cont (k_current s) In_User s"
  have n: "k_current s \<notin> set (sendersof s d)" for d
  proof
    assume "k_current s \<in> set (sendersof s d)"
    then have "task_id (k_current s)" "st s (k_current s) = TASK_BLOCKED"
      using ok(5) by (auto simp: senders_ok_def)
    then show False using ok(2) by (auto simp: cur_ok_def)
  qed
  have "task_ok ?s t" if "task_id t" for t
  proof -
    have "task_ok s t" using that ok(3) by (simp add: ipc_ok_def)
    then show ?thesis
      using ok(2) that by (auto simp: task_ok_def cur_ok_def)
  qed
  moreover have "senders_ok ?s"
    using ok(5) n unfolding senders_ok_def by auto
  ultimately have "ipc_ok ?s"
    using ok(3) by (simp add: ipc_ok_def)
  moreover have "runq_ok ?s" "cur_ok ?s"
    using ok(1,2) by (simp_all add: runq_ok_def cur_ok_def)
  moreover have "res_ok ?s"
    by (rule res_ok_frame [OF _ _ _ _ _ _ _ ok(4)]) (simp_all add: res_ok_klog ok)
  ultimately show ?thesis
    by (simp add: kinv_run_def kinv_def)
qed

lemma kinv_cont:
  assumes "kinv s" "k_current s \<noteq> IDLE_TASK"
  shows "cont_ok (k_conts s (k_current s))" "k_conts s (k_current s) \<noteq> Exited"
    "t_pager (k_tasks s (k_current s)) = None \<Longrightarrow> cont_safe (k_conts s (k_current s))"
    "dest (k_conts s (k_current s)) = Some d \<Longrightarrow> \<not> aborted (k_tasks s (k_current s)) \<Longrightarrow> receiver_is_ready d s"
proof -
  have "task_ok s (k_current s)" "st s (k_current s) = TASK_RUNNABLE"
    using assms kinv_cur [OF assms] by (simp_all add: kinv_def ipc_ok_def)
  then show "cont_ok (k_conts s (k_current s))" "k_conts s (k_current s) \<noteq> Exited"
    "t_pager (k_tasks s (k_current s)) = None \<Longrightarrow> cont_safe (k_conts s (k_current s))"
    "dest (k_conts s (k_current s)) = Some d \<Longrightarrow> \<not> aborted (k_tasks s (k_current s)) \<Longrightarrow> receiver_is_ready d s"
    by (auto simp: task_ok_def receiver_is_ready_def)
qed

lemma kresume_send_ok:
  assumes "kinv_run s" "k_current s \<noteq> IDLE_TASK" "buf_ok buf flags caller" "0 \<le> src" "run_safe s buf caller"
    "task_id d" "receiver_is_ready d s"
  shows "returns (do { s \<leftarrow> deliver d m flags s; r \<leftarrow> ipc_recv src buf flags caller s; return_to caller r }) kinv"
proof (rule returns_bind [OF deliver_ok [OF assms(1,6,7)]])
  fix s'
  assume s': "kinv_run s' \<and> same_cur s s'"
  have "returns (ipc_recv src buf flags caller s') (outcome_ok s' buf)"
    by (rule ipc_recv_ok) (use s' assms run_safe_cur in \<open>auto simp: same_cur_def\<close>)
  then show "returns (ipc_recv src buf flags caller s' \<bind> return_to caller) kinv"
    by (rule returns_bind) (erule return_to_ok,
      use s' assms in \<open>auto simp: same_cur_def buf_ok_def run_safe_def split: msgbuf.splits\<close>)
qed

lemma kresume_aborted_ok:
  assumes "kinv_run s" "k_current s \<noteq> IDLE_TASK" "buf_ok buf flags caller" "run_safe s buf caller"
  shows "returns (return_to caller (Return ERR_ABORTED buf,
    upd_task (k_current s) (\<lambda>k. k\<lparr>t_notifications := t_notifications k AND NOT NOTIFY_ABORTED\<rparr>) s)) kinv"
    (is "returns (return_to _ (_, ?s)) _")
proof -
  have "kinv ?s"
    by (rule kinv_upd_task) (use assms(1) in \<open>simp_all add: kinv_run_def\<close>)
  then have "kinv_run ?s" "same_cur s ?s"
    using assms(1) by (simp_all add: kinv_run_def same_cur_def)
  then show ?thesis
    by (intro return_to_ok [of s buf])
      (use assms(2-4) in \<open>auto simp: buf_ok_def run_safe_def split: msgbuf.splits\<close>)
qed

lemma kresume_recv_ok:
  assumes "kinv_run s" "k_current s \<noteq> IDLE_TASK" "buf_ok buf flags caller" "run_safe s buf caller"
  shows "returns (copy_out buf flags m s \<bind> return_to caller) kinv"
  by (rule returns_bind [OF copy_out_ok [OF assms(1,3,4)]], erule return_to_ok)
    (use assms(2-4) in \<open>auto simp: buf_ok_def run_safe_def split: msgbuf.splits\<close>)

text \<open>The task switched to continues and the kernel never fails an assertion.\<close>

lemma kresume_ok:
  assumes "kinv s"
  shows "returns (kresume s) kinv"
proof (cases "k_current s = IDLE_TASK")
  case True
  then have "k_conts s (k_current s) = In_User"
    using assms by (simp add: kinv_def ipc_ok_def)
  then show ?thesis
    using kinv_consume [OF assms] by (simp add: kresume_def Let_def kinv_run_def)
next
  case False
  let ?s = "set_cont (k_current s) In_User s"
  have s: "kinv_run ?s" "k_current ?s \<noteq> IDLE_TASK"
    using kinv_consume [OF assms] False by simp_all
  note c = kinv_cont [OF assms False]
  show ?thesis
  proof (cases "k_conts s (k_current s)")
    case In_User
    then show ?thesis using s by (simp add: kresume_def Let_def kinv_run_def)
  next
    case (Send_Blocked d src buf flags m caller)
    then have b: "buf_ok buf flags caller" "0 \<le> src" "run_safe ?s buf caller" "task_id d"
      using c(1,3) by (auto simp: run_safe_def)
    have "receiver_is_ready d ?s" if "\<not> aborted (k_tasks s (k_current s))"
      using c(4) [of d] Send_Blocked that by (simp add: receiver_is_ready_def)
    then show ?thesis
      using Send_Blocked kresume_send_ok [OF s b] kresume_aborted_ok [OF s b(1,3)]
      by (simp add: kresume_def Let_def aborted_def)
  next
    case (Recv_Blocked buf flags caller)
    then have "buf_ok buf flags caller" "run_safe ?s buf caller"
      using c(1,3) by (auto simp: run_safe_def)
    then show ?thesis
      using Recv_Blocked kresume_recv_ok [OF s] by (simp add: kresume_def Let_def)
  next
    case (Fastpath_Blocked p)
    then have "buf_ok (Umsg p) 0 By_Syscall" "run_safe ?s (Umsg p) By_Syscall"
      using c(3) by (auto simp: run_safe_def buf_ok_def)
    from kresume_recv_ok [OF s this, of "t_m (k_tasks s (k_current s))"] Fastpath_Blocked show ?thesis
      by (cases "memcpy_to_user p (t_m (k_tasks s (k_current s))) ?s")
        (simp_all add: kresume_def Let_def copy_out_def)
  next
    case Exited
    then show ?thesis using c(2) by simp
  qed
qed

section \<open>Interrupts and page faults\<close>

lemma timer_loop_ok:
  assumes "kinv_run s" "\<forall>t\<in>set ts. task_id t"
  shows "returns (timer_loop ts b s) (\<lambda>(_, s'). kinv_run s' \<and> same_cur s s')"
  using assms
proof (induction ts arbitrary: s b)
  case Nil
  then show ?case by simp
next
  case (Cons t ts)
  let ?s = "upd_task t (\<lambda>k. k\<lparr>t_timeout := to_i32 (t_timeout k - 1)\<rparr>) s"
  have "kinv ?s"
    by (rule kinv_upd_task) (use Cons.prems in \<open>simp_all add: kinv_run_def\<close>)
  then have s: "kinv_run ?s" "same_cur s ?s"
    using Cons.prems by (simp_all add: kinv_run_def same_cur_def)
  have step: "returns (timer_loop ts b' s') (\<lambda>(_, s''). kinv_run s'' \<and> same_cur s s'')"
    if "kinv_run s'" "same_cur s s'" for b' s'
    by (rule returns_mono [OF Cons.IH [OF that(1)]])
      (use Cons.prems that in \<open>auto intro: same_cur_trans\<close>)
  have "returns (notify t NOTIFY_TIMER ?s \<bind> timer_loop ts True) (\<lambda>(_, s''). kinv_run s'' \<and> same_cur s s'')"
    by (rule returns_bind [OF notify_ok [OF s(1)]])
      (use Cons.prems s in \<open>auto intro!: step intro: same_cur_trans\<close>)
  then show ?case
    using step Cons.prems s by (simp add: Let_def)
qed

lemma switch_run_kinv: "kinv s \<Longrightarrow> returns (task_switch s) kinv"
  by (rule switch_kinv) (auto simp: kinv_def cur_ok_def)

lemma handle_timer_irq_ok:
  assumes "kinv_run s"
  shows "returns (handle_timer_irq s) kinv"
  unfolding handle_timer_irq_def
proof (rule returns_bind [OF timer_loop_ok [OF assms]])
  show "\<forall>t\<in>set [1..CONFIG_NUM_TASKS]. task_id t"
    by (simp add: task_id_def)
  fix r :: "bool \<times> kernel"
  obtain b s' where r: "r = (b, s')" by (cases r)
  assume "case r of (_, s') \<Rightarrow> kinv_run s' \<and> same_cur s s'"
  then have k: "kinv s'" by (simp add: r kinv_run_def)
  then have q: "k_current s' = IDLE_TASK \<or> t_quantum (k_tasks s' (k_current s')) \<ge> 0"
    by (auto simp: kinv_def cur_ok_def)
  let ?s = "upd_task (k_current s') (\<lambda>k. k\<lparr>t_quantum := t_quantum k - 1\<rparr>) s'"
  have ok: "runq_ok s'" "cur_ok s'" "ipc_ok s'" "res_ok s'"
    using k by (simp_all add: kinv_def)
  have "runq_ok ?s"
    by (rule runq_ok_frame [OF _ _ _ _ ok(1)]) simp_all
  moreover have "ipc_ok ?s"
    by (rule ipc_ok_frame [OF _ _ _ _ _ _ ok(3)]) auto
  moreover have "res_ok ?s"
    by (rule res_ok_frame [OF _ _ _ _ _ _ _ ok(4)]) (simp_all add: res_ok_klog ok)
  moreover have "cur_ok ?s" if "t_quantum (k_tasks ?s (k_current s')) \<ge> 0"
    using ok(2) that by (auto simp: cur_ok_def)
  ultimately have "returns (task_switch ?s) kinv" "t_quantum (k_tasks ?s (k_current s')) \<ge> 0 \<Longrightarrow> kinv ?s"
    using ok(2) by (auto intro!: switch_kinv simp: cur_ok_def kinv_def)
  then show "returns (case r of (resumed_by_timeout, s) \<Rightarrow>
      let cur = k_current s in ASSERT (cur = IDLE_TASK \<or> 0 \<le> t_quantum (k_tasks s cur)) \<bind> (\<lambda>_.
        let s = upd_task cur (\<lambda>k. k\<lparr>t_quantum := t_quantum k - 1\<rparr>) s
        in if t_quantum (k_tasks s cur) < 0 \<or> cur = IDLE_TASK \<and> resumed_by_timeout
           then task_switch s else Some s)) kinv"
    using q by (simp add: r Let_def)
qed

lemma handle_irq_ok:
  assumes "kinv_run s" "irq < IRQ_MAX"
  shows "returns (handle_irq irq s) kinv"
proof (cases "k_irq_owners s irq")
  case None
  then show ?thesis using assms by (simp add: handle_irq_def kinv_run_def)
next
  case (Some t)
  have "task_id t"
    using res_ok_irq [OF _ Some] assms(1) by (simp add: kinv_run_def kinv_def)
  have "returns (notify t NOTIFY_IRQ s \<bind> (\<lambda>s. if k_current s = IDLE_TASK then task_switch s else Some s)) kinv"
    by (rule returns_bind [OF notify_ok [OF assms(1) \<open>task_id t\<close>]])
      (use switch_run_kinv in \<open>auto simp: kinv_run_def\<close>)
  then show ?thesis
    using Some assms(2) by (simp add: handle_irq_def)
qed

lemma handle_page_fault_ok:
  assumes "kinv_run s" "k_current s \<noteq> IDLE_TASK" "t_pager (k_tasks s (k_current s)) \<noteq> None"
  shows "returns (handle_page_fault addr ip fault s) kinv"
proof -
  obtain p where p: "t_pager (k_tasks s (k_current s)) = Some p" using assms(3) by auto
  have k: "kinv s" using assms(1) by (simp add: kinv_run_def)
  have u: "inuse s p"
    by (rule kinv_pager [OF k _ p]) (use kinv_cur [OF k assms(2)] in simp)
  let ?m = "\<lparr>m_type = PAGE_FAULT_MSG, m_src = 0, m_body = Page_fault_data (k_current s) addr ip fault\<rparr>"
  have "returns (ipc (Some p) p (Kmsg ?m) (IPC_CALL OR IPC_KERNEL) By_Page_Fault s) (outcome_ok s (Kmsg ?m))"
    by (rule ipc_total)
      (use assms u task_id_pos [of p] in \<open>auto simp: buf_ok_def kconst run_safe_def\<close>)
  then have "returns (ipc (Some p) p (Kmsg ?m) (IPC_CALL OR IPC_KERNEL) By_Page_Fault s \<bind>
      return_to By_Page_Fault) kinv"
    by (rule returns_bind) (erule return_to_ok, use assms in auto)
  then show ?thesis
    using p by (simp add: handle_page_fault_def)
qed

end
