(* ===== verification/Kernel_Task_Inv.thy ===== *)
theory Kernel_Task_Inv
  imports Kernel_Inv
begin

text \<open>
  The operations that create, destroy and reschedule tasks and those on interrupt ownership
  keep the kernel's invariant. Destroying a task needs a hypothesis: that no sender has already
  been woken up to send to it (\<open>no_pending\<close>).
\<close>

section \<open>Creating\<close>

lemma card_paged_by: "card (paged_by s p) \<le> nat CONFIG_NUM_TASKS"
proof -
  have "card (paged_by s p) \<le> card {1..CONFIG_NUM_TASKS}"
    by (rule card_mono) (auto simp: paged_by_def task_id_def)
  then show ?thesis by simp
qed

lemma finite_paged_by: "finite (paged_by s p)"
  by (rule finite_subset [OF _ finite_task_id]) (auto simp: paged_by_def)

text \<open>The state \<open>task_create\<close> leaves: a fresh control block, one more reference to the pager,
  and the task in the run queue.\<close>

definition created :: "task_t \<Rightarrow> task_t \<Rightarrow> u32 \<Rightarrow> u8 list \<Rightarrow> cbuf \<Rightarrow> kernel \<Rightarrow> kernel" where
  "created t p flags caps nm s =
     upd_task p (\<lambda>k. k\<lparr>t_ref_count := (t_ref_count k + 1) mod 2 ^ 32\<rparr>)
       (upd_task t (\<lambda>k. k\<lparr>
            t_state := TASK_BLOCKED, t_flags := flags, t_notifications := 0, t_pager := Some p,
            t_src := IPC_DENY, t_timeout := 0, t_quantum := 0,
            t_priority := int TASK_PRIORITY_MAX - 1, t_ref_count := 0, t_caps := caps,
            t_name := nm, t_senders := []\<rparr>) (set_cont t In_User s))"

lemma created_runq_ok:
  assumes "runq_ok s" "st s t = TASK_UNUSED"
  shows "runq_ok (created t p flags caps nm s)"
proof -
  have "t \<notin> set (k_runqueues s i)" for i
    using assms by (auto simp: runq_ok_def)
  then show ?thesis
    using assms unfolding runq_ok_def created_def by (auto simp: TASK_PRIORITY_MAX_def)
qed

lemma created_ipc_ok:
  assumes "ipc_ok s" "st s t = TASK_UNUSED" "task_id t" "p \<noteq> t"
  shows "ipc_ok (resumed t (created t p flags caps nm s))" (is "ipc_ok ?s")
proof -
  have sok: "senders_ok s" using assms(1) by (simp add: ipc_ok_def)
  have n: "t \<notin> set (sendersof s d)" for d
    using sok assms(2) by (auto simp: senders_ok_def)
  have "senders_ok ?s"
    using sok n no_senders [OF sok assms(2)] assms(3,4) unfolding senders_ok_def created_def by auto
  moreover have "task_ok ?s u" if "task_id u" for u
  proof -
    have "task_ok s u" using that assms(1) by (simp add: ipc_ok_def)
    then show ?thesis
      using assms(2,4) unfolding task_ok_def created_def by (auto split: if_splits)
  qed
  moreover have "t \<noteq> IDLE_TASK" using assms(3) by auto
  ultimately show ?thesis
    using assms(1) by (simp add: ipc_ok_def created_def)
qed

lemma created_res_ok:
  assumes "res_ok s" "st s t = TASK_UNUSED" "task_id t" "inuse s p"
    "length caps = BITMAP_SIZE CAP_MAX" "length nm = CONFIG_TASK_NAME_LEN"
  shows "res_ok (created t p flags caps nm s)" (is "res_ok ?s")
proof -
  have ne: "p \<noteq> t" using assms(2,4) by auto
  note res = res_okD [OF assms(1)]
  have none: "paged_by s t = {}"
    using res(2) [of _ t] assms(2) unfolding paged_by_def by blast
  have pg: "paged_by ?s q = (if q = p then insert t (paged_by s p) else paged_by s q)" for q
    using assms(2,3) ne by (auto simp: paged_by_def created_def)
  have "t \<notin> paged_by s p" using assms(2) by (simp add: paged_by_def)
  then have c: "card (paged_by ?s p) = card (paged_by s p) + 1"
    by (simp add: pg finite_paged_by)
  have b: "card (paged_by s p) + 1 < 2 ^ 32"
    using card_paged_by [of s p] by (simp add: CONFIG_NUM_TASKS_def)
  have r: "t_ref_count (k_tasks ?s q) = card (paged_by ?s q)" if q: "task_id q" for q
  proof -
    consider "q = p" | "q = t" | "q \<noteq> p" "q \<noteq> t" by blast
    then show ?thesis
    proof cases
      case 1
      then show ?thesis using c b ne res(3) [OF q] by (simp add: created_def)
    next
      case 2
      then show ?thesis using ne none pg [of t] by (simp add: created_def)
    next
      case 3
      then show ?thesis using pg [of q] res(3) [OF q] by (simp add: created_def)
    qed
  qed
  have u: "st ?s q = TASK_UNUSED \<longleftrightarrow> st s q = TASK_UNUSED \<and> q \<noteq> t"
    and g: "t_pager (k_tasks ?s q) = (if q = t then Some p else t_pager (k_tasks s q))"
    and l: "length (t_caps (k_tasks ?s q)) = BITMAP_SIZE CAP_MAX"
      "length (t_name (k_tasks ?s q)) = CONFIG_TASK_NAME_LEN" for q
    using ne assms(5,6) res(5,6) by (simp_all add: created_def)
  have i: "k_irq_owners ?s = k_irq_owners s" "k_klog ?s = k_klog s"
    by (simp_all add: created_def)
  have "t_pager (k_tasks ?s q) \<noteq> None" if "inuse ?s q" "q \<noteq> INIT_TASK" for q
    using res(1) [of q] that by (auto simp: u g)
  moreover have "inuse ?s q'" if "inuse ?s q" "t_pager (k_tasks ?s q) = Some q'" for q q'
    using res(2) [of q q'] that assms(3,4) by (auto simp: u g split: if_splits)
  moreover have "irq < IRQ_MAX \<and> inuse ?s q" if "k_irq_owners ?s irq = Some q" for irq q
    using res(4) [of irq q] that by (simp add: u i(1))
  moreover have "klog_inv (k_klog ?s)"
    using res(7) by (simp add: i(2))
  ultimately show ?thesis
    unfolding res_ok_def using r l by blast
qed

lemma created_ok:
  assumes "kinv_run s" "st s t = TASK_UNUSED" "task_id t" "inuse s p"
    "length caps = BITMAP_SIZE CAP_MAX" "length nm = CONFIG_TASK_NAME_LEN"
  shows "task_resume t (created t p flags caps nm s) = Some (resumed t (created t p flags caps nm s))"
    "kinv_run (resumed t (created t p flags caps nm s))"
proof -
  let ?c = "created t p flags caps nm s"
  have ok: "runq_ok s" "cur_ok s" "ipc_ok s" "res_ok s" "k_conts s (k_current s) = In_User"
    using assms(1) by (simp_all add: kinv_run_def kinv_def)
  have ne: "p \<noteq> t" "t \<noteq> k_current s" "t \<noteq> IDLE_TASK"
    using assms(2-4) ok(2) by (auto simp: cur_ok_def)
  have b: "st ?c t = TASK_BLOCKED" "k_current ?c = k_current s"
    using ne by (simp_all add: created_def)
  note q = created_runq_ok [OF ok(1) assms(2), of p flags caps nm]
  show "task_resume t ?c = Some (resumed t ?c)"
    by (rule task_resume_Some [OF q assms(3) b(1)])
  have "runq_ok (resumed t ?c)"
    by (rule runq_ok_resumed [OF q assms(3) b(1)]) (use ne b in simp)
  moreover have "cur_ok (resumed t ?c)"
    using ok(2) ne by (auto simp: cur_ok_def created_def)
  moreover have "res_ok (resumed t ?c)"
    by (rule res_ok_resumed [OF created_res_ok [OF ok(4) assms(2-6)] b(1)])
  moreover have "ipc_ok (resumed t ?c)"
    by (rule created_ipc_ok [OF ok(3) assms(2,3) ne(1)])
  ultimately show "kinv_run (resumed t ?c)"
    using ok(5) b by (simp add: kinv_run_def kinv_def created_def)
qed

text \<open>Creating a task below the last identifier, with a name that is terminated.\<close>

lemma task_create_ok:
  assumes "kinv_run s" "task_id t" "t < CONFIG_NUM_TASKS" "inuse s p" "cstr name nm"
  shows "returns (task_create ly t name ip (Some p) flags s) (\<lambda>(err, s'). kinv_run s')"
proof (cases "st s t = TASK_UNUSED \<and> flags AND NOT allowed_flags = 0 \<and> flags AND TASK_ABI_EMU = 0 \<and>
    flags AND TASK_HV = 0 \<and> is_canonical_addr ip")
  case False
  then show ?thesis
    using assms(1) by (auto simp: task_create_def arch_task_create_def)
next
  case True
  have res: "res_ok s" using assms(1) by (simp add: kinv_run_def kinv_def)
  obtain pm where pm: "arch_task_create ly CONFIG_NUM_TASKS t ip (k_pmem s) = Some (OK, pm)"
    using True assms(2,3) by (auto simp: arch_task_create_def task_id_def Let_def)
  obtain caps where caps: "bitmap_fill (t_caps (k_tasks s t)) (BITMAP_SIZE CAP_MAX) (flags AND TASK_ALL_CAPS \<noteq> 0) = Some caps"
    "length caps = BITMAP_SIZE CAP_MAX"
    using res_ok_len(1) [OF res] by (simp add: bitmap_fill_def)
  obtain d where d: "strncpy2 (t_name (k_tasks s t)) name CONFIG_TASK_NAME_LEN = Some d"
    "length d = CONFIG_TASK_NAME_LEN"
    using strncpy2_is_cstr [OF assms(5), of CONFIG_TASK_NAME_LEN "t_name (k_tasks s t)"] res_ok_len(2) [OF res]
    by (auto simp: CONFIG_TASK_NAME_LEN_def)
  have "flags AND TASK_SCHED = 0"
  proof -
    have "TASK_SCHED = NOT allowed_flags AND TASK_SCHED" by (simp add: kconst allowed_flags_def)
    then have "flags AND TASK_SCHED = (flags AND NOT allowed_flags) AND TASK_SCHED"
      by (metis and.assoc)
    with True show ?thesis by simp
  qed
  moreover have "t \<noteq> IDLE_TASK" using assms(2) by auto
  ultimately have "task_create ly t name ip (Some p) flags s =
      task_resume t (created t p flags caps d (s\<lparr>k_pmem := pm\<rparr>)) \<bind> (\<lambda>s. Some (OK, s))"
    using True pm caps(1) d(1) by (simp add: task_create_def created_def)
  then show ?thesis
    using created_ok [of "s\<lparr>k_pmem := pm\<rparr>" t p caps d flags] True assms caps(2) d(2) by simp
qed

section \<open>Destroying\<close>

text \<open>The loops of \<open>task_destroy\<close> in closed form.\<close>

definition abort_all :: "task_t set \<Rightarrow> task_t \<Rightarrow> task \<Rightarrow> task" where
  "abort_all xs u k = k\<lparr>
     t_notifications := (if u \<in> xs then t_notifications k OR NOTIFY_ABORTED else t_notifications k),
     t_senders := filter (\<lambda>x. x \<notin> xs) (t_senders k)\<rparr>"

lemma abort_all_insert:
  assumes "distinct (t_senders k)" "x \<notin> xs"
  shows "abort_all xs u ((if u = x then (\<lambda>k. k\<lparr>t_notifications := t_notifications k OR NOTIFY_ABORTED\<rparr>) else id) k
      \<lparr>t_senders := remove1 x (t_senders k)\<rparr>) = abort_all (insert x xs) u k"
proof -
  have "filter (\<lambda>y. y \<notin> xs) (remove1 x (t_senders k)) = filter (\<lambda>y. y \<notin> insert x xs) (t_senders k)"
    using assms(1) by (simp add: distinct_remove1_removeAll removeAll_filter_not_eq filter_filter)
      (rule filter_cong, auto)
  then show ?thesis
    using assms(2) by (simp add: abort_all_def)
qed

lemma abort_senders_eq:
  assumes "\<And>d. distinct (sendersof s d)" "distinct xs" "\<And>x. x \<in> set xs \<Longrightarrow> srcof s x \<noteq> IPC_ANY"
  shows "abort_senders xs s = Some (s\<lparr>k_tasks := (\<lambda>u. abort_all (set xs) u (k_tasks s u))\<rparr>)"
  using assms
proof (induction xs arbitrary: s)
  case Nil
  then show ?case by (simp add: abort_all_def)
next
  case (Cons x xs)
  let ?s = "unlink_sender x (upd_task x (\<lambda>k. k\<lparr>t_notifications := t_notifications k OR NOTIFY_ABORTED\<rparr>) s)"
  have n: "notify x NOTIFY_ABORTED s =
      Some (upd_task x (\<lambda>k. k\<lparr>t_notifications := t_notifications k OR NOTIFY_ABORTED\<rparr>) s)"
    using Cons.prems(3) by (simp add: notify_def)
  have "abort_senders xs ?s = Some (?s\<lparr>k_tasks := (\<lambda>u. abort_all (set xs) u (k_tasks ?s u))\<rparr>)"
    by (rule Cons.IH) (use Cons.prems in auto)
  moreover have "abort_all (set xs) u (k_tasks ?s u) = abort_all (set (x # xs)) u (k_tasks s u)" for u
    using abort_all_insert [of "k_tasks s u" x "set xs" u] Cons.prems by (cases "u = x") simp_all
  ultimately show ?case
    using n by (simp add: upd_task_def unlink_sender_def)
qed

definition disown :: "task_t \<Rightarrow> nat set \<Rightarrow> (nat \<Rightarrow> task_t option) \<Rightarrow> nat \<Rightarrow> task_t option" where
  "disown t is f = (\<lambda>i. if i \<in> is \<and> f i = Some t then None else f i)"

lemma disown_insert:
  "f irq = Some t \<Longrightarrow> disown t is (f(irq := None)) = disown t (insert irq is) f"
  "f irq \<noteq> Some t \<Longrightarrow> disown t is f = disown t (insert irq is) f"
  by (auto simp: disown_def fun_eq_iff)

lemma release_irqs_eq:
  assumes "\<forall>i\<in>set irqs. i \<le> 255"
  shows "\<exists>e. release_irqs t irqs s =
    Some (s\<lparr>k_irq_enabled := e, k_irq_owners := disown t (set irqs) (k_irq_owners s)\<rparr>)"
  using assms
proof (induction irqs arbitrary: s)
  case Nil
  then show ?case by (intro exI [of _ "k_irq_enabled s"]) (simp add: disown_def)
next
  case (Cons irq irqs)
  show ?case
  proof (cases "k_irq_owners s irq = Some t")
    case True
    let ?s = "s\<lparr>k_irq_enabled := (k_irq_enabled s)(irq := False), k_irq_owners := (k_irq_owners s)(irq := None)\<rparr>"
    obtain e where "release_irqs t irqs ?s =
        Some (?s\<lparr>k_irq_enabled := e, k_irq_owners := disown t (set irqs) (k_irq_owners ?s)\<rparr>)"
      using Cons.IH [of ?s] Cons.prems by (auto simp del: fun_upd_apply)
    then show ?thesis
      using True Cons.prems disown_insert(1) [of "k_irq_owners s" irq t "set irqs"]
      by (intro exI [of _ e]) (simp add: arch_disable_irq_def)
  next
    case False
    then show ?thesis
      using Cons.IH [of s] Cons.prems disown_insert(2) [of "k_irq_owners s" irq t "set irqs"] by simp
  qed
qed

text \<open>The control blocks when the senders are about to be aborted, and what the state is at the
  end.\<close>

definition unref :: "task_t option \<Rightarrow> task_t \<Rightarrow> task \<Rightarrow> task" where
  "unref p u k = (if p = Some u then k\<lparr>t_ref_count := (t_ref_count k + 2 ^ 32 - 1) mod 2 ^ 32\<rparr> else k)"

definition retired :: "task_t \<Rightarrow> kernel \<Rightarrow> task_t \<Rightarrow> task" where
  "retired t s u = unref (t_pager (k_tasks s t)) u
     (let k = (k_tasks s u)\<lparr>t_senders := remove1 t (sendersof s u)\<rparr>
      in if u = t then k\<lparr>t_state := TASK_UNUSED\<rparr> else k)"

definition destroyed :: "task_t \<Rightarrow> kernel \<Rightarrow> kernel \<Rightarrow> bool" where
  "destroyed t s s' \<longleftrightarrow>
     k_tasks s' = (\<lambda>u. abort_all (set (remove1 t (sendersof s t))) u (retired t s u)) \<and>
     k_runqueues s' = (\<lambda>i. remove1 t (k_runqueues s i)) \<and>
     k_irq_owners s' = disown t {0..<IRQ_MAX} (k_irq_owners s) \<and>
     k_current s' = k_current s \<and> k_conts s' = k_conts s \<and> k_klog s' = k_klog s"

lemma retired_sel:
  "t_senders (retired t s u) = remove1 t (sendersof s u)"
  "t_src (retired t s u) = srcof s u"
  "t_state (retired t s u) = (if u = t then TASK_UNUSED else st s u)"
  "t_pager (retired t s u) = t_pager (k_tasks s u)"
  "t_priority (retired t s u) = t_priority (k_tasks s u)"
  "t_quantum (retired t s u) = t_quantum (k_tasks s u)"
  "t_caps (retired t s u) = t_caps (k_tasks s u)"
  "t_name (retired t s u) = t_name (k_tasks s u)"
  "t_notifications (retired t s u) = t_notifications (k_tasks s u)"
  by (simp_all add: retired_def unref_def Let_def)

lemma unlink_runqueue_sel [simp]:
  "k_tasks (unlink_runqueue t s) = k_tasks s"
  "k_runqueues (unlink_runqueue t s) = (\<lambda>i. remove1 t (k_runqueues s i))"
  "k_irq_owners (unlink_runqueue t s) = k_irq_owners s"
  "k_current (unlink_runqueue t s) = k_current s"
  "k_conts (unlink_runqueue t s) = k_conts s"
  "k_klog (unlink_runqueue t s) = k_klog s"
  by (simp_all add: unlink_runqueue_def)

lemma task_destroy_eq:
  assumes "senders_ok s" "t \<noteq> k_current s" "t \<noteq> IDLE_TASK" "t \<noteq> INIT_TASK" "st s t \<noteq> TASK_UNUSED"
    "t_ref_count (k_tasks s t) = 0"
  shows "returns (task_destroy t s) (\<lambda>(err, s'). err = OK \<and> destroyed t s s')"
proof -
  let ?s1 = "upd_task t (\<lambda>k. k\<lparr>t_state := TASK_UNUSED\<rparr>) (unlink_sender t (unlink_runqueue t s))"
  define s2 where "s2 = (case t_pager (k_tasks ?s1 t) of None \<Rightarrow> ?s1
    | Some p \<Rightarrow> upd_task p (\<lambda>k. k\<lparr>t_ref_count := (t_ref_count k + 2 ^ 32 - 1) mod 2 ^ 32\<rparr>) ?s1)"
  have k2: "k_tasks s2 u = retired t s u" for u
    by (auto simp: s2_def retired_def unref_def Let_def split: option.splits)
  have f2: "k_runqueues s2 = (\<lambda>i. remove1 t (k_runqueues s i))" "k_irq_owners s2 = k_irq_owners s"
    "k_current s2 = k_current s" "k_conts s2 = k_conts s" "k_klog s2 = k_klog s"
    by (simp_all add: s2_def split: option.splits)
  have d: "distinct (sendersof s d)" for d
    using assms(1) by (simp add: senders_ok_def)
  define s3 where "s3 = s2\<lparr>k_tasks := (\<lambda>u. abort_all (set (sendersof s2 t)) u (k_tasks s2 u))\<rparr>"
  have e: "abort_senders (sendersof s2 t) s2 = Some s3"
    unfolding s3_def
  proof (rule abort_senders_eq)
    show "distinct (sendersof s2 d)" for d
      using d by (simp add: k2 retired_sel)
    then show "distinct (sendersof s2 t)" .
    fix u
    assume "u \<in> set (sendersof s2 t)"
    then have "u \<in> set (sendersof s t)"
      using d by (simp add: k2 retired_sel)
    then have "srcof s u = IPC_DENY" using assms(1) by (simp add: senders_ok_def)
    then show "srcof s2 u \<noteq> IPC_ANY" by (simp add: k2 retired_sel kconst)
  qed
  have irqs: "\<forall>i\<in>set [0..<IRQ_MAX]. i \<le> 255"
    by (simp add: IRQ_MAX_def del: upt_rec_numeral)
  obtain en where r: "release_irqs t [0..<IRQ_MAX] s3 =
      Some (s3\<lparr>k_irq_enabled := en, k_irq_owners := disown t (set [0..<IRQ_MAX]) (k_irq_owners s3)\<rparr>)"
    using release_irqs_eq [of "[0..<IRQ_MAX]" t s3] irqs by blast
  have "task_destroy t s =
      abort_senders (sendersof s2 t) s2 \<bind> (\<lambda>s. release_irqs t [0..<IRQ_MAX] s \<bind> (\<lambda>s. Some (OK, s)))"
    using assms(2-6) by (simp add: task_destroy_def s2_def Let_def)
  then show ?thesis
    by (simp add: e r) (simp add: destroyed_def s3_def k2 f2 retired_sel)
qed

text \<open>No sender has been woken up to send to the task (unless its send was aborted).\<close>

definition no_pending :: "kernel \<Rightarrow> task_t \<Rightarrow> bool" where
  "no_pending s t \<longleftrightarrow> (\<forall>u. 1 \<le> u \<and> u \<le> CONFIG_NUM_TASKS \<and> st s u = TASK_RUNNABLE \<and>
     dest (k_conts s u) = Some t \<longrightarrow> aborted (k_tasks s u))"

lemma abort_all_sel:
  "t_state (abort_all X u k) = t_state k" "t_src (abort_all X u k) = t_src k"
  "t_pager (abort_all X u k) = t_pager k" "t_priority (abort_all X u k) = t_priority k"
  "t_quantum (abort_all X u k) = t_quantum k" "t_caps (abort_all X u k) = t_caps k"
  "t_name (abort_all X u k) = t_name k" "t_ref_count (abort_all X u k) = t_ref_count k"
  "t_senders (abort_all X u k) = filter (\<lambda>x. x \<notin> X) (t_senders k)"
  by (simp_all add: abort_all_def)

lemma aborted_abort_all: "aborted k \<Longrightarrow> aborted (abort_all X u k)"
  using aborted_or [of k NOTIFY_ABORTED] by (simp add: abort_all_def aborted_def)

lemma aborted_retired [simp]: "aborted (retired t s u) = aborted (k_tasks s u)"
  by (simp add: aborted_def retired_sel)

lemma destroyed_sel:
  assumes "destroyed t s s'"
  shows "st s' u = (if u = t then TASK_UNUSED else st s u)" "srcof s' u = srcof s u"
    "t_pager (k_tasks s' u) = t_pager (k_tasks s u)" "t_priority (k_tasks s' u) = t_priority (k_tasks s u)"
    "t_quantum (k_tasks s' u) = t_quantum (k_tasks s u)" "t_caps (k_tasks s' u) = t_caps (k_tasks s u)"
    "t_name (k_tasks s' u) = t_name (k_tasks s u)" "k_conts s' = k_conts s" "k_current s' = k_current s"
    "t_ref_count (k_tasks s' u) = (if t_pager (k_tasks s t) = Some u
       then (t_ref_count (k_tasks s u) + 2 ^ 32 - 1) mod 2 ^ 32 else t_ref_count (k_tasks s u))"
    "sendersof s' u = filter (\<lambda>x. x \<notin> set (remove1 t (sendersof s t))) (remove1 t (sendersof s u))"
    "aborted (k_tasks s u) \<Longrightarrow> aborted (k_tasks s' u)"
  using assms by (simp_all add: destroyed_def abort_all_sel retired_sel aborted_abort_all)
    (simp_all add: retired_def unref_def Let_def)

lemma destroyed_runq_ok:
  assumes "runq_ok s" "destroyed t s s'"
  shows "runq_ok s'"
proof -
  have q: "k_runqueues s' = (\<lambda>i. remove1 t (k_runqueues s i))"
    using assms(2) by (simp add: destroyed_def)
  have d: "distinct (k_runqueues s i)" for i using assms(1) by (simp add: runq_ok_def)
  then have "u \<in> set (k_runqueues s' i) \<longleftrightarrow> u \<in> set (k_runqueues s i) \<and> u \<noteq> t" for u i
    by (simp add: q)
  then show ?thesis
    using assms(1) d unfolding runq_ok_def destroyed_sel [OF assms(2)] by (simp add: q)
qed

lemma destroyed_ipc_ok:
  assumes "ipc_ok s" "destroyed t s s'" "no_pending s t"
  shows "ipc_ok s'"
proof -
  note sel = destroyed_sel [OF assms(2)]
  have s: "senders_ok s" using assms(1) by (simp add: ipc_ok_def)
  then have d: "distinct (sendersof s u)" for u by (simp add: senders_ok_def)
  have m: "x \<in> set (sendersof s' u) \<longleftrightarrow> x \<in> set (sendersof s u) \<and> x \<noteq> t \<and> x \<notin> set (sendersof s t)" for x u
    using d by (auto simp: sel)
  have "senders_ok s'"
    unfolding senders_ok_def
  proof (intro conjI allI impI)
    show "distinct (sendersof s' u)" for u using d by (simp add: sel)
    fix u x
    assume "x \<in> set (sendersof s' u)"
    then have x: "x \<in> set (sendersof s u)" "x \<noteq> t" "u \<noteq> t" unfolding m by auto
    then show "task_id u" "st s' u \<noteq> TASK_UNUSED" "task_id x" "st s' x = TASK_BLOCKED"
      "srcof s' x = IPC_DENY" "dest (k_conts s' x) = Some u"
      using s by (auto simp: senders_ok_def sel)
  qed
  moreover have "task_ok s' u" if u: "task_id u" for u
  proof -
    have "task_ok s u" using u assms(1) by (simp add: ipc_ok_def)
    moreover have "dest (k_conts s u) = Some t \<Longrightarrow> st s u = TASK_RUNNABLE \<Longrightarrow> aborted (k_tasks s u)"
      using assms(3) u by (simp add: no_pending_def task_id_def)
    ultimately show ?thesis
      unfolding task_ok_def sel(1-3,8) using sel(12) by auto
  qed
  ultimately show ?thesis
    using assms(1) by (simp add: ipc_ok_def sel)
qed

lemma destroyed_res_ok:
  assumes "res_ok s" "destroyed t s s'" "inuse s t" "t_ref_count (k_tasks s t) = 0"
  shows "res_ok s'"
proof -
  note sel = destroyed_sel [OF assms(2)]
  note res = res_okD [OF assms(1)]
  have none: "paged_by s t = {}"
    using res(3) [of t] assms(3,4) finite_paged_by [of s t] by simp
  have pg: "paged_by s' p = paged_by s p - {t}" for p
    by (auto simp: paged_by_def sel split: if_splits)
  have "t_ref_count (k_tasks s' p) = card (paged_by s' p)" if p: "task_id p" for p
  proof (cases "t_pager (k_tasks s t) = Some p")
    case True
    then have "t \<in> paged_by s p" using assms(3) by (simp add: paged_by_def)
    then have "card (paged_by s' p) = card (paged_by s p) - 1" "card (paged_by s p) > 0"
      using finite_paged_by [of s p] by (auto simp: pg card_gt_0_iff)
    moreover have "card (paged_by s p) < 2 ^ 32"
      using card_paged_by [of s p] by (simp add: CONFIG_NUM_TASKS_def)
    ultimately have "(card (paged_by s p) + 2 ^ 32 - 1) mod 2 ^ 32 = card (paged_by s' p)"
      by (metis Nat.add_diff_assoc2 add.commute less_imp_diff_less mod_add_self2 mod_less One_nat_def Suc_leI)
    then show ?thesis
      using True by (simp add: sel res(3) [OF p])
  next
    case False
    then have "t \<notin> paged_by s p" by (simp add: paged_by_def)
    with False show ?thesis by (simp add: sel pg res(3) [OF p])
  qed
  moreover have "t_pager (k_tasks s' u) \<noteq> None" if "inuse s' u" "u \<noteq> INIT_TASK" for u
    using res(1) [of u] that by (simp add: sel split: if_splits)
  moreover have "inuse s' p" if "inuse s' u" "t_pager (k_tasks s' u) = Some p" for u p
  proof -
    have u: "inuse s u" "t_pager (k_tasks s u) = Some p" using that by (auto simp: sel split: if_splits)
    then have "p \<noteq> t" using none by (auto simp: paged_by_def)
    with res(2) [OF u] show ?thesis by (simp add: sel)
  qed
  moreover have "irq < IRQ_MAX \<and> inuse s' u" if "k_irq_owners s' irq = Some u" for irq u
  proof -
    have "k_irq_owners s' = disown t {0..<IRQ_MAX} (k_irq_owners s)"
      using assms(2) by (simp add: destroyed_def)
    then show ?thesis
      using that res(4) [of irq u] by (auto simp: disown_def sel split: if_splits)
  qed
  moreover have "klog_inv (k_klog s')"
    using res(7) assms(2) by (simp add: destroyed_def)
  ultimately show ?thesis
    unfolding res_ok_def sel(6,7) using res(5,6) by blast
qed

lemma task_destroy_ok:
  assumes "kinv_run s" "task_id t" "t \<noteq> k_current s" "no_pending s t"
  shows "returns (task_destroy t s) (\<lambda>(err, s'). kinv_run s')"
proof (cases "t \<noteq> INIT_TASK \<and> st s t \<noteq> TASK_UNUSED \<and> t_ref_count (k_tasks s t) = 0")
  case False
  moreover have "t \<noteq> IDLE_TASK" using assms(2) by auto
  ultimately show ?thesis
    using assms by (auto simp: task_destroy_def)
next
  case True
  have ok: "runq_ok s" "cur_ok s" "ipc_ok s" "res_ok s" "senders_ok s" "k_conts s (k_current s) = In_User"
    using assms(1) by (simp_all add: kinv_run_def kinv_def ipc_ok_def)
  have "t \<noteq> IDLE_TASK" using assms(2) by auto
  then have "returns (task_destroy t s) (\<lambda>(err, s'). err = OK \<and> destroyed t s s')"
    using task_destroy_eq [OF ok(5) assms(3)] True by simp
  moreover have "kinv_run s'" if d: "destroyed t s s'" for s'
  proof -
    have "cur_ok s'"
      using ok(2) assms(3) by (auto simp: cur_ok_def destroyed_sel [OF d])
    then show ?thesis
      using destroyed_runq_ok [OF ok(1) d] destroyed_ipc_ok [OF ok(3) d assms(4)]
        destroyed_res_ok [OF ok(4) d] True assms(2) ok(6)
      by (simp add: kinv_run_def kinv_def destroyed_sel [OF d])
  qed
  ultimately show ?thesis
    by (auto elim!: returns_mono)
qed

section \<open>Rescheduling, interrupt ownership\<close>

lemma task_schedule_ok:
  assumes "kinv_run s" "task_id t" "t \<noteq> k_current s" "0 \<le> priority"
  shows "returns (task_schedule t priority s) (\<lambda>(err, s'). kinv_run s')"
proof (cases "priority < int TASK_PRIORITY_MAX")
  case False
  then show ?thesis using assms(1) by (simp add: task_schedule_def)
next
  case True
  let ?s = "upd_task t (\<lambda>k. k\<lparr>t_priority := priority\<rparr>) s"
  let ?r = "\<lambda>q. ?s\<lparr>k_runqueues := q\<rparr>"
  have ok: "runq_ok s" "cur_ok s" "ipc_ok s" "res_ok s" "k_conts s (k_current s) = In_User"
    using assms(1) by (simp_all add: kinv_run_def kinv_def)
  have rest: "ipc_ok (?r q)" "res_ok (?r q)" "cur_ok (?r q)" "k_conts (?r q) (k_current (?r q)) = In_User" for q
  proof -
    show "ipc_ok (?r q)" by (rule ipc_ok_frame [OF _ _ _ _ _ _ ok(3)]) auto
    show "res_ok (?r q)" by (rule res_ok_frame [OF _ _ _ _ _ _ _ ok(4)]) (simp_all add: res_ok_klog ok)
    show "cur_ok (?r q)" by (rule cur_ok_frame [OF _ _ _ ok(2)]) simp_all
  qed (use ok in simp)
  have d: "distinct (k_runqueues s i)" for i
    using ok(1) by (simp add: runq_ok_def)
  show ?thesis
  proof (cases "st s t = TASK_RUNNABLE")
    case False
    have "t \<notin> set (k_runqueues s i)" for i using False ok(1) by (simp add: runq_ok_def)
    then have "runq_ok (?r (k_runqueues s))"
      using ok(1) True False assms(4) unfolding runq_ok_def by auto
    moreover have e: "?r (k_runqueues s) = ?s" by (simp add: upd_task_def)
    ultimately show ?thesis
      using rest [of "k_runqueues s", unfolded e] False True
      by (simp add: task_schedule_def Let_def kinv_run_def kinv_def)
  next
    case run: True
    let ?q = "(\<lambda>i. remove1 t (k_runqueues s i))(nat priority := remove1 t (k_runqueues s (nat priority)) @ [t])"
    have "runq_ok (?r ?q)"
      using ok(1) d True run assms unfolding runq_ok_def by auto
    with rest [of ?q] run True assms(4) d show ?thesis
      by (simp add: task_schedule_def Let_def enqueue_task_def unlink_runqueue_def kinv_run_def kinv_def)
  qed
qed

lemma kinv_run_irq:
  assumes "kinv_run s" "\<And>irq t. f irq = Some t \<Longrightarrow> irq < IRQ_MAX \<and> inuse s t"
  shows "kinv_run (s\<lparr>k_irq_owners := f, k_irq_enabled := e\<rparr>)"
proof -
  let ?s = "s\<lparr>k_irq_owners := f, k_irq_enabled := e\<rparr>"
  have ok: "runq_ok s" "cur_ok s" "ipc_ok s" "res_ok s" "k_conts s (k_current s) = In_User"
    using assms(1) by (simp_all add: kinv_run_def kinv_def)
  have "runq_ok ?s" by (rule runq_ok_frame [OF _ _ _ _ ok(1)]) simp_all
  moreover have "cur_ok ?s" by (rule cur_ok_frame [OF _ _ _ ok(2)]) simp_all
  moreover have "ipc_ok ?s" by (rule ipc_ok_frame [OF _ _ _ _ _ _ ok(3)]) simp_all
  moreover have "res_ok ?s"
  proof -
    have e: "paged_by ?s = paged_by s" "k_tasks ?s = k_tasks s" "k_klog ?s = k_klog s" "k_irq_owners ?s = f"
      by (simp_all add: paged_by_def fun_eq_iff)
    show ?thesis
      using ok(4) assms(2) unfolding res_ok_def e by blast
  qed
  ultimately show ?thesis using ok(5) by (simp add: kinv_run_def kinv_def)
qed

end
