(* ===== verification/Kernel_Step.thy ===== *)
theory Kernel_Step
  imports Kernel_Task_Inv
begin

text \<open>
  The kernel as a transition system: system calls, interrupts, and the continuation of the task
  switched to. Every step from a good state returns normally and leads to a good state
  (\<open>event_ok\<close> says what is asked of an event), so no assertion or panic of the modelled code is
  reachable except through the events it leaves out.
\<close>

section \<open>Events\<close>

datatype event =
    Ev_Syscall cbuf int int int int int int
  | Ev_Interrupt nat u64 u64 u64
  | Ev_Resume
  | Ev_Store u64 message
  | Ev_Serial u8

text \<open>\<open>Ev_Store\<close> is the current task writing to its own memory, \<open>Ev_Serial\<close> a byte received by
  the serial port.\<close>

fun kernel_event :: "layout \<Rightarrow> event \<Rightarrow> kernel \<Rightarrow> kernel option" where
  "kernel_event ly (Ev_Syscall stack n a1 a2 a3 a4 a5) s = handle_syscall ly stack n a1 a2 a3 a4 a5 s"
| "kernel_event ly (Ev_Interrupt vec error cr2 rip) s = x64_handle_interrupt vec error cr2 rip s"
| "kernel_event ly Ev_Resume s = kresume s"
| "kernel_event ly (Ev_Store p m) s =
     Some (s\<lparr>k_umem := (k_umem s)(k_current s := (k_umem s (k_current s))(p := m))\<rparr>)"
| "kernel_event ly (Ev_Serial ch) s = Some (s\<lparr>k_input := k_input s @ [ch]\<rparr>)"

text \<open>An address at least 4 GiB below the kernel's.\<close>

definition low_addr :: "u64 \<Rightarrow> bool" where
  "low_addr a \<longleftrightarrow> a < KERNEL_BASE_ADDR - 0x100000000"

text \<open>
  What is asked of a system call. The initial task does not exit and passes buffers outside the
  kernel; and four arguments that the code does not check are excluded: the last task
  identifier in \<^verbatim>\<open>task_create\<close>, a task that a sender has been woken up for in
  \<^verbatim>\<open>task_destroy\<close>, a negative priority in \<^verbatim>\<open>task_schedule\<close>, and addresses in the kernel's
  half in \<^verbatim>\<open>vm_map\<close> and \<^verbatim>\<open>vm_unmap\<close>. The kernel debugger is left out.
\<close>

definition syscall_ok :: "kernel \<Rightarrow> int \<Rightarrow> int \<Rightarrow> int \<Rightarrow> int \<Rightarrow> int \<Rightarrow> bool" where
  "syscall_ok s n a1 a2 a3 a4 \<longleftrightarrow>
     (t_pager (k_tasks s (k_current s)) = None \<longrightarrow>
        n \<noteq> 10 \<and> (n = 3 \<longrightarrow> low_addr (uaddr a3)) \<and> (n = 6 \<or> n = 7 \<longrightarrow> low_addr (uaddr a1)) \<and>
        (n = 8 \<longrightarrow> low_addr (uaddr a2))) \<and>
     (n = 8 \<longrightarrow> to_i32 a1 \<noteq> CONFIG_NUM_TASKS) \<and>
     (n = 9 \<longrightarrow> no_pending s (to_i32 a1)) \<and>
     (n = 12 \<longrightarrow> 0 \<le> to_i32 a2) \<and>
     (n = 13 \<longrightarrow> uaddr a3 < KERNEL_BASE_ADDR \<and> uaddr a4 < KERNEL_BASE_ADDR) \<and>
     (n = 14 \<longrightarrow> uaddr a2 < KERNEL_BASE_ADDR) \<and>
     n \<noteq> 2"

text \<open>Interrupts and system calls arrive when no kernel code is in progress. Exceptions and page
  faults come from tasks with a pager, and the other vectors are interrupts that exist.\<close>

definition interrupt_ok :: "kernel \<Rightarrow> nat \<Rightarrow> u64 \<Rightarrow> bool" where
  "interrupt_ok s vec error \<longleftrightarrow>
     vec = VECTOR_IPI_RESCHEDULE \<or>
     (VECTOR_IRQ_BASE \<le> vec \<and> vec \<le> 255) \<or>
     (vec \<le> 20 \<and> k_current s \<noteq> IDLE_TASK \<and> t_pager (k_tasks s (k_current s)) \<noteq> None \<and>
      (vec = EXP_PAGE_FAULT \<longrightarrow> error AND 8 = 0 \<and> error AND 4 \<noteq> 0))"

fun event_ok :: "kernel \<Rightarrow> event \<Rightarrow> bool" where
  "event_ok s (Ev_Syscall stack n a1 a2 a3 a4 a5) \<longleftrightarrow>
     k_conts s (k_current s) = In_User \<and> k_current s \<noteq> IDLE_TASK \<and> syscall_ok s n a1 a2 a3 a4"
| "event_ok s (Ev_Interrupt vec error cr2 rip) \<longleftrightarrow>
     k_conts s (k_current s) = In_User \<and> interrupt_ok s vec error"
| "event_ok s Ev_Resume \<longleftrightarrow> True"
| "event_ok s (Ev_Store p m) \<longleftrightarrow> k_conts s (k_current s) = In_User"
| "event_ok s (Ev_Serial ch) \<longleftrightarrow> True"

section \<open>System calls keep the invariant\<close>

fun sysret_ok :: "'a sysret \<times> kernel \<Rightarrow> bool" where
  "sysret_ok (Done v, s) \<longleftrightarrow> kinv_run s"
| "sysret_ok (Blocked, s) \<longleftrightarrow> kinv s"
| "sysret_ok (Killed e, s) \<longleftrightarrow> kinv_run s \<and> k_current s \<noteq> IDLE_TASK \<and>
     t_pager (k_tasks s (k_current s)) \<noteq> None"

lemma sys_finish_ok: "returns r sysret_ok \<Longrightarrow> returns (sys_finish code r) kinv"
  unfolding sys_finish_def
proof (erule returns_bind)
  fix rs :: "'a sysret \<times> kernel"
  assume *: "sysret_ok rs"
  obtain ret s where rs: "rs = (ret, s)" by (cases rs)
  have "kinv (s\<lparr>k_uret := u\<rparr>)" if "kinv_run s" for u
    using that kinv_run_uret [where s = s and r = u] unfolding kinv_run_def by blast
  then show "returns (case rs of (ret, s) \<Rightarrow>
      case ret of Done v \<Rightarrow> Some (s\<lparr>k_uret := (k_uret s)(k_current s := code v)\<rparr>)
      | Blocked \<Rightarrow> Some s | Killed e \<Rightarrow> task_exit e s) kinv"
    using * task_exit_ok [of s] by (cases ret) (auto simp: rs)
qed

lemma sys_return_ok:
  "returns r (\<lambda>(err, s'). kinv_run s') \<Longrightarrow> returns (sys_return r) sysret_ok"
  by (auto simp: returns_def sys_return_def)

lemma CAPABLE_ok:
  assumes "kinv_run s" "cap < 8"
  shows "returns (CAPABLE (k_tasks s t) cap) (\<lambda>_. True)"
proof -
  have "res_ok s" using assms(1) by (simp add: kinv_run_def kinv_def)
  then have "length (t_caps (k_tasks s t)) = 1"
    using res_ok_len(1) by (simp add: BITMAP_SIZE_def kconst BITS_PER_BYTE_def)
  with assms(2) show ?thesis
    by (simp add: CAPABLE_def bitmap_get_def BITMAP_SIZE_def kconst BITS_PER_BYTE_def)
qed

lemma capable_bind:
  assumes "kinv_run s" "cap < 8" "\<And>c. returns (f c) P"
  shows "returns (CAPABLE (k_tasks s t) cap \<bind> f) P"
  by (rule returns_bind [OF CAPABLE_ok [OF assms(1,2)]]) (rule assms(3))

lemma task_lookup_Some:
  "task_lookup_unchecked tid = Some t \<longleftrightarrow> t = tid \<and> task_id tid"
  "task_lookup tid s = Some t \<longleftrightarrow> t = tid \<and> inuse s tid"
  by (auto simp: task_lookup_unchecked_def task_lookup_def task_id_def)

lemma kinv_run_klog:
  assumes "kinv_run s" "klog_inv k"
  shows "kinv_run (s\<lparr>k_klog := k\<rparr>)"
proof -
  let ?s = "s\<lparr>k_klog := k\<rparr>"
  have ok: "runq_ok s" "cur_ok s" "ipc_ok s" "res_ok s" "k_conts s (k_current s) = In_User"
    using assms(1) by (simp_all add: kinv_run_def kinv_def)
  have "runq_ok ?s" by (rule runq_ok_frame [OF _ _ _ _ ok(1)]) simp_all
  moreover have "cur_ok ?s" by (rule cur_ok_frame [OF _ _ _ ok(2)]) simp_all
  moreover have "ipc_ok ?s" by (rule ipc_ok_frame [OF _ _ _ _ _ _ ok(3)]) simp_all
  moreover have "res_ok ?s"
    by (rule res_ok_frame [OF _ _ _ _ _ _ _ ok(4)]) (simp_all add: assms(2))
  ultimately show ?thesis using ok(5) by (simp add: kinv_run_def kinv_def)
qed

lemma low_addr_range:
  assumes "low_addr a" "len \<le> 0x80000000" "i \<le> 0x80000000"
  shows "\<not> is_kernel_addr_range (a + i) len"
proof -
  have a: "unat a < unat (KERNEL_BASE_ADDR - 0x100000000)"
    using assms(1) by (simp add: low_addr_def word_less_nat_alt)
  have l: "unat len \<le> 0x80000000" "unat i \<le> 0x80000000"
    using assms(2,3) by (simp_all add: word_le_nat_alt)
  have k: "unat KERNEL_BASE_ADDR = 0xffff800000000000"
    "unat (KERNEL_BASE_ADDR - 0x100000000) = 0xffff7fff00000000"
    by (simp_all add: KERNEL_BASE_ADDR_def)
  have ai: "unat (a + i) = unat a + unat i"
    by (rule unat_add_lem [THEN iffD1]) (use a l k in simp)
  have ail: "unat (a + i + len) = unat a + unat i + unat len"
    using ai by (subst unat_add_lem [THEN iffD1]) (use a l k in simp_all)
  show ?thesis
    using a l k ai ail by (simp add: is_kernel_addr_range_def word_less_nat_alt word_le_nat_alt)
qed

lemma low_addr_range0: "low_addr a \<Longrightarrow> len \<le> 0x80000000 \<Longrightarrow> \<not> is_kernel_addr_range a len"
  using low_addr_range [of a len 0] by simp

text \<open>The current task is a task, and a system call of the initial task does not kill it.\<close>

abbreviation may_exit :: "kernel \<Rightarrow> bool" where
  "may_exit s \<equiv> t_pager (k_tasks s (k_current s)) \<noteq> None"

lemma strncpy_from_user_cstr:
  assumes "strncpy_from_user a n s = Inr buf"
  shows "\<exists>str. cstr buf str"
proof -
  have c: "cstr (xs @ [0]) (takeWhile (\<lambda>x. x \<noteq> 0) xs)" for xs
  proof (induction xs)
    case (Cons x xs)
    then show ?case by (auto simp: cstr_Cons)
  qed simp
  obtain xs where "buf = xs @ [0]"
    using assms by (auto simp: strncpy_from_user_def bytes_from_user_def split: if_splits)
  with c show ?thesis by blast
qed

lemma strncpy_from_user_Inl:
  assumes "strncpy_from_user a n s = Inl e" "n \<le> 0x80000000"
  shows "\<not> low_addr a"
proof -
  have "(of_nat n :: u64) \<le> 0x80000000"
    using assms(2) by (simp add: word_le_nat_alt unat_of_nat)
  then show ?thesis
    using assms(1) low_addr_range0 [of a "of_nat n"]
    by (auto simp: strncpy_from_user_def bytes_from_user_def split: if_splits)
qed

lemma sys_task_create_ok:
  assumes "kinv_run s" "k_current s \<noteq> IDLE_TASK" "may_exit s \<or> low_addr name" "tid \<noteq> CONFIG_NUM_TASKS"
  shows "returns (sys_task_create ly tid name ip pager flags s) sysret_ok"
proof -
  let ?n = "CONFIG_TASK_NAME_LEN - 1"
  have n: "may_exit s" if "strncpy_from_user name ?n s = Inl e" for e
    using assms(3) strncpy_from_user_Inl [OF that] by (auto simp: CONFIG_TASK_NAME_LEN_def)
  have create: "returns (sys_return (task_create ly tid nm ip (Some p) flags s)) sysret_ok"
    if nm: "strncpy_from_user name ?n s = Inr nm" and p: "inuse s p" and t: "task_id tid" for nm p
  proof -
    obtain str where "cstr nm str" using strncpy_from_user_cstr [OF nm] by blast
    moreover have "tid < CONFIG_NUM_TASKS" using t assms(4) by (simp add: task_id_def)
    ultimately show ?thesis
      using p t assms(1) by (intro sys_return_ok task_create_ok)
  qed
  show ?thesis
    unfolding sys_task_create_def
    by (rule capable_bind [OF assms(1)])
      (use assms(1,2) n create in \<open>auto simp: CAP_TASK_def task_lookup_Some split: option.splits sum.splits\<close>)
qed

lemma sys_task_destroy_ok:
  assumes "kinv_run s" "no_pending s tid"
  shows "returns (sys_task_destroy tid s) sysret_ok"
  unfolding sys_task_destroy_def
  by (rule capable_bind [OF assms(1)])
    (use assms sys_return_ok [OF task_destroy_ok [OF assms(1)]] in
      \<open>auto simp: kconst task_lookup_Some split: option.splits\<close>)

lemma sys_task_schedule_ok:
  assumes "kinv_run s" "0 \<le> priority"
  shows "returns (sys_task_schedule tid priority s) sysret_ok"
  unfolding sys_task_schedule_def
  by (rule capable_bind [OF assms(1)])
    (use assms sys_return_ok [OF task_schedule_ok [OF assms(1)]] in
      \<open>auto simp: kconst task_lookup_Some split: option.splits\<close>)

lemma sys_ipc_ok:
  assumes "kinv_run s" "k_current s \<noteq> IDLE_TASK" "may_exit s \<or> low_addr m"
  shows "returns (sys_ipc dst src m flags s \<bind> return_to By_Syscall) kinv"
proof -
  have ret: "returns (return_to By_Syscall (Return e (Umsg m), s)) kinv" for e
    by (rule return_to_ok [where s = s and buf = "Umsg m"]) (use assms in simp_all)
  have safe: "run_safe s (Umsg m) By_Syscall"
    using assms(3) low_addr_range0 [of m MESSAGE_SIZE] by (auto simp: run_safe_def MESSAGE_SIZE_def)
  have call: "returns (ipc d src (Umsg m) flags By_Syscall s \<bind> return_to By_Syscall) kinv"
    if "\<And>t. d = Some t \<Longrightarrow> inuse s t" "flags AND IPC_SEND \<noteq> 0 \<Longrightarrow> d \<noteq> None"
      "flags AND IPC_KERNEL = 0" "0 \<le> src" for d
    by (rule returns_bind [OF ipc_total [OF assms(1,2) _ that(4) safe that(1,2)]])
      (use that(3) assms(2) in \<open>auto simp: buf_ok_def intro!: return_to_ok\<close>)
  show ?thesis
    using ret call [of None] call [of "Some dst"] by (auto simp: sys_ipc_def task_lookup_Some split: option.splits)
qed

lemma sys_notify_ok:
  assumes "kinv_run s"
  shows "returns (sys_notify dst n s) sysret_ok"
proof (cases "task_lookup dst s")
  case (Some d)
  then have d: "task_id d" by (auto simp: task_lookup_Some)
  have "returns (notify d n s \<bind> (\<lambda>s. Some (Done OK, s))) sysret_ok"
    by (rule returns_bind [OF notify_ok [OF assms d]]) simp
  then show ?thesis using Some by (simp add: sys_notify_def)
qed (use assms in \<open>simp add: sys_notify_def\<close>)

lemma sys_timer_set_ok:
  assumes "kinv_run s"
  shows "returns (sys_timer_set t s) sysret_ok"
proof -
  have "kinv (upd_task (k_current s) (\<lambda>k. k\<lparr>t_timeout := t\<rparr>) s)"
    by (rule kinv_upd_task) (use assms in \<open>simp_all add: kinv_run_def\<close>)
  with assms show ?thesis by (simp add: sys_timer_set_def kinv_run_def)
qed

lemma kinv_run_irqD: "kinv_run s \<Longrightarrow> k_irq_owners s i = Some t \<Longrightarrow> i < IRQ_MAX \<and> inuse s t"
  by (rule res_ok_irq) (simp_all add: kinv_run_def kinv_def)

lemma sys_irq_acquire_ok:
  assumes "kinv_run s" "k_current s \<noteq> IDLE_TASK"
  shows "returns (sys_irq_acquire irq s) sysret_ok"
proof -
  let ?i = "unat (word_of_int irq :: u32)"
  have irq: "k_irq_owners s i = Some t \<Longrightarrow> i < IRQ_MAX \<and> inuse s t" for i t
    by (rule kinv_run_irqD [OF assms(1)])
  have cur: "inuse s (k_current s)"
    using kinv_cur [OF _ assms(2)] assms(1) by (simp add: kinv_run_def)
  have "kinv_run (s\<lparr>k_irq_owners := (k_irq_owners s)(?i \<mapsto> k_current s), k_irq_enabled := e\<rparr>)"
    if "?i < IRQ_MAX" for e
    by (rule kinv_run_irq [OF assms(1)]) (use irq cur that in \<open>auto split: if_splits\<close>)
  then have "returns (task_listen_irq (k_current s) ?i s) (\<lambda>(err, s'). kinv_run s')"
    using assms(1) by (auto simp: task_listen_irq_def arch_enable_irq_def IRQ_MAX_def)
  then show ?thesis
    unfolding sys_irq_acquire_def
    by (intro capable_bind [OF assms(1)]) (use assms(1) sys_return_ok in \<open>auto simp: CAP_IRQ_def\<close>)
qed

lemma sys_irq_release_ok:
  assumes "kinv_run s"
  shows "returns (sys_irq_release irq s) sysret_ok"
proof -
  let ?i = "unat (word_of_int irq :: u32)"
  have irq: "k_irq_owners s i = Some t \<Longrightarrow> i < IRQ_MAX \<and> inuse s t" for i t
    by (rule kinv_run_irqD [OF assms(1)])
  have "kinv_run (s\<lparr>k_irq_owners := (k_irq_owners s)(?i := None), k_irq_enabled := e\<rparr>)" for e
    by (rule kinv_run_irq [OF assms(1)]) (use irq in \<open>auto split: if_splits\<close>)
  moreover have "s\<lparr>k_irq_enabled := e, k_irq_owners := f\<rparr> = s\<lparr>k_irq_owners := f, k_irq_enabled := e\<rparr>" for e f
    by simp
  ultimately have "kinv_run (s\<lparr>k_irq_enabled := e, k_irq_owners := (k_irq_owners s)(?i := None)\<rparr>)" for e
    by metis
  then have "returns (task_unlisten_irq ?i s) (\<lambda>(err, s'). kinv_run s')"
    using assms(1) by (auto simp: task_unlisten_irq_def arch_disable_irq_def IRQ_MAX_def)
  then show ?thesis
    unfolding sys_irq_release_def
    by (intro capable_bind [OF assms(1)]) (use assms(1) sys_return_ok in \<open>auto simp: CAP_IRQ_def\<close>)
qed

lemma IS_ALIGNED_ENTRY_PADDR: "IS_ALIGNED (ENTRY_PADDR e) PAGE_SIZE"
proof -
  have "ENTRY_PADDR e AND (PAGE_SIZE - 1) = e AND (0x7ffffffffffff000 AND 0xfff)"
    unfolding ENTRY_PADDR_def PAGE_SIZE_def by (subst and.assoc) simp
  then show ?thesis by (simp add: IS_ALIGNED_def)
qed

lemma vm_resolve_ok:
  assumes "vaddr < KERNEL_BASE_ADDR" "IS_ALIGNED vaddr PAGE_SIZE"
  shows "returns (vm_resolve pml4 vaddr pm) (\<lambda>(p, pm'). IS_ALIGNED p PAGE_SIZE)"
  using assms IS_ALIGNED_ENTRY_PADDR
  by (auto simp: vm_resolve_def traverse_page_table_def IS_ALIGNED_def split: prod.splits option.splits)

lemma resolve_paddr_ok:
  assumes "kinv_run s" "vaddr < KERNEL_BASE_ADDR" "IS_ALIGNED vaddr PAGE_SIZE"
  shows "returns (resolve_paddr ly vaddr s) (\<lambda>(p, s'). IS_ALIGNED p PAGE_SIZE \<and> kinv_run s')"
  using vm_resolve_ok [OF assms(2,3), of "task_pml4 ly (k_current s)" "k_pmem s"] assms(1,3)
  by (auto simp: resolve_paddr_def returns_def)

lemma vm_map_ok:
  assumes "kinv_run s" "IS_ALIGNED vaddr PAGE_SIZE" "IS_ALIGNED paddr PAGE_SIZE" "IS_ALIGNED kpage PAGE_SIZE"
  shows "returns (vm_map ly t vaddr paddr kpage flags s) (\<lambda>(err, s'). kinv_run s')"
  using assms
  by (auto simp: vm_map_def arch_vm_map_def traverse_page_table_def is_kernel_addr_range_def Let_def
    split: prod.splits option.splits)

lemma vm_unmap_ok:
  assumes "kinv_run s" "IS_ALIGNED vaddr PAGE_SIZE" "vaddr < KERNEL_BASE_ADDR"
  shows "returns (vm_unmap ly t vaddr s) (\<lambda>(err, s'). kinv_run s')"
  using assms
  by (auto simp: vm_unmap_def vm_resolve_def arch_vm_unmap_def traverse_page_table_def IS_ALIGNED_def Let_def
    split: prod.splits option.splits)

lemma sys_vm_map_ok:
  assumes "kinv_run s" "src < KERNEL_BASE_ADDR" "kpage < KERNEL_BASE_ADDR"
  shows "returns (sys_vm_map ly tid vaddr src kpage flags s) sysret_ok"
proof (unfold sys_vm_map_def, rule capable_bind [OF assms(1)], goal_cases)
  case (2 c)
  show ?case
  proof (cases "c \<and> IS_ALIGNED vaddr PAGE_SIZE \<and> IS_ALIGNED src PAGE_SIZE \<and> IS_ALIGNED kpage PAGE_SIZE")
    case True
    have 2: "returns (resolve_paddr ly kpage s' \<bind> (\<lambda>(kp, s').
        if kp = 0 then Some (Done ERR_NOT_FOUND, s')
        else if is_kernel_paddr ly p then Some (Done ERR_NOT_ACCEPTABLE, s')
        else if is_kernel_paddr ly kp then Some (Done ERR_NOT_ACCEPTABLE, s')
        else (case task_lookup tid s' of None \<Rightarrow> Some (Done ERR_INVALID_TASK, s')
          | Some task \<Rightarrow> sys_return (vm_map ly task vaddr p kp flags s')))) sysret_ok"
      if "kinv_run s'" "IS_ALIGNED p PAGE_SIZE" for p s'
      by (rule returns_bind [OF resolve_paddr_ok [OF that(1) assms(3)]])
        (use True that in \<open>auto intro!: sys_return_ok vm_map_ok split: option.splits\<close>)
    show ?thesis
      using True
      by (simp, intro returns_bind [OF resolve_paddr_ok [OF assms(1,2)]]) (auto intro!: 2)
  qed (use assms(1) in auto)
qed (simp add: CAP_MAP_def)

lemma sys_vm_unmap_ok:
  assumes "kinv_run s" "vaddr < KERNEL_BASE_ADDR"
  shows "returns (sys_vm_unmap ly tid vaddr s) sysret_ok"
  unfolding sys_vm_unmap_def
  by (rule capable_bind [OF assms(1)])
    (use assms sys_return_ok [OF vm_unmap_ok] in \<open>auto simp: CAP_MAP_def split: option.splits\<close>)

lemma printchar_ok: "kinv_run s \<Longrightarrow> kinv_run (printchar ch s) \<and> same_cur s (printchar ch s)"
proof -
  assume k: "kinv_run s"
  then have "klog_inv (k_klog s)"
    by (intro res_ok_klog) (simp add: kinv_run_def kinv_def)
  then have "kinv_run (s\<lparr>k_klog := klog_write ch (k_klog s)\<rparr>)"
    by (intro kinv_run_klog [OF k] klog_write_inv)
  moreover have "printchar ch s = (s\<lparr>k_klog := klog_write ch (k_klog s)\<rparr>)
      \<lparr>k_console := k_console s @ (if ch = 10 then [10, 13] else [ch])\<rparr>"
    by (simp add: printchar_def arch_printchar_def Let_def)
  ultimately show ?thesis
    by (simp only: kinv_run_console) (simp add: same_cur_def)
qed

lemma fold_printchar_ok:
  "kinv_run s \<Longrightarrow> kinv_run (fold printchar bs s) \<and> same_cur s (fold printchar bs s)"
proof (induction bs arbitrary: s)
  case (Cons b bs)
  with printchar_ok [OF Cons.prems, of b] show ?case
    by (auto intro: same_cur_trans)
qed simp

lemma console_write_loop_ok:
  assumes "kinv_run s" "k_current s \<noteq> IDLE_TASK" "may_exit s \<or> low_addr buf"
  shows "returns (console_write_loop buf n s) sysret_ok"
  using assms
proof (induction buf n s rule: console_write_loop.induct)
  case (1 buf n s)
  have k: "\<not> is_kernel_addr_range buf (of_nat (min n 512))" if "low_addr buf"
    by (rule low_addr_range0 [OF that]) (simp add: word_le_nat_alt unat_of_nat)
  show ?case
  proof (cases "bytes_from_user buf (min n 512) s")
    case (Inl e)
    then have "may_exit s"
      using 1(4) k by (auto simp: bytes_from_user_def split: if_splits)
    with Inl 1 show ?thesis by (subst console_write_loop.simps) simp
  next
    case (Inr bs)
    have f: "kinv_run (fold printchar bs s)" "same_cur s (fold printchar bs s)"
      using fold_printchar_ok [OF 1(2)] by auto
    show ?thesis
    proof (cases "n = 0")
      case True
      with 1(2) show ?thesis by (subst console_write_loop.simps) simp
    next
      case False
      then have "returns (console_write_loop buf (n - min n 512) (fold printchar bs s)) sysret_ok"
        by (rule 1(1) [OF _ Inr f(1)]) (use f(2) 1(3,4) in \<open>auto simp: same_cur_def\<close>)
      with False Inr show ?thesis by (subst console_write_loop.simps) simp
    qed
  qed
qed

lemma sys_console_write_ok:
  assumes "kinv_run s" "k_current s \<noteq> IDLE_TASK" "may_exit s \<or> low_addr buf"
  shows "returns (sys_console_write buf n s) sysret_ok"
  using console_write_loop_ok [OF assms] assms(1) by (simp add: sys_console_write_def)

lemma bytes_to_user_ok:
  assumes "kinv_run s" "may_exit s \<or> low_addr buf" "i \<le> 0x80000000"
  shows "case bytes_to_user (buf + of_nat i) [b] s of
    Inl e \<Rightarrow> may_exit s | Inr s' \<Rightarrow> kinv_run s' \<and> same_cur s s'"
proof -
  have "\<not> is_kernel_addr_range (buf + of_nat i) 1" if "low_addr buf"
    by (rule low_addr_range [OF that]) (use assms(3) in \<open>simp_all add: word_le_nat_alt unat_of_nat\<close>)
  with assms(1,2) show ?thesis
    by (auto simp: bytes_to_user_def same_cur_def)
qed

lemma kdebug_readchar_ok:
  assumes "kinv_run s" "kdebug_readchar s = (ch, s')"
  shows "kinv_run s' \<and> same_cur s s'"
  using assms by (auto simp: kdebug_readchar_def same_cur_def split: list.splits)

lemma console_read_loop_ok:
  assumes "kinv_run s" "may_exit s \<or> low_addr buf" "i + n \<le> 0x80000000"
  shows "case console_read_loop buf n i s of
    (Inl e, s') \<Rightarrow> kinv_run s' \<and> same_cur s s' \<and> may_exit s |
    (Inr j, s') \<Rightarrow> kinv_run s' \<and> same_cur s s' \<and> j \<le> i + n"
  using assms
proof (induction buf n i s rule: console_read_loop.induct)
  case (2 buf n i s)
  obtain ch s1 where r: "kdebug_readchar s = (ch, s1)" by fastforce
  have s1: "kinv_run s1" "same_cur s s1"
    using kdebug_readchar_ok [OF 2(2) r] by auto
  show ?case
  proof (cases "ch \<le> 0")
    case False
    have b: "case bytes_to_user (buf + of_nat i) [word_of_int ch] s1 of
        Inl e \<Rightarrow> may_exit s1 | Inr s' \<Rightarrow> kinv_run s' \<and> same_cur s1 s'"
      by (rule bytes_to_user_ok [OF s1(1)]) (use s1(2) 2(3,4) in \<open>auto simp: same_cur_def\<close>)
    show ?thesis
    proof (cases "bytes_to_user (buf + of_nat i) [word_of_int ch] s1")
      case (Inl e)
      with b r False s1 show ?thesis by (auto simp: same_cur_def)
    next
      case (Inr s2)
      with b have s2: "kinv_run s2" "same_cur s1 s2" by auto
      note s02 = same_cur_trans [OF s1(2) s2(2)]
      have "case console_read_loop buf n (Suc i) s2 of
          (Inl e, s') \<Rightarrow> kinv_run s' \<and> same_cur s2 s' \<and> may_exit s2 |
          (Inr j, s') \<Rightarrow> kinv_run s' \<and> same_cur s2 s' \<and> j \<le> Suc i + n"
        by (rule 2(1) [OF r [symmetric] refl False Inr s2(1)])
          (use s02 2(3,4) in \<open>auto simp: same_cur_def\<close>)
      with r False Inr s02 show ?thesis
        by (auto simp: same_cur_def split: prod.splits sum.splits)
    qed
  qed (use r s1 in simp)
qed simp

lemma sys_console_read_ok:
  assumes "kinv_run s" "k_current s \<noteq> IDLE_TASK" "may_exit s \<or> low_addr buf" "max_len \<le> 0x7fffffff"
  shows "returns (sys_console_read buf max_len s) sysret_ok"
proof (cases "console_read_loop buf (nat (max_len - 1)) 0 s")
  case (Pair r s1)
  have l: "case console_read_loop buf (nat (max_len - 1)) 0 s of
      (Inl e, s') \<Rightarrow> kinv_run s' \<and> same_cur s s' \<and> may_exit s |
      (Inr j, s') \<Rightarrow> kinv_run s' \<and> same_cur s s' \<and> j \<le> 0 + nat (max_len - 1)"
    by (rule console_read_loop_ok) (use assms in auto)
  show ?thesis
  proof (cases r)
    case (Inl e)
    with Pair l assms(1,2) show ?thesis by (auto simp: sys_console_read_def same_cur_def)
  next
    case (Inr j)
    have s1: "kinv_run s1" "same_cur s s1" "j \<le> 0x80000000"
      using l Pair Inr assms(4) by auto
    have "case bytes_to_user (buf + of_nat j) [0] s1 of
        Inl e \<Rightarrow> may_exit s1 | Inr s' \<Rightarrow> kinv_run s' \<and> same_cur s1 s'"
      by (rule bytes_to_user_ok [OF s1(1) _ s1(3)]) (use s1(2) assms(3) in \<open>auto simp: same_cur_def\<close>)
    then show ?thesis
      using Pair Inr s1 assms(1,2)
      by (auto simp: sys_console_read_def same_cur_def split: sum.splits)
  qed
qed

lemma to_i32_bounds: "- (2 ^ 31) \<le> to_i32 x" "to_i32 x \<le> 0x7fffffff"
proof -
  have "0 \<le> (x + 2 ^ 31) mod 2 ^ 32" "(x + 2 ^ 31) mod 2 ^ 32 < 2 ^ 32" by simp_all
  then show "- (2 ^ 31) \<le> to_i32 x" "to_i32 x \<le> 0x7fffffff"
    by (simp_all add: to_i32_def)
qed

lemma handle_syscall_ok:
  assumes "kinv_run s" "k_current s \<noteq> IDLE_TASK" "syscall_ok s n a1 a2 a3 a4"
  shows "returns (handle_syscall ly stack n a1 a2 a3 a4 a5 s) kinv"
proof -
  note ok = assms(3) [unfolded syscall_ok_def]
  have c3: "returns (sys_ipc (to_i32 a1) (to_i32 a2) (uaddr a3) (unsigned32 a4) s \<bind> return_to By_Syscall) kinv"
    if "n = 3" by (rule sys_ipc_ok [OF assms(1,2)]) (use ok that in auto)
  have c6: "returns (sys_console_write (uaddr a1) (unat (uaddr a2)) s) sysret_ok" if "n = 6"
    by (rule sys_console_write_ok [OF assms(1,2)]) (use ok that in auto)
  have c7: "returns (sys_console_read (uaddr a1) (to_i32 a2) s) sysret_ok" if "n = 7"
    by (rule sys_console_read_ok [OF assms(1,2) _ to_i32_bounds(2)]) (use ok that in auto)
  have c8: "returns (sys_task_create ly (to_i32 a1) (uaddr a2) (uaddr a3) (to_i32 a4) (unsigned32 a5) s) sysret_ok"
    if "n = 8" by (rule sys_task_create_ok [OF assms(1,2)]) (use ok that in auto)
  have c9: "returns (sys_task_destroy (to_i32 a1) s) sysret_ok" if "n = 9"
    by (rule sys_task_destroy_ok [OF assms(1)]) (use ok that in auto)
  have c10: "returns (sys_task_exit s) sysret_ok" if "n = 10"
    using ok that assms(1,2) by (simp add: sys_task_exit_def)
  have c12: "returns (sys_task_schedule (to_i32 a1) (to_i32 a2) s) sysret_ok" if "n = 12"
    by (rule sys_task_schedule_ok [OF assms(1)]) (use ok that in auto)
  have c13: "returns (sys_vm_map ly (to_i32 a1) (uaddr a2) (uaddr a3) (uaddr a4) (unsigned32 a5) s) sysret_ok"
    if "n = 13" by (rule sys_vm_map_ok [OF assms(1)]) (use ok that in auto)
  have c14: "returns (sys_vm_unmap ly (to_i32 a1) (uaddr a2) s) sysret_ok" if "n = 14"
    by (rule sys_vm_unmap_ok [OF assms(1)]) (use ok that in auto)
  have c2: "n \<noteq> 2" using ok by blast
  note c4 = sys_notify_ok [OF assms(1)] and c5 = sys_timer_set_ok [OF assms(1)]
    and c15 = sys_irq_acquire_ok [OF assms(1,2)] and c16 = sys_irq_release_ok [OF assms(1)]
  have c11: "returns (sys_finish id (Some (Done (sys_task_self s), s))) kinv"
    by (rule sys_finish_ok) (use assms(1) in simp)
  have c1: "returns (sys_finish err_code (Some (Done e, s))) kinv" for e
    by (rule sys_finish_ok) (use assms(1) in simp)
  show ?thesis
    unfolding handle_syscall_def returns_if
    using c2 by (intro conjI impI) (simp_all only: simp_thms c1 c3 c11
      sys_finish_ok [OF c4] sys_finish_ok [OF c5] sys_finish_ok [OF c6] sys_finish_ok [OF c7]
      sys_finish_ok [OF c8] sys_finish_ok [OF c9] sys_finish_ok [OF c10] sys_finish_ok [OF c12]
      sys_finish_ok [OF c13] sys_finish_ok [OF c14] sys_finish_ok [OF c15] sys_finish_ok [OF c16])
qed

lemma x64_handle_interrupt_ok:
  assumes "kinv_run s" "interrupt_ok s vec error"
  shows "returns (x64_handle_interrupt vec error cr2 rip s) kinv"
proof -
  have k: "kinv s" using assms(1) by (simp add: kinv_run_def)
  have pf: "pf_fault error AND 4 \<noteq> 0" if "error AND 4 \<noteq> 0"
    using that by (simp add: pf_fault_def)
  consider "vec = VECTOR_IPI_RESCHEDULE" | "VECTOR_IRQ_BASE \<le> vec" "vec \<le> 255"
    | "vec \<le> 20" "k_current s \<noteq> IDLE_TASK" "may_exit s"
      "vec = EXP_PAGE_FAULT \<Longrightarrow> error AND 8 = 0 \<and> error AND 4 \<noteq> 0"
    using assms(2) by (auto simp: interrupt_ok_def)
  then show ?thesis
  proof cases
    case 1
    then show ?thesis
      using switch_run_kinv [OF k] by (simp add: x64_handle_interrupt_def kconst)
  next
    case 2
    then show ?thesis
      using handle_timer_irq_ok [OF assms(1)] handle_irq_ok [OF assms(1), of "vec - VECTOR_IRQ_BASE"]
      by (auto simp: x64_handle_interrupt_def kconst Let_def)
  next
    case 3
    then show ?thesis
      using handle_page_fault_ok [OF assms(1) 3(2,3)] task_exit_ok [OF assms(1) 3(2,3)] pf
      by (auto simp: x64_handle_interrupt_def kconst Let_def)
  qed
qed

section \<open>Reachable states\<close>

text \<open>One step of the kernel on an acceptable event.\<close>

inductive kstep :: "layout \<Rightarrow> kernel \<Rightarrow> kernel \<Rightarrow> bool" for ly where
  "event_ok s ev \<Longrightarrow> kernel_event ly ev s = Some s' \<Longrightarrow> kstep ly s s'"

inductive_cases kstepE: "kstep ly s s'"

lemma kernel_event_ok:
  assumes "kinv s" "event_ok s ev"
  shows "returns (kernel_event ly ev s) kinv"
proof (cases ev)
  case (Ev_Syscall stack n a1 a2 a3 a4 a5)
  then show ?thesis using assms by (auto intro: handle_syscall_ok simp: kinv_run_def)
next
  case (Ev_Interrupt vec error cr2 rip)
  then show ?thesis using assms by (auto intro: x64_handle_interrupt_ok simp: kinv_run_def)
next
  case Ev_Resume
  then show ?thesis using kresume_ok [OF assms(1)] by simp
next
  case (Ev_Store p m)
  then have "kinv_run s" using assms by (simp add: kinv_run_def)
  then have "kinv_run (s\<lparr>k_umem := u\<rparr>)" for u by simp
  then show ?thesis using Ev_Store unfolding kinv_run_def by simp
next
  case (Ev_Serial ch)
  have "kinv (s\<lparr>k_input := i\<rparr>)" for i
  proof -
    have ok: "runq_ok s" "cur_ok s" "ipc_ok s" "res_ok s"
      using assms(1) by (simp_all add: kinv_def)
    have "runq_ok (s\<lparr>k_input := i\<rparr>)" by (rule runq_ok_frame [OF _ _ _ _ ok(1)]) simp_all
    moreover have "cur_ok (s\<lparr>k_input := i\<rparr>)" by (rule cur_ok_frame [OF _ _ _ ok(2)]) simp_all
    moreover have "ipc_ok (s\<lparr>k_input := i\<rparr>)" by (rule ipc_ok_frame [OF _ _ _ _ _ _ ok(3)]) simp_all
    moreover have "res_ok (s\<lparr>k_input := i\<rparr>)"
      by (rule res_ok_frame [OF _ _ _ _ _ _ _ ok(4)]) (simp_all add: res_ok_klog ok)
    ultimately show ?thesis by (simp add: kinv_def)
  qed
  then show ?thesis using Ev_Serial by simp
qed

lemma kstep_kinv: "kstep ly s s' \<Longrightarrow> kinv s \<Longrightarrow> kinv s'"
  by (erule kstepE) (drule (1) kernel_event_ok [where ly = ly], simp)

lemma ksteps_kinv: "(kstep ly)\<^sup>*\<^sup>* s s' \<Longrightarrow> kinv s \<Longrightarrow> kinv s'"
  by (induction rule: rtranclp_induct) (auto intro: kstep_kinv)

end
