(* ===== verification/Kernel_Boot.thy ===== *)
theory Kernel_Boot
  imports Kernel_Step
begin

text \<open>
  \<^verbatim>\<open>kernel/boot.c\<close>: from the zeroed kernel to the idle loop with the first task ready to run.
  The structures of \<^verbatim>\<open>bootinfo.h\<close> are records; the boot ELF image is given by what lies at
  an offset of it (the bytes of a candidate header and the header they encode) and by the
  physical address it is loaded at.
\<close>

record memmap_entry =
  mm_type :: u8
  mm_base :: u64
  mm_len :: u64

type_synonym bootinfo = "memmap_entry list"

definition BOOTINFO_MEMMAP_TYPE_AVAILABLE :: u8 where
  [kconst]: "BOOTINFO_MEMMAP_TYPE_AVAILABLE = 0xaa"

record bootelf_mapping =
  bm_vaddr :: u64
  bm_offset :: u32
  bm_num_pages :: u16
  bm_zeroed :: u8

record bootelf_header =
  be_name :: cbuf
  be_entry :: u64
  be_mappings :: "bootelf_mapping list"
  be_bootinfo :: bootinfo

definition BOOTELF_MAGIC :: cbuf where
  "BOOTELF_MAGIC = [0x31, 0x31, 0x42, 0x4f, 0x4f, 0x54, 0xe1, 0xff, 0]"

record bootelf =
  image_bytes :: "nat \<Rightarrow> cbuf"
  image_header :: "nat \<Rightarrow> bootelf_header"
  image_paddr :: u64

fun locate_loop :: "bootelf \<Rightarrow> nat list \<Rightarrow> bootelf_header option" where
  "locate_loop img [] = None"
| "locate_loop img (off # offs) =
     do {
       c \<leftarrow> memcmp (image_bytes img off) BOOTELF_MAGIC 8;
       if c = 0 then Some (image_header img off) else locate_loop img offs
     }"

definition locate_bootelf_header :: "bootelf \<Rightarrow> bootelf_header option" where
  "locate_bootelf_header img = locate_loop img [0x1000, 0x10000]"

text \<open>A page is taken from the front of the first region that has one.\<close>

fun alloc_page :: "bootinfo \<Rightarrow> (u64 \<times> bootinfo) option" where
  "alloc_page [] = None"
| "alloc_page (m # ms) =
     (if mm_type m = BOOTINFO_MEMMAP_TYPE_AVAILABLE \<and> mm_len m \<ge> PAGE_SIZE
      then do {
        ASSERT (IS_ALIGNED (mm_base m) PAGE_SIZE);
        Some (mm_base m, m\<lparr>mm_base := mm_base m + PAGE_SIZE, mm_len := mm_len m - PAGE_SIZE\<rparr> # ms)
      }
      else map_option (\<lambda>(p, ms). (p, m # ms)) (alloc_page ms))"

text \<open>\<open>unused\<close> is the static variable \<^verbatim>\<open>unused_kpage\<close>. The \<open>flags\<close> argument is not used.\<close>

partial_function (option) map_page ::
  "layout \<Rightarrow> task_t \<Rightarrow> u64 \<Rightarrow> u64 \<Rightarrow> bootinfo \<Rightarrow> u64 \<Rightarrow> kernel \<Rightarrow> (error_t \<times> bootinfo \<times> u64 \<times> kernel) option" where
  "map_page ly task vaddr paddr bi unused s =
     do {
       (kpage, bi) \<leftarrow> (if unused \<noteq> 0 then Some (unused, bi) else alloc_page bi);
       (err, s) \<leftarrow> vm_map ly task vaddr paddr kpage MAP_TYPE_READWRITE s;
       if err = ERR_TRY_AGAIN then map_page ly task vaddr paddr bi 0 s
       else Some (err, bi, kpage, s)
     }"

fun map_zeroed :: "layout \<Rightarrow> task_t \<Rightarrow> nat \<Rightarrow> u64 \<Rightarrow> bootinfo \<Rightarrow> u64 \<Rightarrow> kernel \<Rightarrow> (bootinfo \<times> u64 \<times> kernel) option" where
  "map_zeroed ly task 0 vaddr bi unused s = Some (bi, unused, s)"
| "map_zeroed ly task (Suc n) vaddr bi unused s =
     do {
       (page, bi) \<leftarrow> alloc_page bi;
       ASSERT (page + KERNEL_BASE_ADDR \<noteq> 0);
       let s = s\<lparr>k_pmem := clear_page page (k_pmem s)\<rparr>;
       (err, bi, unused, s) \<leftarrow> map_page ly task vaddr page bi unused s;
       ASSERT (err = OK);
       map_zeroed ly task n (vaddr + PAGE_SIZE) bi unused s
     }"

fun map_image :: "layout \<Rightarrow> task_t \<Rightarrow> nat \<Rightarrow> u64 \<Rightarrow> u64 \<Rightarrow> bootinfo \<Rightarrow> u64 \<Rightarrow> kernel \<Rightarrow> (bootinfo \<times> u64 \<times> kernel) option" where
  "map_image ly task 0 vaddr paddr bi unused s = Some (bi, unused, s)"
| "map_image ly task (Suc n) vaddr paddr bi unused s =
     do {
       (err, bi, unused, s) \<leftarrow> map_page ly task vaddr paddr bi unused s;
       ASSERT (err = OK);
       map_image ly task n (vaddr + PAGE_SIZE) (paddr + PAGE_SIZE) bi unused s
     }"

fun map_bootelf ::
  "layout \<Rightarrow> bootelf \<Rightarrow> bootelf_mapping list \<Rightarrow> task_t \<Rightarrow> bootinfo \<Rightarrow> u64 \<Rightarrow> kernel \<Rightarrow> (bootinfo \<times> u64 \<times> kernel) option" where
  "map_bootelf ly img [] task bi unused s = Some (bi, unused, s)"
| "map_bootelf ly img (m # ms) task bi unused s =
     (let vaddr = bm_vaddr m; paddr = image_paddr img + ucast (bm_offset m) in
      if vaddr = 0 then map_bootelf ly img ms task bi unused s
      else do {
        ASSERT (IS_ALIGNED vaddr PAGE_SIZE);
        ASSERT (IS_ALIGNED paddr PAGE_SIZE);
        (bi, unused, s) \<leftarrow>
          (if bm_zeroed m \<noteq> 0
           then map_zeroed ly task (unat (bm_num_pages m)) vaddr bi unused s
           else map_image ly task (unat (bm_num_pages m)) vaddr paddr bi unused s);
        map_bootelf ly img ms task bi unused s
      })"

text \<open>The name of the idle task.\<close>

definition idle_name :: cbuf where
  "idle_name = [0x28, 0x69, 0x64, 0x6c, 0x65, 0x29, 0]"

definition mpmain :: "layout \<Rightarrow> kernel \<Rightarrow> kernel option" where
  "mpmain ly s =
     do {
       (err, s) \<leftarrow> task_create ly IDLE_TASK idle_name 0 None 0 s;
       ASSERT (err = OK);
       Some (s\<lparr>k_current := IDLE_TASK\<rparr>)
     }"

text \<open>The result has the header of the image with the boot information copied into it. The
  local array \<^verbatim>\<open>name\<close> is uninitialised before \<^verbatim>\<open>strncpy2\<close> fills it.\<close>

definition kmain :: "layout \<Rightarrow> bootelf \<Rightarrow> bootinfo \<Rightarrow> cbuf \<Rightarrow> kernel \<Rightarrow> (bootelf_header \<times> kernel) option" where
  "kmain ly img bi stack s =
     do {
       let s = task_init s;
       bootelf \<leftarrow> locate_bootelf_header img;
       name \<leftarrow> strncpy2 stack (be_name bootelf) (min CONFIG_TASK_NAME_LEN 16);
       let bootelf = bootelf\<lparr>be_bootinfo := bi\<rparr>;
       task \<leftarrow> task_lookup_unchecked INIT_TASK;
       (err, s) \<leftarrow> task_create ly task name (be_entry bootelf) None TASK_ALL_CAPS s;
       ASSERT (err = OK);
       (bi, unused, s) \<leftarrow> map_bootelf ly img (be_mappings bootelf) task bi 0 s;
       s \<leftarrow> mpmain ly s;
       Some (bootelf, s)
     }"

section \<open>The booted kernel\<close>

text \<open>Mapping the image changes physical memory only.\<close>

definition only_pmem :: "kernel \<Rightarrow> kernel \<Rightarrow> bool" where
  "only_pmem s s' \<longleftrightarrow> (\<exists>pm. s' = s\<lparr>k_pmem := pm\<rparr>)"

lemma only_pmem_refl [simp]: "only_pmem s s" "only_pmem s (s\<lparr>k_pmem := pm\<rparr>)"
  unfolding only_pmem_def by (metis kernel.surjective kernel.update_convs(10)) blast

lemma only_pmem_trans: "only_pmem s s' \<Longrightarrow> only_pmem s' s'' \<Longrightarrow> only_pmem s s''"
  by (auto simp: only_pmem_def)

lemma vm_map_only_pmem:
  assumes "vm_map ly t vaddr paddr kpage flags s = Some (err, s')"
  shows "only_pmem s s'"
  using assms by (auto simp: vm_map_def bind_Some_eq split: if_splits)

lemma map_page_only_pmem:
  assumes "map_page ly t vaddr paddr bi unused s = Some (err, bi', u, s')"
  shows "only_pmem s s'"
proof -
  have "map_page ly t vaddr paddr bi unused s = Some r \<Longrightarrow> only_pmem s (snd (snd (snd r)))" for r
    by (erule map_page.raw_induct [rotated])
      (auto simp: bind_Some_eq split: if_splits prod.splits dest!: vm_map_only_pmem intro: only_pmem_trans)
  with assms show ?thesis by fastforce
qed

lemma map_zeroed_only_pmem:
  "map_zeroed ly t n vaddr bi unused s = Some (bi', u, s') \<Longrightarrow> only_pmem s s'"
proof (induction n arbitrary: vaddr bi unused s)
  case (Suc n)
  then obtain page bi1 bi2 u2 s2 where
    "map_page ly t vaddr page bi1 unused (s\<lparr>k_pmem := clear_page page (k_pmem s)\<rparr>) = Some (OK, bi2, u2, s2)"
    "map_zeroed ly t n (vaddr + PAGE_SIZE) bi2 u2 s2 = Some (bi', u, s')"
    by (auto simp: bind_Some_eq Let_def split: if_splits)
  then show ?case
    by (blast intro: only_pmem_trans [OF only_pmem_refl(2)]
      only_pmem_trans [OF map_page_only_pmem] Suc.IH)
qed simp

lemma map_image_only_pmem:
  "map_image ly t n vaddr paddr bi unused s = Some (bi', u, s') \<Longrightarrow> only_pmem s s'"
proof (induction n arbitrary: vaddr paddr bi unused s)
  case (Suc n)
  then obtain bi2 u2 s2 where "map_page ly t vaddr paddr bi unused s = Some (OK, bi2, u2, s2)"
    "map_image ly t n (vaddr + PAGE_SIZE) (paddr + PAGE_SIZE) bi2 u2 s2 = Some (bi', u, s')"
    by (auto simp: bind_Some_eq split: if_splits)
  then show ?case
    by (blast intro: only_pmem_trans [OF map_page_only_pmem] Suc.IH)
qed simp

lemma map_bootelf_only_pmem:
  "map_bootelf ly img ms t bi unused s = Some (bi', u, s') \<Longrightarrow> only_pmem s s'"
proof (induction ms arbitrary: bi unused s)
  case (Cons m ms)
  show ?case
  proof (cases "bm_vaddr m = 0")
    case True
    with Cons show ?thesis by simp
  next
    case False
    with Cons.prems obtain bi2 u2 s2 where "only_pmem s s2"
      "map_bootelf ly img ms t bi2 u2 s2 = Some (bi', u, s')"
      by (auto simp: bind_Some_eq Let_def split: if_splits
        dest: map_zeroed_only_pmem map_image_only_pmem)
    then show ?thesis
      using Cons.IH only_pmem_trans by metis
  qed
qed simp

lemma only_pmem_sel:
  "only_pmem s s' \<Longrightarrow> k_tasks s' = k_tasks s \<and> k_runqueues s' = k_runqueues s \<and>
     k_irq_owners s' = k_irq_owners s \<and> k_conts s' = k_conts s \<and> k_klog s' = k_klog s"
  by (auto simp: only_pmem_def)

text \<open>Creating a task without a pager in the fresh kernel.\<close>

definition fresh_task :: "task \<Rightarrow> u32 \<Rightarrow> u8 list \<Rightarrow> cbuf \<Rightarrow> task" where
  "fresh_task k flags caps nm = k\<lparr>
     t_state := TASK_BLOCKED, t_flags := flags, t_notifications := 0, t_pager := None,
     t_src := IPC_DENY, t_timeout := 0, t_quantum := 0, t_priority := int TASK_PRIORITY_MAX - 1,
     t_ref_count := 0, t_caps := caps, t_name := nm, t_senders := []\<rparr>"

lemma task_create_boot:
  assumes "task_create ly t name ip None flags s = Some (OK, s')" "st s t = TASK_UNUSED"
    "length (t_caps (k_tasks s t)) = BITMAP_SIZE CAP_MAX"
  obtains caps nm pm s1 where "length caps = BITMAP_SIZE CAP_MAX"
    "strncpy2 (t_name (k_tasks s t)) name CONFIG_TASK_NAME_LEN = Some nm"
    "s1 = upd_task t (\<lambda>k. fresh_task k flags caps nm) (set_cont t In_User (s\<lparr>k_pmem := pm\<rparr>))"
    "(if t \<noteq> IDLE_TASK \<and> flags AND TASK_SCHED = 0 then task_resume t s1 else Some s1) = Some s'"
proof -
  let ?f = "flags AND TASK_ALL_CAPS \<noteq> 0"
  obtain pm where pm: "arch_task_create ly CONFIG_NUM_TASKS t ip (k_pmem s) = Some (OK, pm)"
    using assms(1,2) by (auto simp: task_create_def bind_Some_eq split: if_splits)
  obtain caps where caps: "bitmap_fill (t_caps (k_tasks s t)) (BITMAP_SIZE CAP_MAX) ?f = Some caps"
    "length caps = BITMAP_SIZE CAP_MAX"
    using assms(3) by (simp add: bitmap_fill_def)
  obtain nm where nm: "strncpy2 (t_name (k_tasks s t)) name CONFIG_TASK_NAME_LEN = Some nm"
    using assms(1,2) by (auto simp: task_create_def bind_Some_eq split: if_splits)
  let ?s = "upd_task t (\<lambda>k. fresh_task k flags caps nm) (set_cont t In_User (s\<lparr>k_pmem := pm\<rparr>))"
  have "(if t \<noteq> IDLE_TASK \<and> flags AND TASK_SCHED = 0 then task_resume t ?s else Some ?s) \<bind>
      (\<lambda>s. Some (OK, s)) = Some (OK, s')"
    using assms(1,2) pm caps(1) nm by (auto simp: task_create_def fresh_task_def Let_def split: if_splits)
  then have "(if t \<noteq> IDLE_TASK \<and> flags AND TASK_SCHED = 0 then task_resume t ?s else Some ?s) = Some s'"
    by (auto simp: bind_Some_eq simp del: upd_task_sel split: if_splits)
  with that caps(2) nm show thesis by blast
qed

lemma strncpy2_length: "strncpy2 dst src n = Some d \<Longrightarrow> length d = length dst"
proof -
  have "strncpy2_loop dst src lim i = Some d \<Longrightarrow> length d = length dst" for lim i
    by (induction dst src lim i rule: strncpy2_loop.induct)
      (subst (asm) (2) strncpy2_loop.simps, auto split: if_splits)
  then show "strncpy2 dst src n = Some d \<Longrightarrow> length d = length dst"
    by (simp add: strncpy2_def)
qed

text \<open>What the kernel looks like when it enters the idle loop: two control blocks in use, the
  initial task alone in the lowest run queue.\<close>

lemma booted_kinv:
  assumes "k_tasks s = (\<lambda>t. if t = INIT_TASK then (fresh_task zero_task f1 c1 n1)\<lparr>t_state := TASK_RUNNABLE\<rparr>
      else if t = IDLE_TASK then fresh_task zero_task f0 c0 n0 else zero_task)"
    "k_runqueues s = (\<lambda>_. [])(TASK_PRIORITY_MAX - 1 := [INIT_TASK])" "k_irq_owners s = (\<lambda>_. None)"
    "k_conts s = (\<lambda>_. In_User)" "k_current s = IDLE_TASK" "klog_inv (k_klog s)"
    "length c0 = BITMAP_SIZE CAP_MAX" "length c1 = BITMAP_SIZE CAP_MAX"
    "length n0 = CONFIG_TASK_NAME_LEN" "length n1 = CONFIG_TASK_NAME_LEN"
  shows "kinv_run s"
proof -
  have id: "task_id INIT_TASK" "INIT_TASK \<noteq> IDLE_TASK"
    by (simp_all add: task_id_def kconst)
  have t: "k_tasks s t = (if t = INIT_TASK then (fresh_task zero_task f1 c1 n1)\<lparr>t_state := TASK_RUNNABLE\<rparr>
      else if t = IDLE_TASK then fresh_task zero_task f0 c0 n0 else zero_task)" for t
    by (simp add: assms(1))
  have "runq_ok s"
    using id unfolding runq_ok_def t assms(2,5)
    by (auto simp: fresh_task_def zero_task_def TASK_PRIORITY_MAX_def)
  moreover have "cur_ok s" by (simp add: cur_ok_def assms(5))
  moreover have "ipc_ok s"
    using id by (auto simp: ipc_ok_def task_ok_def senders_ok_def t assms(4) fresh_task_def zero_task_def)
  moreover have "res_ok s"
  proof -
    have pg: "paged_by s p = {}" for p
      by (auto simp: paged_by_def t fresh_task_def zero_task_def split: if_splits)
    show ?thesis
      using assms(6-10) unfolding res_ok_def pg assms(3) t
      by (auto simp: fresh_task_def zero_task_def)
  qed
  ultimately show ?thesis by (simp add: kinv_run_def kinv_def assms(4))
qed

lemma kmain_boots:
  assumes "kmain ly img bi stack (zero_kernel pm um ub) = Some (h, s)"
  shows "kinv_run s \<and> k_current s = IDLE_TASK"
proof -
  let ?z = "task_init (zero_kernel pm um ub)"
  have z: "k_tasks ?z = (\<lambda>_. zero_task)" "k_runqueues ?z = (\<lambda>_. [])" "k_irq_owners ?z = (\<lambda>_. None)"
    "k_conts ?z = (\<lambda>_. In_User)" "klog_inv (k_klog ?z)"
    by (auto simp: task_init_def zero_kernel_def zero_task_def klog_inv_def CONFIG_KLOG_BUF_SIZE_def fun_eq_iff)
  have lk: "task_lookup_unchecked INIT_TASK = Some INIT_TASK"
    by (simp add: task_lookup_unchecked_def kconst)
  obtain name ip bi' u ms s1 s2 s3 where
    c1: "task_create ly INIT_TASK name ip None TASK_ALL_CAPS ?z = Some (OK, s1)" and
    m: "map_bootelf ly img ms INIT_TASK bi 0 s1 = Some (bi', u, s2)" and
    c2: "task_create ly IDLE_TASK idle_name 0 None 0 s2 = Some (OK, s3)" and s: "s = s3\<lparr>k_current := IDLE_TASK\<rparr>"
    using assms lk by (auto simp: kmain_def mpmain_def bind_Some_eq Let_def split: if_splits)
  obtain caps1 nm1 pm1 r1 where r1: "length caps1 = BITMAP_SIZE CAP_MAX"
    "strncpy2 (t_name (k_tasks ?z INIT_TASK)) name CONFIG_TASK_NAME_LEN = Some nm1"
    "r1 = upd_task INIT_TASK (\<lambda>k. fresh_task k TASK_ALL_CAPS caps1 nm1) (set_cont INIT_TASK In_User (?z\<lparr>k_pmem := pm1\<rparr>))"
    "(if INIT_TASK \<noteq> IDLE_TASK \<and> TASK_ALL_CAPS AND TASK_SCHED = 0 then task_resume INIT_TASK r1 else Some r1) = Some s1"
    by (rule task_create_boot [OF c1]) (simp_all add: z zero_task_def)
  have s1: "k_tasks s1 = (\<lambda>_. zero_task)(INIT_TASK := (fresh_task zero_task TASK_ALL_CAPS caps1 nm1)\<lparr>t_state := TASK_RUNNABLE\<rparr>)"
    "k_runqueues s1 = (\<lambda>_. [])(TASK_PRIORITY_MAX - 1 := [INIT_TASK])" "k_irq_owners s1 = (\<lambda>_. None)"
    "k_conts s1 = (\<lambda>_. In_User)" "klog_inv (k_klog s1)"
    using r1(4) z unfolding r1(3)
    by (auto simp: task_resume_def enqueue_task_def kconst fresh_task_def Let_def bind_Some_eq split: if_splits)
  note p = only_pmem_sel [OF map_bootelf_only_pmem [OF m]]
  have ne: "IDLE_TASK \<noteq> INIT_TASK" by (simp add: kconst)
  obtain caps0 nm0 pm0 r0 where r0: "length caps0 = BITMAP_SIZE CAP_MAX"
    "strncpy2 (t_name (k_tasks s2 IDLE_TASK)) idle_name CONFIG_TASK_NAME_LEN = Some nm0"
    "r0 = upd_task IDLE_TASK (\<lambda>k. fresh_task k 0 caps0 nm0) (set_cont IDLE_TASK In_User (s2\<lparr>k_pmem := pm0\<rparr>))"
    "(if IDLE_TASK \<noteq> IDLE_TASK \<and> 0 AND TASK_SCHED = 0 then task_resume IDLE_TASK r0 else Some r0) = Some s3"
    by (rule task_create_boot [OF c2]) (use ne in \<open>simp_all add: p s1 zero_task_def\<close>)
  have l: "length nm0 = CONFIG_TASK_NAME_LEN" "length nm1 = CONFIG_TASK_NAME_LEN"
    using strncpy2_length [OF r0(2)] strncpy2_length [OF r1(2)] ne by (simp_all add: p s1 z zero_task_def)
  have "kinv_run s"
  proof (rule booted_kinv [of s TASK_ALL_CAPS caps1 nm1 0 caps0 nm0])
    show "k_tasks s = (\<lambda>t. if t = INIT_TASK then (fresh_task zero_task TASK_ALL_CAPS caps1 nm1)\<lparr>t_state := TASK_RUNNABLE\<rparr>
      else if t = IDLE_TASK then fresh_task zero_task 0 caps0 nm0 else zero_task)"
      using r0(3,4) ne by (auto simp: s p s1)
  qed (use r0(1,3,4) r1(1) l p s1(2-5) in \<open>auto simp: s\<close>)
  then show ?thesis by (simp add: s)
qed

end
