(* ===== verification/Kernel_Props.thy ===== *)
theory Kernel_Props
  imports Kernel_Boot
begin

text \<open>
  What the kernel guarantees to the tasks: scheduling, message passing, notifications,
  capabilities, the life of a task. The lemmas here speak of whole system calls and of the
  states that follow.
\<close>

section \<open>A concrete kernel\<close>

text \<open>Three tasks: the initial task (1) runs and is the pager of the other two, 2 waits for a
  message from anybody, 3 is ready to run and has no capabilities.\<close>

definition demo_task :: task where
  "demo_task = zero_task\<lparr>t_state := TASK_RUNNABLE, t_priority := 7, t_pager := Some 1\<rparr>"

definition demo :: kernel where
  "demo = (task_init (zero_kernel (\<lambda>_. 0) (\<lambda>_ _. zero_message) (\<lambda>_ _. 0)))\<lparr>
     k_tasks := (\<lambda>_. zero_task)(
       1 := demo_task\<lparr>t_pager := None, t_ref_count := 2, t_caps := [0xff], t_quantum := 5\<rparr>,
       2 := demo_task\<lparr>t_state := TASK_BLOCKED, t_src := IPC_ANY\<rparr>,
       3 := demo_task),
     k_runqueues := (\<lambda>_. [])(7 := [3]),
     k_conts := (\<lambda>_. In_User)(2 := Recv_Blocked (Umsg 0x2000) IPC_RECV By_Syscall),
     k_current := 1\<rparr>"

lemma demo_kinv: "kinv_run demo"
proof -
  have id: "task_id 1" "task_id 2" "task_id 3" by (simp_all add: task_id_def kconst)
  have k: "k_tasks demo = (\<lambda>_. zero_task)(
       1 := demo_task\<lparr>t_pager := None, t_ref_count := 2, t_caps := [0xff], t_quantum := 5\<rparr>,
       2 := demo_task\<lparr>t_state := TASK_BLOCKED, t_src := IPC_ANY\<rparr>, 3 := demo_task)"
    "k_runqueues demo = (\<lambda>_. [])(7 := [3])" "k_current demo = 1" "k_irq_owners demo = (\<lambda>_. None)"
    "k_conts demo = (\<lambda>_. In_User)(2 := Recv_Blocked (Umsg 0x2000) IPC_RECV By_Syscall)"
    by (simp_all add: demo_def task_init_def zero_kernel_def fun_eq_iff)
  have l: "klog_inv (k_klog demo)"
    by (simp add: demo_def task_init_def zero_kernel_def klog_inv_def CONFIG_KLOG_BUF_SIZE_def)
  have "runq_ok demo"
    using id unfolding runq_ok_def k(1-3)
    by (auto simp: demo_task_def zero_task_def TASK_PRIORITY_MAX_def)
  moreover have "cur_ok demo"
    using id by (simp add: cur_ok_def k demo_task_def)
  moreover have "ipc_ok demo"
    by (auto simp: ipc_ok_def task_ok_def senders_ok_def k demo_task_def zero_task_def kconst buf_ok_def)
  moreover have "res_ok demo"
  proof -
    have pg: "paged_by demo p = (if p = 1 then {2, 3} else {})" for p
      using id by (auto simp: paged_by_def k demo_task_def zero_task_def split: if_splits)
    show ?thesis
      using l id unfolding res_ok_def pg k(1,4)
      by (auto simp: demo_task_def zero_task_def kconst BITMAP_SIZE_def BITS_PER_BYTE_def)
  qed
  ultimately show ?thesis by (simp add: kinv_run_def kinv_def k)
qed

section \<open>Scheduling\<close>

lemma upt_split:
  assumes "[0..<n] = pre @ i # post"
  shows "set pre = {0..<i}"
proof -
  have len: "length pre < n"
    using arg_cong [OF assms, of length] by simp
  then have "i = length pre"
    using arg_cong [OF assms, of "\<lambda>xs. xs ! length pre"] by simp
  moreover have "pre = take (length pre) [0..<n]"
    using assms by simp
  ultimately show ?thesis
    using len by (metis add_0 less_imp_le set_upt take_upt)
qed

lemma task_switch_spec:
  assumes "runq_ok s" "k_current s = IDLE_TASK \<or> task_id (k_current s)"
  shows "returns (task_switch s) (\<lambda>s'. let n = k_current s' in
    t_quantum (k_tasks s' n) = TASK_TIME_SLICE \<and>
    (if n = IDLE_TASK then \<forall>t. task_id t \<longrightarrow> st s t \<noteq> TASK_RUNNABLE
     else task_id n \<and> st s n = TASK_RUNNABLE \<and>
       (\<forall>t. task_id t \<and> st s t = TASK_RUNNABLE \<longrightarrow> t_priority (k_tasks s n) \<le> t_priority (k_tasks s t))))"
proof -
  obtain q where q: "(if k_current s \<noteq> IDLE_TASK \<and> st s (k_current s) = TASK_RUNNABLE
      then enqueue_task (k_current s) s else Some s) = Some (s\<lparr>k_runqueues := q\<rparr>)"
    and ok: "runq_ok (s\<lparr>k_runqueues := q, k_current := IDLE_TASK\<rparr>)"
    by (rule enqueue_current [OF assms])
  have m: "t \<in> set (q i) \<longleftrightarrow> i < TASK_PRIORITY_MAX \<and> task_id t \<and> st s t = TASK_RUNNABLE \<and>
      t_priority (k_tasks s t) = int i" for i t
    using ok by (auto simp: runq_ok_def)
  have pr: "task_id t \<Longrightarrow> st s t = TASK_RUNNABLE \<Longrightarrow>
      \<exists>i<TASK_PRIORITY_MAX. t \<in> set (q i) \<and> t_priority (k_tasks s t) = int i" for t
  proof -
    assume t: "task_id t" "st s t = TASK_RUNNABLE"
    then have "0 \<le> t_priority (k_tasks s t)" "t_priority (k_tasks s t) < int TASK_PRIORITY_MAX"
      using assms(1) by (auto simp: runq_ok_def)
    then show ?thesis using t m by (intro exI [of _ "nat (t_priority (k_tasks s t))"]) simp
  qed
  show ?thesis
  proof (rule sched_loop_cases [of "[0..<TASK_PRIORITY_MAX]" "s\<lparr>k_runqueues := q\<rparr>"])
    assume "sched_loop [0..<TASK_PRIORITY_MAX] (s\<lparr>k_runqueues := q\<rparr>) = (IDLE_TASK, s\<lparr>k_runqueues := q\<rparr>)"
      and "\<forall>i\<in>set [0..<TASK_PRIORITY_MAX]. k_runqueues (s\<lparr>k_runqueues := q\<rparr>) i = []"
    then show ?thesis
      using q pr by (fastforce simp: task_switch_def scheduler_def Let_def)
  next
    fix n s'
    assume *: "sched_loop [0..<TASK_PRIORITY_MAX] (s\<lparr>k_runqueues := q\<rparr>) = (n, s')"
      and p: "picks [0..<TASK_PRIORITY_MAX] (s\<lparr>k_runqueues := q\<rparr>) n s'"
    then obtain pre i post rest where i: "[0..<TASK_PRIORITY_MAX] = pre @ i # post"
      "\<forall>j\<in>set pre. q j = []" "q i = n # rest" "s' = s\<lparr>k_runqueues := q(i := rest)\<rparr>"
      by (auto simp: picks_def)
    have "t_priority (k_tasks s n) \<le> t_priority (k_tasks s t)" if t: "task_id t" "st s t = TASK_RUNNABLE" for t
    proof -
      obtain j where j: "j < TASK_PRIORITY_MAX" "t \<in> set (q j)" "t_priority (k_tasks s t) = int j"
        using pr [OF t] by blast
      then have "\<not> j < i" using i(2) upt_split [OF i(1)] by fastforce
      then show ?thesis using j m [of n i] i(3) by simp
    qed
    moreover have "task_id n" "st s n = TASK_RUNNABLE"
      using m [of n i] i(3) by simp_all
    ultimately show ?thesis
      using q * i(4) by (auto simp: task_switch_def scheduler_def Let_def)
  qed
qed







text \<open>
  C7: A context switch always succeeds and picks a task of the highest priority: the idle task
  runs only when no task is runnable, and otherwise no runnable task has a smaller priority
  number than the one picked, which gets a full time slice.
\<close>

theorem scheduler_highest_priority:
  assumes "kinv s"
  shows "\<exists>s' n. task_switch s = Some s' \<and> n = k_current s' \<and>
    t_quantum (k_tasks s' n) = TASK_TIME_SLICE \<and>
    (n = IDLE_TASK \<longrightarrow> (\<forall>t. task_id t \<longrightarrow> st s t \<noteq> TASK_RUNNABLE)) \<and>
    (n \<noteq> IDLE_TASK \<longrightarrow> task_id n \<and> st s n = TASK_RUNNABLE \<and>
      (\<forall>t. task_id t \<and> st s t = TASK_RUNNABLE \<longrightarrow> t_priority (k_tasks s n) \<le> t_priority (k_tasks s t)))"
proof -
  have "runq_ok s" "k_current s = IDLE_TASK \<or> task_id (k_current s)"
    using assms by (auto simp: kinv_def cur_ok_def)
  from task_switch_spec [OF this] show ?thesis
    by (elim returnsE) (auto simp: Let_def split: if_splits)
qed

theorem scheduler_highest_priority_witness:
  "kinv demo \<and> (\<exists>s' n. task_switch demo = Some s' \<and> n = k_current s' \<and>
    t_quantum (k_tasks s' n) = TASK_TIME_SLICE)"
proof -
  have k: "kinv demo" using demo_kinv by (simp add: kinv_run_def)
  show ?thesis using k scheduler_highest_priority [OF k] by blast
qed

section \<open>Reachable states\<close>

text \<open>
  C1: The kernel does not crash. From the state the boot code leaves, any sequence of
  acceptable events (system calls with any arguments but those \<open>syscall_ok\<close> excludes,
  interrupts, page faults, and the continuation of suspended tasks) keeps the invariant, and
  any further acceptable event is handled without failing an assertion, indexing out of
  bounds, or panicking.
\<close>

theorem kernel_never_panics:
  assumes "kmain ly img bi stack (zero_kernel pm um ub) = Some (h, s0)"
    and "(kstep ly)\<^sup>*\<^sup>* s0 s" and "event_ok s ev"
  shows "\<exists>s'. kernel_event ly ev s = Some s' \<and> kinv s'"
proof -
  have "kinv s0" using kmain_boots [OF assms(1)] by (simp add: kinv_run_def)
  then have "kinv s" by (rule ksteps_kinv [OF assms(2)])
  from kernel_event_ok [OF this assms(3)] show ?thesis by (auto elim: returnsE)
qed

text \<open>A boot image without segments, whose header is at the first offset.\<close>

definition demo_image :: bootelf where
  "demo_image = \<lparr>image_bytes = (\<lambda>_. BOOTELF_MAGIC),
     image_header = (\<lambda>_. \<lparr>be_name = [0x76, 0x6d, 0], be_entry = 0x1000000, be_mappings = [], be_bootinfo = []\<rparr>),
     image_paddr = 0x100000\<rparr>"

definition demo_layout :: layout where
  "demo_layout = \<lparr>kernel_image = 0x100000, kernel_image_end = 0x200000, kernel_pml4 = 0x700000, pml4_tables = 0x800000\<rparr>"

lemma task_create_None:
  assumes "st s t = TASK_UNUSED" "flags = 0 \<or> flags = TASK_ALL_CAPS" "is_canonical_addr ip"
    "0 \<le> t" "t < CONFIG_NUM_TASKS" "length (t_caps (k_tasks s t)) = BITMAP_SIZE CAP_MAX"
    "length (t_name (k_tasks s t)) = CONFIG_TASK_NAME_LEN" "cstr name nm"
    "t \<notin> set (k_runqueues s (TASK_PRIORITY_MAX - 1))"
  shows "\<exists>s'. task_create ly t name ip None flags s = Some (OK, s')"
proof -
  have fl: "flags AND NOT allowed_flags = 0" "flags AND TASK_ABI_EMU = 0" "flags AND TASK_HV = 0"
    using assms(2) by (auto simp: kconst allowed_flags_def)
  obtain d where d: "strncpy2 (t_name (k_tasks s t)) name CONFIG_TASK_NAME_LEN = Some d"
    using strncpy2_is_cstr [OF assms(8), of CONFIG_TASK_NAME_LEN "t_name (k_tasks s t)"] assms(7)
    by (auto simp: CONFIG_TASK_NAME_LEN_def)
  show ?thesis
    using assms(1,3-6,9) fl d
    by (simp add: task_create_def arch_task_create_def bitmap_fill_def task_resume_def enqueue_task_def
      Let_def TASK_PRIORITY_MAX_def)
qed

lemma demo_boot:
  "\<exists>h s. kmain demo_layout demo_image [] (replicate 16 0) (zero_kernel (\<lambda>_. 0) um ub) = Some (h, s)"
proof -
  let ?z = "task_init (zero_kernel (\<lambda>_. 0) um ub)"
  have m: "locate_bootelf_header demo_image = Some (image_header demo_image 0x1000)"
    by (simp add: locate_bootelf_header_def demo_image_def BOOTELF_MAGIC_def)
  have l: "task_lookup_unchecked INIT_TASK = Some INIT_TASK"
    by (simp add: task_lookup_unchecked_def kconst)
  have c: "cstr [0x76, 0x6d, 0] [0x76, 0x6d]" "cstr idle_name [0x28, 0x69, 0x64, 0x6c, 0x65, 0x29]"
    by (simp_all add: idle_name_def cstr_Cons)
  obtain name where name: "strncpy2 (replicate 16 0) [0x76, 0x6d, 0] 16 = Some name"
    "cstr name (take 15 [0x76, 0x6d])"
    using strncpy2_is_cstr [OF c(1), of 16 "replicate 16 0"] by auto
  have z: "k_tasks ?z = (\<lambda>_. zero_task)" "k_runqueues ?z = (\<lambda>_. [])"
    by (auto simp: task_init_def zero_kernel_def zero_task_def fun_eq_iff)
  obtain s1 where s1: "task_create demo_layout INIT_TASK name 0x1000000 None TASK_ALL_CAPS ?z = Some (OK, s1)"
    using task_create_None [OF _ _ _ _ _ _ _ name(2), of ?z INIT_TASK TASK_ALL_CAPS "0x1000000"]
    by (auto simp: z zero_task_def is_canonical_addr_def kconst Let_def)
  obtain caps nm pm r1 where r1:
    "r1 = upd_task INIT_TASK (\<lambda>k. fresh_task k TASK_ALL_CAPS caps nm) (set_cont INIT_TASK In_User (?z\<lparr>k_pmem := pm\<rparr>))"
    "(if INIT_TASK \<noteq> IDLE_TASK \<and> TASK_ALL_CAPS AND TASK_SCHED = 0 then task_resume INIT_TASK r1 else Some r1) = Some s1"
    by (rule task_create_boot [OF s1]) (simp_all add: z zero_task_def)
  have t: "k_tasks s1 IDLE_TASK = zero_task" "set (k_runqueues s1 (TASK_PRIORITY_MAX - 1)) = {INIT_TASK}"
    using r1(2) unfolding r1(1)
    by (auto simp: z task_resume_def enqueue_task_def kconst fresh_task_def Let_def split: if_splits)
  obtain s2 where s2: "task_create demo_layout IDLE_TASK idle_name 0 None 0 s1 = Some (OK, s2)"
    using task_create_None [OF _ _ _ _ _ _ _ c(2), of s1 IDLE_TASK 0 0] t
    by (auto simp: zero_task_def is_canonical_addr_def kconst Let_def)
  show ?thesis
    using m l name(1) s1 s2 by (simp add: kmain_def mpmain_def demo_image_def CONFIG_TASK_NAME_LEN_def)
qed

theorem kernel_never_panics_witness:
  "\<exists>h s0 s'. kmain demo_layout demo_image [] (replicate 16 0)
      (zero_kernel (\<lambda>_. 0) (\<lambda>_ _. zero_message) (\<lambda>_ _. 0)) = Some (h, s0) \<and>
    event_ok s0 (Ev_Interrupt 48 0 0 0) \<and>
    kernel_event demo_layout (Ev_Interrupt 48 0 0 0) s0 = Some s' \<and> kinv s'"
proof -
  obtain h s0 where b: "kmain demo_layout demo_image [] (replicate 16 0)
      (zero_kernel (\<lambda>_. 0) (\<lambda>_ _. zero_message) (\<lambda>_ _. 0)) = Some (h, s0)"
    using demo_boot by blast
  have e: "event_ok s0 (Ev_Interrupt 48 0 0 0)"
    using kmain_boots [OF b] by (auto simp: kinv_run_def interrupt_ok_def VECTOR_IRQ_BASE_def)
  show ?thesis
    using b e kernel_never_panics [OF b rtranclp.rtrancl_refl e] by blast
qed

section \<open>Message passing\<close>

text \<open>Where a receiver is suspended with a user buffer, and what it does when it runs again.\<close>

fun waits_at :: "kcont \<Rightarrow> u64 \<Rightarrow> bool" where
  "waits_at (Recv_Blocked (Umsg q) flags By_Syscall) p \<longleftrightarrow> q = p \<and> flags AND IPC_KERNEL = 0"
| "waits_at (Fastpath_Blocked q) p \<longleftrightarrow> q = p"
| "waits_at _ p \<longleftrightarrow> False"

lemma kresume_receiver:
  assumes "waits_at (k_conts s (k_current s)) q" "\<not> is_kernel_addr_range q MESSAGE_SIZE"
  shows "\<exists>s'. kresume s = Some s' \<and> k_current s' = k_current s \<and>
    k_umem s' (k_current s) q = t_m (k_tasks s (k_current s)) \<and> k_uret s' (k_current s) = 0"
  using assms
  by (cases "(k_conts s (k_current s), q)" rule: waits_at.cases)
    (auto simp: kresume_def Let_def copy_out_def memcpy_to_user_def return_to_def split: msgbuf.splits)

text \<open>
  C2: A message arrives unchanged and with its true sender. When the current task sends to a
  task that waits for it (or for anybody) with a user buffer, \<open>ipc\<close> returns OK, the receiver
  becomes runnable, and when it is switched to, its buffer holds the message that was in the
  sender's buffer, with the \<open>src\<close> field set to the sender whatever the sender wrote there,
  and its system call returns OK.
\<close>

theorem ipc_delivers:
  assumes "kinv_run s" "k_current s \<noteq> IDLE_TASK" "inuse s d" "receiver_is_ready d s"
    and "waits_at (k_conts s d) q" "\<not> is_kernel_addr_range q MESSAGE_SIZE"
    and "\<not> is_kernel_addr_range p MESSAGE_SIZE"
  shows "\<exists>s' s''. ipc (Some d) 0 (Umsg p) IPC_SEND By_Syscall s = Some (Return OK (Umsg p), s') \<and>
    st s' d = TASK_RUNNABLE \<and> k_conts s' = k_conts s \<and>
    kresume (s'\<lparr>k_current := d\<rparr>) = Some s'' \<and>
    k_umem s'' d q = (k_umem s (k_current s) p)\<lparr>m_src := k_current s\<rparr> \<and> k_uret s'' d = 0"
proof -
  let ?m = "(k_umem s (k_current s) p)\<lparr>m_src := k_current s\<rparr>"
  let ?s1 = "upd_task d (\<lambda>k. k\<lparr>t_m := ?m\<rparr>) s"
  have ne: "d \<noteq> k_current s"
    using assms(1,2,4) kinv_cur [of s] by (auto simp: receiver_is_ready_def kinv_run_def)
  have "runq_ok ?s1"
    using assms(1) by (intro runq_ok_frame [of ?s1 s]) (simp_all add: kinv_run_def kinv_def)
  then have r: "task_resume d ?s1 = Some (resumed d ?s1)"
    using assms(3,4) by (intro task_resume_Some) (auto simp: receiver_is_ready_def)
  have fl: "IPC_SEND AND IPC_KERNEL = 0" "IPC_SEND AND IPC_RECV = 0" "IPC_SEND \<noteq> 0"
    "IPC_SEND AND NOT IPC_NOBLOCK \<noteq> IPC_CALL"
    by (simp_all add: kconst)
  have "ipc (Some d) 0 (Umsg p) IPC_SEND By_Syscall s = Some (Return OK (Umsg p), resumed d ?s1)"
    using ne assms(4,7) r fl
    by (simp add: ipc_def fastpath_def ipc_slowpath_def copy_in_def memcpy_from_user_def deliver_def
      ipc_recv_def Let_def)
  moreover obtain s'' where "kresume ((resumed d ?s1)\<lparr>k_current := d\<rparr>) = Some s''"
    "k_umem s'' d q = ?m" "k_uret s'' d = 0"
    using kresume_receiver [of "(resumed d ?s1)\<lparr>k_current := d\<rparr>" q] assms(5,6) by auto
  ultimately show ?thesis by auto
qed

lemma demo_sel:
  "k_current demo = 1" "k_conts demo 2 = Recv_Blocked (Umsg 0x2000) IPC_RECV By_Syscall"
  "st demo 2 = TASK_BLOCKED" "srcof demo 2 = IPC_ANY"
  "k_umem demo = (\<lambda>_ _. zero_message)" "st demo 1 = TASK_RUNNABLE" "st demo 3 = TASK_RUNNABLE"
  by (simp_all add: demo_def demo_task_def task_init_def zero_kernel_def)

lemma demo_user_addr: "\<not> is_kernel_addr_range 0x2000 MESSAGE_SIZE" "\<not> is_kernel_addr_range 0x1000 MESSAGE_SIZE"
  by (simp_all add: is_kernel_addr_range_def kconst)

theorem ipc_delivers_witness:
  "\<exists>s' s''. ipc (Some 2) 0 (Umsg 0x1000) IPC_SEND By_Syscall demo = Some (Return OK (Umsg 0x1000), s') \<and>
    kresume (s'\<lparr>k_current := 2\<rparr>) = Some s'' \<and> k_umem s'' 2 0x2000 = zero_message\<lparr>m_src := 1\<rparr>"
proof -
  have h: "k_current demo \<noteq> IDLE_TASK" "inuse demo 2" "receiver_is_ready 2 demo" "waits_at (k_conts demo 2) 0x2000"
    by (simp_all add: demo_sel receiver_is_ready_def task_id_def kconst)
  from ipc_delivers [OF demo_kinv h demo_user_addr] show ?thesis
    unfolding demo_sel by blast
qed

end
