(* ===== verification/Malloc.thy ===== *)
theory Malloc
  imports C_String
begin

text \<open>
  The user-space allocator, \<^verbatim>\<open>libs/resea/malloc.c\<close>: segregated free lists (\<^verbatim>\<open>bins\<close>) of chunks that
  lie in one heap, the last list holding the chunks of arbitrary size, from which new chunks
  are split off.

  Addresses and sizes are natural numbers; the three computations of the code that can leave
  the 64 bits of \<^verbatim>\<open>size_t\<close> (rounding up the size, adding the frame length twice) wrap as
  they do there. The header fields of the chunk at an address are an entry of \<open>h_chunks\<close>;
  the bytes after them (the underflow redzone, the data, the overflow redzone) are in the byte
  memory \<open>h_mem\<close>. Address 0 is the null pointer. Using an address that holds no chunk header
  is a fault (\<open>None\<close>), as is every \<^verbatim>\<open>PANIC\<close>.
\<close>

section \<open>The code\<close>

definition NUM_BINS :: nat where
  [kconst]: "NUM_BINS = 16"

definition MALLOC_FREE :: u64 where
  [kconst]: "MALLOC_FREE = 0x0a110ced0a110ced"

definition MALLOC_IN_USE :: u64 where
  [kconst]: "MALLOC_IN_USE = 0xdea110cddea110cd"

definition MALLOC_REDZONE_LEN :: nat where
  [kconst]: "MALLOC_REDZONE_LEN = 16"

text \<open>\<^verbatim>\<open>sizeof(struct malloc_chunk)\<close>, asserted to be 48 by the header; the underflow redzone is its
  last field.\<close>

definition CHUNK_LEN :: nat where
  [kconst]: "CHUNK_LEN = 48"

definition MALLOC_FRAME_LEN :: nat where
  [kconst]: "MALLOC_FRAME_LEN = CHUNK_LEN + MALLOC_REDZONE_LEN"

definition MALLOC_REDZONE_UNDFLOW_MARKER :: u8 where
  [kconst]: "MALLOC_REDZONE_UNDFLOW_MARKER = 0x5a"

definition MALLOC_REDZONE_OVRFLOW_MARKER :: u8 where
  [kconst]: "MALLOC_REDZONE_OVRFLOW_MARKER = 0x5b"

record malloc_chunk =
  ck_next :: nat
  ck_capacity :: nat
  ck_size :: nat
  ck_magic :: u64

record mheap =
  h_chunks :: "nat \<rightharpoonup> malloc_chunk"
  h_mem :: "nat \<Rightarrow> u8"
  h_bins :: "nat \<Rightarrow> nat"

definition upd_chunk :: "nat \<Rightarrow> (malloc_chunk \<Rightarrow> malloc_chunk) \<Rightarrow> mheap \<Rightarrow> mheap option" where
  "upd_chunk a f h =
     do {
       c \<leftarrow> h_chunks h a;
       Some (h\<lparr>h_chunks := (h_chunks h)(a \<mapsto> f c)\<rparr>)
     }"

text \<open>Where the redzones and the data of the chunk at \<open>a\<close> begin.\<close>

definition underflow_redzone :: "nat \<Rightarrow> nat" where
  "underflow_redzone a = a + CHUNK_LEN - MALLOC_REDZONE_LEN"

definition chunk_data :: "nat \<Rightarrow> nat" where
  "chunk_data a = a + CHUNK_LEN"

definition check_buffer_overflow :: "nat \<Rightarrow> mheap \<Rightarrow> unit option" where
  "check_buffer_overflow a h =
     do {
       c \<leftarrow> h_chunks h a;
       if ck_magic c = MALLOC_FREE then Some ()
       else do {
         ASSERT (list_all (\<lambda>i. h_mem h (underflow_redzone a + i) = MALLOC_REDZONE_UNDFLOW_MARKER)
           [0..<MALLOC_REDZONE_LEN]);
         ASSERT (list_all (\<lambda>i. h_mem h (chunk_data a + ck_capacity c + i) = MALLOC_REDZONE_OVRFLOW_MARKER)
           [0..<MALLOC_REDZONE_LEN])
       }
     }"

text \<open>The walk of \<open>insert\<close> to the last chunk of the list.\<close>

partial_function (option) last_chunk :: "nat \<Rightarrow> mheap \<Rightarrow> nat option" where
  "last_chunk a h =
     do {
       _ \<leftarrow> check_buffer_overflow a h;
       c \<leftarrow> h_chunks h a;
       if ck_next c = 0 then Some a else last_chunk (ck_next c) h
     }"

definition chunk_insert :: "nat \<Rightarrow> nat \<Rightarrow> mheap \<Rightarrow> (nat \<times> mheap) option" where
  "chunk_insert ptr len h =
     do {
       ASSERT (len > MALLOC_FRAME_LEN);
       let h = h\<lparr>h_chunks := (h_chunks h)(ptr \<mapsto>
         \<lparr>ck_next = 0, ck_capacity = len - MALLOC_FRAME_LEN, ck_size = 0, ck_magic = MALLOC_FREE\<rparr>)\<rparr>;
       h \<leftarrow> (if h_bins h (NUM_BINS - 1) = 0
             then Some (h\<lparr>h_bins := (h_bins h)(NUM_BINS - 1 := ptr)\<rparr>)
             else do {
               a \<leftarrow> last_chunk (h_bins h (NUM_BINS - 1)) h;
               upd_chunk a (\<lambda>c. c\<lparr>ck_next := ptr\<rparr>) h
             });
       Some (ptr, h)
     }"

definition split :: "nat \<Rightarrow> nat \<Rightarrow> mheap \<Rightarrow> (nat \<times> mheap) option" where
  "split a len h =
     (let new_chunk_len = (MALLOC_FRAME_LEN + len) mod 2 ^ 64 in
      do {
        c \<leftarrow> h_chunks h a;
        ASSERT (ck_capacity c \<ge> new_chunk_len);
        let new_chunk = chunk_data a + (ck_capacity c + MALLOC_REDZONE_LEN - new_chunk_len);
        let chunks = (h_chunks h)(a \<mapsto> c\<lparr>ck_capacity := ck_capacity c - new_chunk_len\<rparr>);
        ASSERT (new_chunk_len > MALLOC_FRAME_LEN);
        Some (new_chunk, h\<lparr>h_chunks := chunks(new_chunk \<mapsto>
          \<lparr>ck_next = 0, ck_capacity = len, ck_size = 0, ck_magic = MALLOC_FREE\<rparr>)\<rparr>)
      })"

text \<open>\<open>None\<close> is the result -1.\<close>

definition get_bin_idx_from_size :: "nat \<Rightarrow> nat option" where
  "get_bin_idx_from_size sz = find (\<lambda>i. sz \<le> 2 ^ i) [0..<NUM_BINS - 1]"

definition set_redzones :: "nat \<Rightarrow> nat \<Rightarrow> (nat \<Rightarrow> u8) \<Rightarrow> nat \<Rightarrow> u8" where
  "set_redzones a capacity mem =
     (\<lambda>x. if chunk_data a + capacity \<le> x \<and> x < chunk_data a + capacity + MALLOC_REDZONE_LEN
          then MALLOC_REDZONE_OVRFLOW_MARKER
          else if underflow_redzone a \<le> x \<and> x < underflow_redzone a + MALLOC_REDZONE_LEN
          then MALLOC_REDZONE_UNDFLOW_MARKER
          else mem x)"

text \<open>The assignments both branches of \<open>malloc\<close> make to the chunk they have chosen.\<close>

definition use_chunk :: "nat \<Rightarrow> nat \<Rightarrow> mheap \<Rightarrow> (nat \<times> mheap) option" where
  "use_chunk a sz h =
     do {
       c \<leftarrow> h_chunks h a;
       Some (chunk_data a, h\<lparr>
         h_chunks := (h_chunks h)(a \<mapsto> c\<lparr>ck_magic := MALLOC_IN_USE, ck_size := sz, ck_next := 0\<rparr>),
         h_mem := set_redzones a (ck_capacity c) (h_mem h)\<rparr>)
     }"

text \<open>Taking the chunk after \<open>prev\<close> (or the first one, when \<open>prev\<close> is null) off the last list.\<close>

definition unlink_chunk :: "nat \<Rightarrow> malloc_chunk \<Rightarrow> mheap \<Rightarrow> mheap option" where
  "unlink_chunk prev c h =
     (if prev \<noteq> 0 then upd_chunk prev (\<lambda>p. p\<lparr>ck_next := ck_next c\<rparr>) h
      else do {
        first \<leftarrow> h_chunks h (h_bins h (NUM_BINS - 1));
        Some (h\<lparr>h_bins := (h_bins h)(NUM_BINS - 1 := ck_next first)\<rparr>)
      })"

partial_function (option) malloc_loop ::
  "nat \<Rightarrow> nat \<Rightarrow> nat \<Rightarrow> nat \<Rightarrow> mheap \<Rightarrow> (nat \<times> mheap) option" where
  "malloc_loop chunk_size sz prev a h =
     (if a = 0 then None
      else do {
        c \<leftarrow> h_chunks h a;
        ASSERT (ck_magic c = MALLOC_FREE);
        if ck_capacity c > (chunk_size + MALLOC_FRAME_LEN) mod 2 ^ 64 then
          do {
            (allocated, h) \<leftarrow> split a chunk_size h;
            use_chunk allocated sz h
          }
        else if ck_capacity c \<ge> chunk_size then
          do {
            h \<leftarrow> unlink_chunk prev c h;
            use_chunk a sz h
          }
        else malloc_loop chunk_size sz a (ck_next c) h
      })"

definition malloc :: "u64 \<Rightarrow> mheap \<Rightarrow> (nat \<times> mheap) option" where
  "malloc size0 h =
     (let sz = unat (ALIGN_UP (if size0 = 0 then 1 else size0) 16);
          bin_idx = get_bin_idx_from_size sz;
          large = malloc_loop (case bin_idx of None \<Rightarrow> sz | Some i \<Rightarrow> 2 ^ i) sz 0 (h_bins h (NUM_BINS - 1)) h
      in case bin_idx of
           None \<Rightarrow> large
         | Some i \<Rightarrow>
             let a = h_bins h i in
             if a = 0 then large
             else do {
               c \<leftarrow> h_chunks h a;
               ASSERT (ck_magic c = MALLOC_FREE);
               use_chunk a sz (h\<lparr>h_bins := (h_bins h)(i := ck_next c)\<rparr>)
             })"

definition get_chunk_from_ptr :: "nat \<Rightarrow> mheap \<Rightarrow> nat option" where
  "get_chunk_from_ptr ptr h =
     (let a = ptr - CHUNK_LEN in
      do {
        c \<leftarrow> h_chunks h a;
        ASSERT (ck_magic c = MALLOC_IN_USE);
        _ \<leftarrow> check_buffer_overflow a h;
        Some a
      })"

definition free :: "nat \<Rightarrow> mheap \<Rightarrow> mheap option" where
  "free ptr h =
     (if ptr = 0 then Some h
      else do {
        a \<leftarrow> get_chunk_from_ptr ptr h;
        c \<leftarrow> h_chunks h a;
        ASSERT (ck_magic c \<noteq> MALLOC_FREE);
        let bin_idx = (case get_bin_idx_from_size (ck_capacity c) of None \<Rightarrow> NUM_BINS - 1 | Some i \<Rightarrow> i);
        let head = h_bins h bin_idx;
        let c = c\<lparr>ck_magic := MALLOC_FREE\<rparr>;
        let c = (if head \<noteq> 0 then c\<lparr>ck_next := head\<rparr> else c);
        Some (h\<lparr>h_chunks := (h_chunks h)(a \<mapsto> c), h_bins := (h_bins h)(bin_idx := a)\<rparr>)
      })"

fun mem_copy :: "(nat \<Rightarrow> u8) \<Rightarrow> nat \<Rightarrow> nat \<Rightarrow> nat \<Rightarrow> nat \<Rightarrow> u8" where
  "mem_copy mem dst src 0 = mem"
| "mem_copy mem dst src (Suc len) = mem_copy (mem(dst := mem src)) (Suc dst) (Suc src) len"

definition realloc :: "nat \<Rightarrow> u64 \<Rightarrow> mheap \<Rightarrow> (nat \<times> mheap) option" where
  "realloc ptr sz h =
     (if ptr = 0 then malloc sz h
      else do {
        a \<leftarrow> get_chunk_from_ptr ptr h;
        c \<leftarrow> h_chunks h a;
        let prev_size = ck_size c;
        if unat sz \<le> ck_capacity c then Some (ptr, h)
        else do {
          (new_ptr, h) \<leftarrow> malloc sz h;
          let h = h\<lparr>h_mem := mem_copy (h_mem h) new_ptr ptr prev_size\<rparr>;
          h \<leftarrow> free ptr h;
          Some (new_ptr, h)
        }
      })"

text \<open>The bytes of the memory from an address on, and writing them back.\<close>

definition mem_bytes :: "(nat \<Rightarrow> u8) \<Rightarrow> nat \<Rightarrow> nat \<Rightarrow> u8 list" where
  "mem_bytes mem a n = map (\<lambda>i. mem (a + i)) [0..<n]"

definition mem_write :: "nat \<Rightarrow> u8 list \<Rightarrow> (nat \<Rightarrow> u8) \<Rightarrow> nat \<Rightarrow> u8" where
  "mem_write a bs mem = (\<lambda>x. if a \<le> x \<and> x < a + length bs then bs ! (x - a) else mem x)"

definition strndup :: "cbuf \<Rightarrow> nat \<Rightarrow> mheap \<Rightarrow> (nat \<times> mheap) option" where
  "strndup s n h =
     do {
       (new_s, h) \<leftarrow> malloc (of_nat (n + 1)) h;
       d \<leftarrow> strncpy2 (mem_bytes (h_mem h) new_s (n + 1)) s (n + 1);
       Some (new_s, h\<lparr>h_mem := mem_write new_s d (h_mem h)\<rparr>)
     }"

definition strdup :: "cbuf \<Rightarrow> mheap \<Rightarrow> (nat \<times> mheap) option" where
  "strdup s h =
     do {
       n \<leftarrow> strlen s;
       strndup s n h
     }"

text \<open>The bins and the heap before \<open>malloc_init\<close>: static data is zero.\<close>

definition no_heap :: "(nat \<Rightarrow> u8) \<Rightarrow> mheap" where
  "no_heap mem = \<lparr>h_chunks = Map.empty, h_mem = mem, h_bins = (\<lambda>_. 0)\<rparr>"

definition malloc_init :: "nat \<Rightarrow> nat \<Rightarrow> mheap \<Rightarrow> mheap option" where
  "malloc_init heap heap_end h = map_option snd (chunk_insert heap (heap_end - heap) h)"

section \<open>The heap invariant\<close>

text \<open>Which chunks there are and where they lie: inside the heap, aligned, and one after the
  other without overlap.\<close>

definition geom :: "nat \<Rightarrow> nat \<Rightarrow> (nat \<rightharpoonup> malloc_chunk) \<Rightarrow> bool" where
  "geom lo hi m \<longleftrightarrow> 0 < lo \<and> hi < 2 ^ 64 \<and>
     (\<forall>a c. m a = Some c \<longrightarrow> lo \<le> a \<and> a + MALLOC_FRAME_LEN + ck_capacity c \<le> hi \<and>
        16 dvd a \<and> 16 dvd ck_capacity c \<and> 0 < ck_capacity c) \<and>
     (\<forall>a b c. m a = Some c \<and> b \<in> dom m \<and> a < b \<longrightarrow> a + MALLOC_FRAME_LEN + ck_capacity c \<le> b)"

text \<open>The free lists: bin \<open>i\<close> is the chain of the chunks \<open>fl i\<close>, the lists share no chunk, and
  they hold exactly the chunks marked as free.\<close>

fun chain :: "(nat \<rightharpoonup> malloc_chunk) \<Rightarrow> nat \<Rightarrow> nat list \<Rightarrow> bool" where
  "chain m a [] \<longleftrightarrow> a = 0"
| "chain m a (x # xs) \<longleftrightarrow> a = x \<and> x \<noteq> 0 \<and> (case m x of None \<Rightarrow> False | Some c \<Rightarrow> chain m (ck_next c) xs)"

definition free_chunk :: "(nat \<rightharpoonup> malloc_chunk) \<Rightarrow> nat \<Rightarrow> bool" where
  "free_chunk m a \<longleftrightarrow> (\<exists>c. m a = Some c \<and> ck_magic c = MALLOC_FREE)"

definition used_chunk :: "(nat \<rightharpoonup> malloc_chunk) \<Rightarrow> nat \<Rightarrow> bool" where
  "used_chunk m a \<longleftrightarrow> (\<exists>c. m a = Some c \<and> ck_magic c = MALLOC_IN_USE \<and> ck_next c = 0)"

definition lists_ok :: "(nat \<rightharpoonup> malloc_chunk) \<Rightarrow> (nat \<Rightarrow> nat) \<Rightarrow> (nat \<Rightarrow> nat list) \<Rightarrow> bool" where
  "lists_ok m bins fl \<longleftrightarrow>
     (\<forall>i < NUM_BINS. chain m (bins i) (fl i)) \<and>
     (\<forall>i < NUM_BINS. \<forall>j < NUM_BINS. i \<noteq> j \<longrightarrow> set (fl i) \<inter> set (fl j) = {}) \<and>
     (\<forall>a. free_chunk m a \<longleftrightarrow> (\<exists>i < NUM_BINS. a \<in> set (fl i))) \<and>
     (\<forall>a \<in> dom m. free_chunk m a \<or> used_chunk m a)"

definition heap_inv :: "nat \<Rightarrow> nat \<Rightarrow> mheap \<Rightarrow> (nat \<Rightarrow> nat list) \<Rightarrow> bool" where
  "heap_inv lo hi h fl \<longleftrightarrow> geom lo hi (h_chunks h) \<and> lists_ok (h_chunks h) (h_bins h) fl"

definition heap_ok :: "nat \<Rightarrow> nat \<Rightarrow> mheap \<Rightarrow> bool" where
  "heap_ok lo hi h \<longleftrightarrow> (\<exists>fl. heap_inv lo hi h fl)"

subsection \<open>Chains\<close>

lemma chain_0 [simp]: "chain m 0 xs \<longleftrightarrow> xs = []"
  by (cases xs) auto

lemma chain_non_null: "a \<noteq> 0 \<Longrightarrow> chain m a xs \<longleftrightarrow> (\<exists>c ys. xs = a # ys \<and> m a = Some c \<and> chain m (ck_next c) ys)"
  by (cases xs) (auto split: option.splits)

lemma chain_frame:
  "(\<And>x. x \<in> set xs \<Longrightarrow> map_option ck_next (m' x) = map_option ck_next (m x)) \<Longrightarrow>
   chain m' a xs = chain m a xs"
proof (induction xs arbitrary: a)
  case (Cons x xs)
  from Cons.prems [of x] have "map_option ck_next (m' x) = map_option ck_next (m x)" by simp
  then show ?case
    using Cons.IH [OF Cons.prems] by (cases "m x"; cases "m' x") auto
qed simp

lemma chain_unique: "chain m a xs \<Longrightarrow> chain m a ys \<Longrightarrow> xs = ys"
  by (induction xs arbitrary: a ys) (auto simp: chain_non_null split: option.splits)

lemma chain_append: "chain m a (xs @ ys) \<Longrightarrow> \<exists>b. chain m b ys"
  by (induction xs arbitrary: a) (auto split: option.splits)

lemma chain_hd_notin: "chain m a (a # xs) \<Longrightarrow> a \<notin> set xs"
proof
  assume c: "chain m a (a # xs)" and "a \<in> set xs"
  then obtain us vs where xs: "xs = us @ a # vs" by (auto simp: in_set_conv_decomp)
  from c have "chain m a ((a # us) @ a # vs)" using xs by simp
  then obtain b where "chain m b (a # vs)" using chain_append by blast
  then have "chain m a (a # vs)" by simp
  with c have "a # xs = a # vs" by (rule chain_unique)
  with xs show False by (metis append_eq_Cons_conv impossible_Cons length_append list.inject
    le_add2 length_Cons le_SucI)
qed

lemma chain_distinct: "chain m a xs \<Longrightarrow> distinct xs"
proof (induction xs arbitrary: a)
  case (Cons x xs)
  then show ?case using chain_hd_notin [of m x xs] by (auto split: option.splits)
qed simp

lemma chain_upd [simp]: "x \<notin> set xs \<Longrightarrow> chain (m(x := v)) a xs = chain m a xs"
  by (rule chain_frame) auto

lemma chain_dom: "chain m a xs \<Longrightarrow> x \<in> set xs \<Longrightarrow> x \<in> dom m \<and> x \<noteq> 0"
  by (induction xs arbitrary: a) (auto split: option.splits)

text \<open>Taking an element out of the middle of a chain.\<close>

lemma chain_unlink:
  assumes "chain m a (xs @ p # x # ys)" "m x = Some c" "m p = Some d"
  shows "chain (m(p \<mapsto> d\<lparr>ck_next := ck_next c\<rparr>)) a (xs @ p # ys)"
  using assms
proof (induction xs arbitrary: a)
  case Nil
  then have "p \<notin> set ys" using chain_hd_notin [of m p "x # ys"] by auto
  moreover have "chain m (ck_next c) ys" using Nil by simp
  ultimately show ?case
    using Nil by (simp del: fun_upd_apply) simp
next
  case (Cons z zs)
  have "z \<noteq> p" using chain_distinct [OF Cons.prems(1)] by auto
  with Cons show ?case by (auto split: option.splits)
qed

subsection \<open>How the operations change the lists and the layout\<close>

lemma magic_distinct [simp]: "MALLOC_FREE \<noteq> MALLOC_IN_USE" "MALLOC_IN_USE \<noteq> MALLOC_FREE"
  by (simp_all add: kconst)

lemma lists_okD:
  assumes "lists_ok m bins fl"
  shows "i < NUM_BINS \<Longrightarrow> chain m (bins i) (fl i)"
    and "i < NUM_BINS \<Longrightarrow> j < NUM_BINS \<Longrightarrow> i \<noteq> j \<Longrightarrow> x \<in> set (fl i) \<Longrightarrow> x \<notin> set (fl j)"
    and "i < NUM_BINS \<Longrightarrow> x \<in> set (fl i) \<Longrightarrow> free_chunk m x"
    and "free_chunk m x \<Longrightarrow> \<exists>i < NUM_BINS. x \<in> set (fl i)"
    and "x \<in> dom m \<Longrightarrow> free_chunk m x \<or> used_chunk m x"
  using assms unfolding lists_ok_def by blast+

lemma lists_okI:
  assumes "\<And>i. i < NUM_BINS \<Longrightarrow> chain m (bins i) (fl i)"
    and "\<And>i j. i < NUM_BINS \<Longrightarrow> j < NUM_BINS \<Longrightarrow> i \<noteq> j \<Longrightarrow> set (fl i) \<inter> set (fl j) = {}"
    and "\<And>x. free_chunk m x \<longleftrightarrow> (\<exists>i < NUM_BINS. x \<in> set (fl i))"
    and "\<And>x. x \<in> dom m \<Longrightarrow> free_chunk m x \<or> used_chunk m x"
  shows "lists_ok m bins fl"
  using assms unfolding lists_ok_def by blast

lemma free_not_used: "free_chunk m a \<Longrightarrow> \<not> used_chunk m a"
  by (auto simp: free_chunk_def used_chunk_def)

lemma lists_remove:
  assumes ok: "lists_ok m bins fl" and i: "i < NUM_BINS" and fl: "fl i = xs @ a # ys"
    and ch: "chain m1 (bins' i) (xs @ ys)" and bins: "\<And>j. j \<noteq> i \<Longrightarrow> bins' j = bins j"
    and same: "\<And>x. x \<notin> set xs \<Longrightarrow> m1 x = m x"
    and mag: "\<And>x. map_option ck_magic (m1 x) = map_option ck_magic (m x)"
    and c: "ck_magic c = MALLOC_IN_USE" "ck_next c = 0"
  shows "lists_ok (m1(a \<mapsto> c)) bins' (fl(i := xs @ ys))"
proof -
  have d: "distinct (xs @ a # ys)" using chain_distinct [OF lists_okD(1) [OF ok i]] fl by simp
  have fr1: "free_chunk m1 x \<longleftrightarrow> free_chunk m x" for x
    using mag [of x] by (cases "m x"; cases "m1 x") (auto simp: free_chunk_def)
  have fr: "free_chunk (m1(a \<mapsto> c)) x \<longleftrightarrow> free_chunk m x \<and> x \<noteq> a" for x
    using fr1 [of x] c by (auto simp: free_chunk_def)
  have us: "used_chunk (m1(a \<mapsto> c)) x" if u: "used_chunk m x" for x
  proof -
    have "x \<notin> set xs" using lists_okD(3) [OF ok i, of x] fl u by (auto dest: free_not_used)
    then have "m1 x = m x" by (rule same)
    then show ?thesis using u c by (auto simp: used_chunk_def)
  qed
  have A: "chain (m1(a \<mapsto> c)) (bins' j) ((fl(i := xs @ ys)) j)" if j: "j < NUM_BINS" for j
  proof (cases "j = i")
    case True
    then show ?thesis using ch d by simp
  next
    case False
    have n: "x \<notin> set (xs @ a # ys)" if "x \<in> set (fl j)" for x
      using lists_okD(2) [OF ok j i False that] fl by simp
    have "chain (m1(a \<mapsto> c)) (bins j) (fl j) = chain m (bins j) (fl j)"
      using n same by (intro chain_frame) auto
    then show ?thesis using False bins lists_okD(1) [OF ok j] by simp
  qed
  have mem: "x \<in> set ((fl(i := xs @ ys)) j) \<longleftrightarrow> x \<in> set (fl j) \<and> x \<noteq> a" if j: "j < NUM_BINS" for x j
  proof (cases "j = i")
    case True
    then show ?thesis using fl d by auto
  next
    case False
    then have "a \<notin> set (fl j)" using lists_okD(2) [OF ok i j, of a] fl by simp
    then show ?thesis using False by auto
  qed
  have C: "free_chunk (m1(a \<mapsto> c)) x \<longleftrightarrow> (\<exists>j < NUM_BINS. x \<in> set ((fl(i := xs @ ys)) j))" for x
    using fr [of x] mem [of _ x] lists_okD(3) [OF ok, of _ x] lists_okD(4) [OF ok, of x] by metis
  have D: "free_chunk (m1(a \<mapsto> c)) x \<or> used_chunk (m1(a \<mapsto> c)) x"
    if "x \<in> dom (m1(a \<mapsto> c))" for x
  proof (cases "x = a")
    case True
    then show ?thesis using c by (simp add: used_chunk_def)
  next
    case False
    then have "x \<in> dom m" using that mag [of x] by (cases "m x") auto
    then show ?thesis using lists_okD(5) [OF ok] fr us False by blast
  qed
  have B: "set ((fl(i := xs @ ys)) k) \<inter> set ((fl(i := xs @ ys)) j) = {}"
    if "k < NUM_BINS" "j < NUM_BINS" "k \<noteq> j" for j k
    using mem [OF that(1)] mem [OF that(2)] lists_okD(2) [OF ok that] by blast
  show ?thesis
    by (rule lists_okI, use A in blast, use B in blast, use C in blast, use D in blast)
qed

lemma lists_add:
  assumes ok: "lists_ok m bins fl" and i: "i < NUM_BINS" and a: "used_chunk m a" "a \<noteq> 0"
    and c: "ck_magic c = MALLOC_FREE" "ck_next c = bins i"
  shows "lists_ok (m(a \<mapsto> c)) (bins(i := a)) (fl(i := a # fl i))"
proof -
  have n: "a \<notin> set (fl j)" if "j < NUM_BINS" for j
    using lists_okD(3) [OF ok that] free_not_used a by blast
  have fr: "free_chunk (m(a \<mapsto> c)) x \<longleftrightarrow> free_chunk m x \<or> x = a" for x
    using c by (auto simp: free_chunk_def)
  have us: "used_chunk m x \<Longrightarrow> x \<noteq> a \<Longrightarrow> used_chunk (m(a \<mapsto> c)) x" for x
    by (auto simp: used_chunk_def)
  have A: "chain (m(a \<mapsto> c)) ((bins(i := a)) j) ((fl(i := a # fl i)) j)" if "j < NUM_BINS" for j
    using n [OF that] lists_okD(1) [OF ok that] c a by (cases "j = i") (simp_all del: fun_upd_apply, simp_all)
  have B: "set ((fl(i := a # fl i)) k) \<inter> set ((fl(i := a # fl i)) j) = {}"
    if "k < NUM_BINS" "j < NUM_BINS" "k \<noteq> j" for j k
    using lists_okD(2) [OF ok, of k j] lists_okD(2) [OF ok, of j k] that n by auto
  have C: "free_chunk (m(a \<mapsto> c)) x \<longleftrightarrow> (\<exists>j < NUM_BINS. x \<in> set ((fl(i := a # fl i)) j))" for x
    using fr lists_okD(3) [OF ok] lists_okD(4) [OF ok, of x] i by (fastforce split: if_splits)
  have D: "free_chunk (m(a \<mapsto> c)) x \<or> used_chunk (m(a \<mapsto> c)) x" if "x \<in> dom (m(a \<mapsto> c))" for x
    using that fr us lists_okD(5) [OF ok, of x] by auto
  show ?thesis
    by (rule lists_okI, use A in blast, use B in blast, use C in blast, use D in blast)
qed

lemma lists_split:
  assumes ok: "lists_ok m bins fl" and a: "m a = Some c" and new: "m new = None"
    and c': "ck_magic c' = ck_magic c" "ck_next c' = ck_next c"
    and d: "ck_magic d = MALLOC_IN_USE" "ck_next d = 0"
  shows "lists_ok (m(a \<mapsto> c', new \<mapsto> d)) bins fl"
proof -
  have ne: "new \<noteq> a" using a new by auto
  have fr: "free_chunk (m(a \<mapsto> c', new \<mapsto> d)) x \<longleftrightarrow> free_chunk m x" for x
    using a new c' d ne by (auto simp: free_chunk_def)
  have A: "chain (m(a \<mapsto> c', new \<mapsto> d)) (bins j) (fl j)" if j: "j < NUM_BINS" for j
  proof -
    have "new \<notin> set (fl j)" using lists_okD(3) [OF ok j, of new] new by (auto simp: free_chunk_def)
    then have "chain (m(a \<mapsto> c', new \<mapsto> d)) (bins j) (fl j) = chain m (bins j) (fl j)"
      using a c' by (intro chain_frame) auto
    then show ?thesis using lists_okD(1) [OF ok j] by simp
  qed
  have D: "free_chunk (m(a \<mapsto> c', new \<mapsto> d)) x \<or> used_chunk (m(a \<mapsto> c', new \<mapsto> d)) x"
    if "x \<in> dom (m(a \<mapsto> c', new \<mapsto> d))" for x
  proof (cases "x = new")
    case False
    then have "x \<in> dom m" using that a by (auto split: if_splits)
    then show ?thesis
      using lists_okD(5) [OF ok, of x] fr a c' False by (auto simp: used_chunk_def)
  qed (use d in \<open>simp add: used_chunk_def\<close>)
  have B: "set (fl i) \<inter> set (fl j) = {}" if "i < NUM_BINS" "j < NUM_BINS" "i \<noteq> j" for i j
    using lists_okD(2) [OF ok that] by blast
  have C: "free_chunk (m(a \<mapsto> c', new \<mapsto> d)) x \<longleftrightarrow> (\<exists>j < NUM_BINS. x \<in> set (fl j))" for x
    using fr lists_okD(3,4) [OF ok] by blast
  show ?thesis
    by (rule lists_okI, use A in blast, use B in blast, use C in blast, use D in blast)
qed

lemma geomD:
  assumes "geom lo hi m" "m a = Some c"
  shows "0 < a" "lo \<le> a" "a + MALLOC_FRAME_LEN + ck_capacity c \<le> hi" "hi < 2 ^ 64"
    "16 dvd a" "16 dvd ck_capacity c" "0 < ck_capacity c"
    and "m b = Some d \<Longrightarrow> a < b \<Longrightarrow> a + MALLOC_FRAME_LEN + ck_capacity c \<le> b"
  using assms unfolding geom_def by fastforce+

lemma geomI:
  assumes "0 < lo" "hi < 2 ^ 64"
    "\<And>a c. m a = Some c \<Longrightarrow> lo \<le> a \<and> a + MALLOC_FRAME_LEN + ck_capacity c \<le> hi \<and>
        16 dvd a \<and> 16 dvd ck_capacity c \<and> 0 < ck_capacity c"
    "\<And>a b c d. m a = Some c \<Longrightarrow> m b = Some d \<Longrightarrow> a < b \<Longrightarrow> a + MALLOC_FRAME_LEN + ck_capacity c \<le> b"
  shows "geom lo hi m"
  using assms unfolding geom_def by blast

lemma geom_frame:
  assumes "geom lo hi m" "\<And>a. map_option ck_capacity (m' a) = map_option ck_capacity (m a)"
  shows "geom lo hi m'"
proof -
  have e: "\<exists>d. m a = Some d \<and> ck_capacity d = ck_capacity c" if "m' a = Some c" for a c
    using assms(2) [of a] that by (cases "m a") auto
  show ?thesis
  proof (rule geomI)
    fix a b c d assume "m' a = Some c" "m' b = Some d" "a < b"
    then show "a + MALLOC_FRAME_LEN + ck_capacity c \<le> b"
      using e geomD(8) [OF assms(1)] by metis
  qed (use assms(1) e geomD [OF assms(1)] in \<open>auto simp: geom_def, metis+\<close>)
qed

lemma geom_split:
  assumes g: "geom lo hi m" and a: "m a = Some c"
    and c': "ck_capacity c' + (MALLOC_FRAME_LEN + ck_capacity d) = ck_capacity c"
    and pos: "0 < ck_capacity c'" "0 < ck_capacity d" "16 dvd ck_capacity d"
    and new: "new = a + MALLOC_FRAME_LEN + ck_capacity c'"
  shows "geom lo hi (m(a \<mapsto> c', new \<mapsto> d))" "m new = None"
proof -
  have 64: "MALLOC_FRAME_LEN = 64" by (simp add: kconst)
  have "16 dvd ck_capacity c' + (64 + ck_capacity d)" using geomD(6) [OF g a] c' 64 by simp
  moreover have "16 dvd 64 + ck_capacity d" using pos(3) by simp
  ultimately have al: "16 dvd ck_capacity c'" by (simp add: dvd_add_left_iff)
  then have al2: "16 dvd new"
    unfolding new 64 using geomD(5) [OF g a] by (intro dvd_add) simp_all
  have lt: "a < new" "new < a + MALLOC_FRAME_LEN + ck_capacity c" using new c' pos 64 by auto
  show n: "m new = None"
    using geomD(8) [OF g a, of new] lt by (cases "m new") auto
  have lo: "0 < lo" "hi < 2 ^ 64" using g by (auto simp: geom_def)
  show "geom lo hi (m(a \<mapsto> c', new \<mapsto> d))"
  proof (rule geomI [OF lo])
    fix x e assume "(m(a \<mapsto> c', new \<mapsto> d)) x = Some e"
    then show "lo \<le> x \<and> x + MALLOC_FRAME_LEN + ck_capacity e \<le> hi \<and>
        16 dvd x \<and> 16 dvd ck_capacity e \<and> 0 < ck_capacity e"
      using geomD(2,3,5) [OF g a] geomD(2,3,5-7) [OF g, of x e] al al2 pos c' new
      by (cases "x = a"; cases "x = new") simp_all
  next
    fix x y e f
    assume x: "(m(a \<mapsto> c', new \<mapsto> d)) x = Some e" and y: "(m(a \<mapsto> c', new \<mapsto> d)) y = Some f" and xy: "x < y"
    have end_a: "a + MALLOC_FRAME_LEN + ck_capacity c \<le> y" if "a < y" "y \<noteq> new"
      using geomD(8) [OF g a, of y f] y that by simp
    consider "x = a" | "x = new" | "x \<noteq> a" "x \<noteq> new" "y = a" | "x \<noteq> a" "x \<noteq> new" "y = new"
      | "x \<noteq> a" "x \<noteq> new" "y \<noteq> a" "y \<noteq> new" by blast
    then show "x + MALLOC_FRAME_LEN + ck_capacity e \<le> y"
    proof cases
      case 1
      then have "e = c'" using x lt by simp
      then show ?thesis using 1 xy end_a new c' by (cases "y = new") simp_all
    next
      case 2
      then have "e = d" using x by simp
      then show ?thesis using 2 xy end_a new c' lt by simp
    next
      case 3
      then have "m x = Some e" using x by simp
      then show ?thesis using geomD(8) [OF g _ a] 3 xy by simp
    next
      case 4
      then have e: "m x = Some e" using x by simp
      then have "x < a" using geomD(8) [OF g a e] 4 xy lt by (cases "a < x") simp_all
      then show ?thesis using geomD(8) [OF g e a] 4 lt by simp
    next
      case 5
      then have "m x = Some e" "m y = Some f" using x y by simp_all
      then show ?thesis using geomD(8) [OF g] xy by simp
    qed
  qed
qed

section \<open>What an allocation does\<close>

definition live_chunks :: "mheap \<Rightarrow> nat set" where
  "live_chunks h = {a. used_chunk (h_chunks h) a}"

definition capacity_of :: "mheap \<Rightarrow> nat \<Rightarrow> nat" where
  "capacity_of h a = (case h_chunks h a of None \<Rightarrow> 0 | Some c \<Rightarrow> ck_capacity c)"

text \<open>The bytes of a chunk: its redzones and the data between them.\<close>

definition chunk_bytes :: "mheap \<Rightarrow> nat \<Rightarrow> nat set" where
  "chunk_bytes h a = {underflow_redzone a..<a + MALLOC_FRAME_LEN + capacity_of h a}"

text \<open>The markers \<open>malloc\<close> puts around the data.\<close>

definition redzones_intact :: "mheap \<Rightarrow> nat \<Rightarrow> bool" where
  "redzones_intact h a \<longleftrightarrow>
     (\<forall>x. underflow_redzone a \<le> x \<and> x < chunk_data a \<longrightarrow> h_mem h x = MALLOC_REDZONE_UNDFLOW_MARKER) \<and>
     (\<forall>x. chunk_data a + capacity_of h a \<le> x \<and> x < a + MALLOC_FRAME_LEN + capacity_of h a \<longrightarrow>
        h_mem h x = MALLOC_REDZONE_OVRFLOW_MARKER)"

text \<open>\<open>p\<close> points to the data of a new live chunk of at least \<open>n\<close> bytes: it overlaps no chunk
  that was live, those are as they were, no byte outside the new chunk has changed, and its redzones are set.\<close>

definition allocates :: "nat \<Rightarrow> mheap \<Rightarrow> nat \<Rightarrow> mheap \<Rightarrow> bool" where
  "allocates n h p h' \<longleftrightarrow>
     (\<exists>a. p = chunk_data a \<and> 16 dvd p \<and> a \<notin> live_chunks h \<and> live_chunks h' = insert a (live_chunks h) \<and>
        n \<le> capacity_of h' a \<and>
        (\<forall>b \<in> live_chunks h. h_chunks h' b = h_chunks h b \<and> chunk_bytes h' b \<inter> chunk_bytes h' a = {}) \<and>
        (\<forall>x. x \<notin> chunk_bytes h' a \<longrightarrow> h_mem h' x = h_mem h x) \<and> redzones_intact h' a)"

lemma chunk_bytes_disjoint:
  assumes "geom lo hi (h_chunks h)" "h_chunks h a = Some c" "h_chunks h b = Some d" "a \<noteq> b"
  shows "chunk_bytes h a \<inter> chunk_bytes h b = {}"
  using geomD(8) [OF assms(1-3)] geomD(8) [OF assms(1,3,2)] assms
  by (cases "a < b") (auto simp: chunk_bytes_def capacity_of_def underflow_redzone_def kconst)

lemma allocatesI:
  assumes g: "geom lo hi (h_chunks h')" and a: "h_chunks h' a = Some c"
    and c: "ck_magic c = MALLOC_IN_USE" "ck_next c = 0" "n \<le> ck_capacity c"
    and new: "\<not> used_chunk (h_chunks h) a"
    and rest: "\<And>b. b \<noteq> a \<Longrightarrow> used_chunk (h_chunks h') b = used_chunk (h_chunks h) b"
      "\<And>b. used_chunk (h_chunks h) b \<Longrightarrow> h_chunks h' b = h_chunks h b"
    and mem: "h_mem h' = set_redzones a (ck_capacity c) (h_mem h)"
  shows "allocates n h (chunk_data a) h'"
proof -
  have "live_chunks h' = insert a (live_chunks h)"
    using rest a c by (auto simp: live_chunks_def used_chunk_def)
  moreover have "16 dvd chunk_data a"
    using geomD(5) [OF g a] by (simp add: chunk_data_def kconst)
  moreover have "chunk_bytes h' b \<inter> chunk_bytes h' a = {}" if b: "b \<in> live_chunks h" for b
  proof -
    have "b \<noteq> a" using b new by (auto simp: live_chunks_def)
    moreover obtain d where "h_chunks h' b = Some d"
      using b rest(2) [of b] by (auto simp: live_chunks_def used_chunk_def)
    ultimately show ?thesis using chunk_bytes_disjoint [OF g _ a] by blast
  qed
  moreover have "h_mem h' x = h_mem h x" if "x \<notin> chunk_bytes h' a" for x
    using that a by (auto simp: mem set_redzones_def chunk_bytes_def capacity_of_def chunk_data_def
      underflow_redzone_def kconst)
  moreover have "redzones_intact h' a"
    using a by (auto simp: mem set_redzones_def redzones_intact_def capacity_of_def chunk_data_def
      underflow_redzone_def kconst)
  ultimately show ?thesis
    unfolding allocates_def using new rest(2) a c
    by (intro exI [of _ a]) (simp add: live_chunks_def capacity_of_def)
qed

lemma free_is_not_used: "m a = Some c \<Longrightarrow> ck_magic c = MALLOC_FREE \<Longrightarrow> \<not> used_chunk m a"
  by (simp add: used_chunk_def)

lemma split_use:
  assumes inv: "heap_inv lo hi h fl" and a: "h_chunks h a = Some c" and fr: "ck_magic c = MALLOC_FREE"
    and len: "len + MALLOC_FRAME_LEN < ck_capacity c" "0 < len" "16 dvd len"
  shows "returns (do { (new, h) \<leftarrow> split a len h; use_chunk new sz h })
    (\<lambda>(p, h'). heap_inv lo hi h' fl \<and> allocates len h p h')"
proof -
  let ?c = "c\<lparr>ck_capacity := ck_capacity c - (MALLOC_FRAME_LEN + len)\<rparr>"
  let ?d = "\<lparr>ck_next = 0, ck_capacity = len, ck_size = sz, ck_magic = MALLOC_IN_USE\<rparr>"
  let ?new = "a + MALLOC_FRAME_LEN + ck_capacity ?c"
  let ?h = "h\<lparr>h_chunks := (h_chunks h)(a \<mapsto> ?c, ?new \<mapsto> ?d), h_mem := set_redzones ?new len (h_mem h)\<rparr>"
  have g: "geom lo hi (h_chunks h)" and l: "lists_ok (h_chunks h) (h_bins h) fl"
    using inv by (simp_all add: heap_inv_def)
  have lt: "MALLOC_FRAME_LEN + len < 2 ^ 64" using geomD(3,4) [OF g a] len by simp
  have g': "geom lo hi (h_chunks ?h)" "h_chunks h ?new = None"
    using geom_split [OF g a, of ?c ?d ?new] len by simp_all
  have "lists_ok (h_chunks ?h) (h_bins ?h) fl"
    using lists_split [OF l a g'(2), of ?c ?d] by simp
  then have i: "heap_inv lo hi ?h fl" using g' by (simp add: heap_inv_def)
  have ne: "a \<noteq> ?new" by (simp add: kconst)
  have addr: "chunk_data a + (ck_capacity c + MALLOC_REDZONE_LEN - (MALLOC_FRAME_LEN + len)) = ?new"
    using len by (simp add: chunk_data_def kconst)
  have "allocates len h (chunk_data ?new) ?h"
    using g'(1)
  proof (rule allocatesI)
    show "h_chunks ?h ?new = Some ?d" by simp
    show "\<not> used_chunk (h_chunks h) ?new" using g'(2) by (simp add: used_chunk_def)
    show "used_chunk (h_chunks ?h) b = used_chunk (h_chunks h) b" if "b \<noteq> ?new" for b
      using that fr a by (auto simp: used_chunk_def)
    show "h_chunks ?h b = h_chunks h b" if "used_chunk (h_chunks h) b" for b
      using that free_is_not_used [of "h_chunks h" a c] a fr g'(2) by (auto simp: used_chunk_def)
  qed simp_all
  moreover have "do { (new, h) \<leftarrow> split a len h; use_chunk new sz h } = Some (chunk_data ?new, ?h)"
    using a lt len ne addr by (simp add: split_def use_chunk_def Let_def)
  ultimately show ?thesis using i by simp
qed

lemma remove_use:
  assumes inv: "heap_inv lo hi h fl" and i: "i < NUM_BINS" and fl: "fl i = xs @ a # ys"
    and a: "h_chunks h a = Some c" and n: "n \<le> ck_capacity c"
    and ch: "chain m (bins' i) (xs @ ys)" and bins: "\<And>j. j \<noteq> i \<Longrightarrow> bins' j = h_bins h j"
    and same: "\<And>x. x \<notin> set xs \<Longrightarrow> m x = h_chunks h x"
    and m: "\<And>x. map_option ck_magic (m x) = map_option ck_magic (h_chunks h x)"
      "\<And>x. map_option ck_capacity (m x) = map_option ck_capacity (h_chunks h x)"
  shows "returns (use_chunk a sz (h\<lparr>h_chunks := m, h_bins := bins'\<rparr>))
    (\<lambda>(p, h'). heap_inv lo hi h' (fl(i := xs @ ys)) \<and> allocates n h p h')"
proof -
  let ?c = "c\<lparr>ck_magic := MALLOC_IN_USE, ck_size := sz, ck_next := 0\<rparr>"
  let ?h = "h\<lparr>h_chunks := m(a \<mapsto> ?c), h_mem := set_redzones a (ck_capacity c) (h_mem h), h_bins := bins'\<rparr>"
  have g: "geom lo hi (h_chunks h)" and l: "lists_ok (h_chunks h) (h_bins h) fl"
    using inv by (simp_all add: heap_inv_def)
  have "a \<notin> set xs" using chain_distinct [OF lists_okD(1) [OF l i]] fl by simp
  then have ma: "m a = Some c" using same a by simp
  have free: "free_chunk (h_chunks h) x" if "x \<in> set xs \<or> x = a" for x
    using lists_okD(3) [OF l i, of x] fl that by auto
  have g': "geom lo hi (h_chunks ?h)"
    using g by (rule geom_frame) (use m(2) a in auto)
  have l': "lists_ok (h_chunks ?h) (h_bins ?h) (fl(i := xs @ ys))"
    using lists_remove [OF l i fl ch bins same m(1), of ?c] by simp
  have keep: "h_chunks ?h b = h_chunks h b" if "used_chunk (h_chunks h) b" for b
    using that free [of b] free_not_used [of "h_chunks h" b] same [of b] by auto
  have "allocates n h (chunk_data a) ?h"
    using g'
  proof (rule allocatesI)
    show "h_chunks ?h a = Some ?c" by simp
    show "\<not> used_chunk (h_chunks h) a" using free free_not_used by blast
    show "h_chunks ?h b = h_chunks h b" if "used_chunk (h_chunks h) b" for b
      using that by (rule keep)
    show "used_chunk (h_chunks ?h) b = used_chunk (h_chunks h) b" if "b \<noteq> a" for b
    proof (cases "used_chunk (h_chunks h) b")
      case True
      then show ?thesis using keep [OF True] that by (simp add: used_chunk_def)
    next
      case False
      have "\<not> used_chunk m b"
      proof (cases "b \<in> set xs")
        case True
        then show ?thesis using free [of b] m(1) [of b] by (auto simp: free_chunk_def used_chunk_def)
      qed (use False same in \<open>auto simp: used_chunk_def\<close>)
      then have "\<not> used_chunk (m(a \<mapsto> ?c)) b" using that by (simp add: used_chunk_def)
      then show ?thesis using False by simp
    qed
  qed (use n in simp_all)
  moreover have "use_chunk a sz (h\<lparr>h_chunks := m, h_bins := bins'\<rparr>) = Some (chunk_data a, ?h)"
    using ma by (simp add: use_chunk_def)
  ultimately show ?thesis using g' l' by (simp add: heap_inv_def)
qed

lemma unlink_use:
  assumes inv: "heap_inv lo hi h fl" and fl: "fl (NUM_BINS - 1) = xs @ a # ys"
    and a: "h_chunks h a = Some c" and n: "n \<le> ck_capacity c"
    and prev: "prev = (if xs = [] then 0 else last xs)"
  shows "returns (do { h \<leftarrow> unlink_chunk prev c h; use_chunk a sz h })
    (\<lambda>(p, h'). heap_inv lo hi h' (fl(NUM_BINS - 1 := xs @ ys)) \<and> allocates n h p h')"
proof -
  have l: "lists_ok (h_chunks h) (h_bins h) fl" using inv by (simp add: heap_inv_def)
  have i: "NUM_BINS - 1 < NUM_BINS" by (simp add: kconst)
  have ch: "chain (h_chunks h) (h_bins h (NUM_BINS - 1)) (xs @ a # ys)"
    using lists_okD(1) [OF l i] fl by simp
  show ?thesis
  proof (cases xs rule: rev_cases)
    case Nil
    let ?bins = "(h_bins h)(NUM_BINS - 1 := ck_next c)"
    have "returns (use_chunk a sz (h\<lparr>h_chunks := h_chunks h, h_bins := ?bins\<rparr>))
      (\<lambda>(p, h'). heap_inv lo hi h' (fl(NUM_BINS - 1 := xs @ ys)) \<and> allocates n h p h')"
      using ch Nil a by (intro remove_use [OF inv i fl a n]) simp_all
    moreover have "unlink_chunk prev c h = Some (h\<lparr>h_chunks := h_chunks h, h_bins := ?bins\<rparr>)"
      using ch Nil a prev by (simp add: unlink_chunk_def)
    ultimately show ?thesis by simp
  next
    case (snoc zs q)
    then have q: "q \<in> dom (h_chunks h) \<and> q \<noteq> 0" using chain_dom [OF ch, of q] by simp
    then obtain d where d: "h_chunks h q = Some d" by auto
    let ?m = "(h_chunks h)(q \<mapsto> d\<lparr>ck_next := ck_next c\<rparr>)"
    have "chain ?m (h_bins h (NUM_BINS - 1)) (xs @ ys)"
      using chain_unlink [of "h_chunks h" _ zs q a ys c d] ch a d snoc by simp
    then have "returns (use_chunk a sz (h\<lparr>h_chunks := ?m, h_bins := h_bins h\<rparr>))
      (\<lambda>(p, h'). heap_inv lo hi h' (fl(NUM_BINS - 1 := xs @ ys)) \<and> allocates n h p h')"
      using snoc d by (intro remove_use [OF inv i fl a n]) auto
    moreover have "unlink_chunk prev c h = Some (h\<lparr>h_chunks := ?m, h_bins := h_bins h\<rparr>)"
      using q d snoc prev by (simp add: unlink_chunk_def upd_chunk_def)
    ultimately show ?thesis by simp
  qed
qed

lemma malloc_loop_ok:
  assumes inv: "heap_inv lo hi h fl" and fl: "fl (NUM_BINS - 1) = xs @ ys"
    and ch: "chain (h_chunks h) a ys" and prev: "prev = (if xs = [] then 0 else last xs)"
    and n: "0 < n" "16 dvd n" "n + MALLOC_FRAME_LEN < 2 ^ 64"
    and x: "x \<in> set ys" "n \<le> capacity_of h x"
  shows "returns (malloc_loop n sz prev a h) (\<lambda>(p, h'). heap_ok lo hi h' \<and> allocates n h p h')"
  using fl ch prev x(1)
proof (induction ys arbitrary: xs a prev)
  case (Cons y ys)
  have g: "geom lo hi (h_chunks h)" and l: "lists_ok (h_chunks h) (h_bins h) fl"
    using inv by (simp_all add: heap_inv_def)
  from Cons.prems(2) obtain c where c: "a = y" "y \<noteq> 0" "h_chunks h y = Some c" "chain (h_chunks h) (ck_next c) ys"
    by (auto split: option.splits)
  have fr: "ck_magic c = MALLOC_FREE"
    using lists_okD(3) [OF l, of "NUM_BINS - 1" y] Cons.prems(1) c(3) by (auto simp: free_chunk_def kconst)
  note step = malloc_loop.simps [of n sz prev a h]
  consider "n + MALLOC_FRAME_LEN < ck_capacity c" | "n \<le> ck_capacity c" "ck_capacity c \<le> n + MALLOC_FRAME_LEN"
    | "ck_capacity c < n" by linarith
  then show ?case
  proof cases
    case 1
    have "returns (do { (new, h) \<leftarrow> split y n h; use_chunk new sz h })
        (\<lambda>(p, h'). heap_ok lo hi h' \<and> allocates n h p h')"
      by (rule returns_mono [OF split_use [OF inv c(3) fr 1 n(1,2)]]) (auto simp: heap_ok_def)
    then show ?thesis using 1 c fr n(3) unfolding step by simp
  next
    case 2
    have "returns (do { h \<leftarrow> unlink_chunk prev c h; use_chunk y sz h })
        (\<lambda>(p, h'). heap_ok lo hi h' \<and> allocates n h p h')"
      by (rule returns_mono [OF unlink_use [OF inv Cons.prems(1) c(3) 2(1) Cons.prems(3)]])
        (auto simp: heap_ok_def)
    then show ?thesis using 2 c fr n(3) unfolding step by simp
  next
    case 3
    then have "x \<in> set ys" using Cons.prems(4) x(2) c by (auto simp: capacity_of_def)
    then have "returns (malloc_loop n sz y (ck_next c) h) (\<lambda>(p, h'). heap_ok lo hi h' \<and> allocates n h p h')"
      using Cons.IH [of "xs @ [y]" "ck_next c" y] Cons.prems c by simp
    then show ?thesis using 3 c fr n(3) unfolding step by simp
  qed
qed simp


subsection \<open>Rounding sizes\<close>

lemma ALIGN_UP_16:
  assumes "unat w + 15 < 2 ^ 64"
  shows "unat (ALIGN_UP (w :: u64) 16) = (unat w + 15) div 16 * 16"
proof -
  have m: "15 = (mask 4 :: u64)" by (simp add: mask_eq_exp_minus_1)
  have "unat (ALIGN_DOWN v 16) = unat v div 16 * 16" for v :: u64
  proof -
    have "ALIGN_DOWN v 16 = push_bit 4 (drop_bit 4 v)"
      unfolding ALIGN_DOWN_def by (rule bit_word_eqI) (auto simp: m bit_simps)
    moreover have lt: "unat v < 2 ^ 64"
      by (rule order_less_le_trans [OF unsigned_less]) simp
    moreover have "unat (v div 16) * unat (16 :: u64) < 2 ^ 64"
      using lt by (simp add: unat_div)
    then have "unat (v div 16 * 16) = unat (v div 16) * unat (16 :: u64)"
      using unat_mult_lem [of "v div 16" 16] by simp
    then have "unat (push_bit 4 (drop_bit 4 v)) = unat v div 16 * 16"
      by (simp add: push_bit_eq_mult drop_bit_eq_div unat_div)
    ultimately show ?thesis by simp
  qed
  moreover have "unat (w + 15) = unat w + 15"
    using assms by (subst unat_add_lem [THEN iffD1]) simp_all
  ultimately show ?thesis by (simp add: ALIGN_UP_def add_diff_eq [symmetric])
qed

text \<open>The capacity \<open>malloc\<close> looks for: the size of the bin, or the rounded size when it exceeds
  every bin.\<close>

definition wanted :: "nat \<Rightarrow> nat" where
  "wanted sz = (case get_bin_idx_from_size sz of None \<Rightarrow> sz | Some i \<Rightarrow> 2 ^ i)"

definition rounded :: "u64 \<Rightarrow> nat" where
  "rounded size0 = unat (ALIGN_UP (if size0 = 0 then 1 else size0) 16)"

lemma rounded_bounds:
  assumes "unat size0 + 79 < 2 ^ 64"
  shows "unat size0 \<le> rounded size0" "16 \<le> rounded size0" "16 dvd rounded size0"
    "rounded size0 + MALLOC_FRAME_LEN < 2 ^ 64"
proof -
  define w where "w = (if size0 = 0 then 1 else size0)"
  have w: "0 < unat w" "unat w + 79 < 2 ^ 64" "unat size0 \<le> unat w"
    using assms by (auto simp: w_def unat_gt_0)
  have "rounded size0 = (unat w + 15) div 16 * 16"
    unfolding rounded_def w_def [symmetric] using w by (intro ALIGN_UP_16) simp
  then show "unat size0 \<le> rounded size0" "16 \<le> rounded size0" "16 dvd rounded size0"
    "rounded size0 + MALLOC_FRAME_LEN < 2 ^ 64"
    using w by (auto simp: kconst)
qed

lemma get_bin_idx_Some:
  assumes "get_bin_idx_from_size sz = Some i"
  shows "i < NUM_BINS - 1" "sz \<le> 2 ^ i" "16 < sz * 2 \<Longrightarrow> 4 \<le> i"
proof -
  show i: "i < NUM_BINS - 1" "sz \<le> 2 ^ i"
    using assms by (auto simp: get_bin_idx_from_size_def find_Some_iff)
  show "4 \<le> i" if "16 < sz * 2"
  proof (rule ccontr)
    assume "\<not> 4 \<le> i"
    then have "(2::nat) ^ i \<le> 2 ^ 3" by (intro power_increasing) auto
    with i that show False by simp
  qed
qed

lemma wanted_bounds:
  assumes "16 \<le> sz" "16 dvd sz" "sz + MALLOC_FRAME_LEN < 2 ^ 64"
  shows "sz \<le> wanted sz" "16 dvd wanted sz" "0 < wanted sz" "wanted sz + MALLOC_FRAME_LEN < 2 ^ 64"
proof -
  have "sz \<le> wanted sz \<and> 16 dvd wanted sz \<and> wanted sz + MALLOC_FRAME_LEN < 2 ^ 64"
  proof (cases "get_bin_idx_from_size sz")
    case (Some i)
    note b = get_bin_idx_Some [OF Some]
    have "(2::nat) ^ 4 dvd 2 ^ i" using b(3) assms(1) by (intro le_imp_power_dvd) simp
    moreover have "(2::nat) ^ i \<le> 2 ^ 15" using b(1) by (intro power_increasing) (simp_all add: kconst)
    ultimately show ?thesis using b(2) Some by (simp add: wanted_def kconst)
  qed (use assms in \<open>simp add: wanted_def\<close>)
  then show "sz \<le> wanted sz" "16 dvd wanted sz" "0 < wanted sz" "wanted sz + MALLOC_FRAME_LEN < 2 ^ 64"
    using assms(1) by auto
qed

section \<open>The allocator's contract\<close>

definition in_bin :: "mheap \<Rightarrow> nat \<Rightarrow> nat \<Rightarrow> bool" where
  "in_bin h i a \<longleftrightarrow> (\<exists>xs. chain (h_chunks h) (h_bins h i) xs \<and> a \<in> set xs)"

lemma in_bin_fl: "heap_inv lo hi h fl \<Longrightarrow> i < NUM_BINS \<Longrightarrow> in_bin h i a \<longleftrightarrow> a \<in> set (fl i)"
  unfolding heap_inv_def in_bin_def using chain_unique lists_okD(1) by metis

text \<open>Every chunk of a bin of fixed size has that size.\<close>

definition sized :: "mheap \<Rightarrow> bool" where
  "sized h \<longleftrightarrow> (\<forall>i < NUM_BINS - 1. \<forall>a. in_bin h i a \<longrightarrow> 2 ^ i \<le> capacity_of h a)"

text \<open>There is a chunk for a request: in its bin, or in the last bin.\<close>

definition has_room :: "mheap \<Rightarrow> u64 \<Rightarrow> bool" where
  "has_room h size0 \<longleftrightarrow>
     (\<exists>i a. get_bin_idx_from_size (rounded size0) = Some i \<and> in_bin h i a) \<or>
     (\<exists>a. in_bin h (NUM_BINS - 1) a \<and> wanted (rounded size0) \<le> capacity_of h a)"

lemma malloc_bin:
  assumes inv: "heap_inv lo hi h fl" and i: "get_bin_idx_from_size (rounded size0) = Some i" "h_bins h i \<noteq> 0"
    and n: "\<And>a. in_bin h i a \<Longrightarrow> n \<le> capacity_of h a"
  shows "returns (malloc size0 h) (\<lambda>(p, h'). heap_ok lo hi h' \<and> allocates n h p h')"
proof -
  let ?a = "h_bins h i"
  have l: "lists_ok (h_chunks h) (h_bins h) fl" using inv by (simp add: heap_inv_def)
  have i': "i < NUM_BINS" using get_bin_idx_Some(1) [OF i(1)] by simp
  obtain c ys where c: "fl i = [] @ ?a # ys" "h_chunks h ?a = Some c" "chain (h_chunks h) (ck_next c) ys"
    using lists_okD(1) [OF l i'] i(2) by (auto simp: chain_non_null)
  have "in_bin h i ?a" using in_bin_fl [OF inv i'] c by simp
  then have "n \<le> ck_capacity c" using n [of ?a] c(2) by (simp add: capacity_of_def)
  then have "returns (use_chunk ?a (rounded size0)
      (h\<lparr>h_chunks := h_chunks h, h_bins := (h_bins h)(i := ck_next c)\<rparr>))
      (\<lambda>(p, h'). heap_inv lo hi h' (fl(i := [] @ ys)) \<and> allocates n h p h')"
    using c(3) by (intro remove_use [OF inv i' c(1,2)]) simp_all
  then have "returns (use_chunk ?a (rounded size0) (h\<lparr>h_bins := (h_bins h)(i := ck_next c)\<rparr>))
      (\<lambda>(p, h'). heap_ok lo hi h' \<and> allocates n h p h')"
    by (simp, elim returns_mono) (auto simp: heap_ok_def)
  moreover have "ck_magic c = MALLOC_FREE"
    using lists_okD(3) [OF l i', of ?a] c by (auto simp: free_chunk_def)
  ultimately show ?thesis
    using i c(2) by (simp add: malloc_def rounded_def Let_def)
qed

lemma malloc_large:
  assumes "case get_bin_idx_from_size (rounded size0) of None \<Rightarrow> True | Some i \<Rightarrow> h_bins h i = 0"
  shows "malloc size0 h = malloc_loop (wanted (rounded size0)) (rounded size0) 0 (h_bins h (NUM_BINS - 1)) h"
  using assms by (auto simp: malloc_def rounded_def wanted_def Let_def split: option.splits)

lemma malloc_total:
  assumes inv: "heap_inv lo hi h fl" and sz: "unat size0 + 79 < 2 ^ 64" and room: "has_room h size0"
    and n: "\<And>i a. get_bin_idx_from_size (rounded size0) = Some i \<Longrightarrow> in_bin h i a \<Longrightarrow> n \<le> capacity_of h a"
      "n \<le> wanted (rounded size0)"
  shows "returns (malloc size0 h) (\<lambda>(p, h'). heap_ok lo hi h' \<and> allocates n h p h')"
proof (cases "\<exists>i. get_bin_idx_from_size (rounded size0) = Some i \<and> h_bins h i \<noteq> 0")
  case True
  then show ?thesis using malloc_bin [OF inv] n(1) by blast
next
  case False
  let ?w = "wanted (rounded size0)"
  have last: "NUM_BINS - 1 < NUM_BINS" by (simp add: kconst)
  have l: "lists_ok (h_chunks h) (h_bins h) fl" using inv by (simp add: heap_inv_def)
  have "\<not> in_bin h i a" if "get_bin_idx_from_size (rounded size0) = Some i" for i a
    using that False by (auto simp: in_bin_def)
  then obtain a where "in_bin h (NUM_BINS - 1) a" "?w \<le> capacity_of h a"
    using room by (auto simp: has_room_def)
  then have "returns (malloc_loop ?w (rounded size0) 0 (h_bins h (NUM_BINS - 1)) h)
      (\<lambda>(p, h'). heap_ok lo hi h' \<and> allocates ?w h p h')"
    using in_bin_fl [OF inv last, of a] wanted_bounds [OF rounded_bounds(2-4) [OF sz]]
      lists_okD(1) [OF l last]
    by (intro malloc_loop_ok [OF inv, of "[]" "fl (NUM_BINS - 1)"]) simp_all
  moreover have "malloc size0 h = malloc_loop ?w (rounded size0) 0 (h_bins h (NUM_BINS - 1)) h"
    using False by (intro malloc_large) (auto split: option.splits)
  moreover have "allocates ?w h p h' \<Longrightarrow> allocates n h p h'" for p h'
    using n(2) by (auto simp: allocates_def)
  ultimately show ?thesis by (auto elim!: returns_mono)
qed



lemma malloc_capacity_aux:
  assumes "heap_ok lo hi h" "sized h" "unat size0 + 79 < 2 ^ 64" "has_room h size0"
  shows "\<exists>p h'. malloc size0 h = Some (p, h') \<and> heap_ok lo hi h' \<and> allocates (unat size0) h p h'"
proof -
  obtain fl where inv: "heap_inv lo hi h fl" using assms(1) by (auto simp: heap_ok_def)
  note r = rounded_bounds [OF assms(3)]
  have w: "unat size0 \<le> wanted (rounded size0)"
    using wanted_bounds(1) [OF r(2-4)] r(1) by simp
  have "unat size0 \<le> capacity_of h a"
    if i: "get_bin_idx_from_size (rounded size0) = Some i" "in_bin h i a" for i a
    using assms(2) that get_bin_idx_Some(1) [OF i(1)] w
    by (auto simp: sized_def wanted_def intro: order_trans)
  then show ?thesis
    using malloc_total [OF inv assms(3,4) _ w] by (auto elim!: returnsE)
qed

text \<open>
  As long as every bin holds chunks of its size, the memory \<open>malloc\<close> returns is as large as
  the request.
\<close>

theorem malloc_capacity:
  assumes "heap_ok lo hi h" "sized h" "unat size0 + 79 < 2 ^ 64" "has_room h size0"
  shows "\<exists>p h'. malloc size0 h = Some (p, h') \<and> heap_ok lo hi h' \<and> allocates (unat size0) h p h'"
  using assms by (rule malloc_capacity_aux)

subsection \<open>Freeing and resizing\<close>

lemma all_offsets: "(\<forall>x. b \<le> x \<and> x < b + n \<longrightarrow> P x) \<longleftrightarrow> list_all (\<lambda>i. P (b + i)) [0..<n]" for b n :: nat
proof -
  have "P x" if "\<forall>i < n. P (b + i)" "b \<le> x" "x < b + n" for x
    using that(1) [rule_format, of "x - b"] that(2,3) by auto
  then show ?thesis by (auto simp: list_all_iff)
qed

lemma check_buffer_overflow_iff:
  assumes "h_chunks h a = Some c" "ck_magic c = MALLOC_IN_USE"
  shows "check_buffer_overflow a h = (if redzones_intact h a then Some () else None)"
proof -
  have e: "chunk_data a = underflow_redzone a + MALLOC_REDZONE_LEN"
    "a + MALLOC_FRAME_LEN + capacity_of h a = chunk_data a + capacity_of h a + MALLOC_REDZONE_LEN"
    by (simp_all add: chunk_data_def underflow_redzone_def kconst)
  show ?thesis
    using assms unfolding redzones_intact_def check_buffer_overflow_def e(2)
    by (simp add: all_offsets e(1) capacity_of_def ASSERT_def)
qed

lemma get_chunk_from_ptr_eq:
  assumes "used_chunk (h_chunks h) a"
  shows "get_chunk_from_ptr (chunk_data a) h = (if redzones_intact h a then Some a else None)"
  using assms check_buffer_overflow_iff
  by (auto simp: get_chunk_from_ptr_def used_chunk_def chunk_data_def)

text \<open>The list a chunk is freed to.\<close>

definition free_bin :: "nat \<Rightarrow> nat" where
  "free_bin capacity = (case get_bin_idx_from_size capacity of None \<Rightarrow> NUM_BINS - 1 | Some i \<Rightarrow> i)"

lemma free_bin_less: "free_bin capacity < NUM_BINS"
  using get_bin_idx_Some(1) [of capacity] by (fastforce simp: free_bin_def kconst split: option.splits)

lemma free_eq:
  assumes a: "h_chunks h a = Some c" "used_chunk (h_chunks h) a" and r: "redzones_intact h a"
  shows "free (chunk_data a) h = Some (h\<lparr>
    h_chunks := (h_chunks h)(a \<mapsto> c\<lparr>ck_magic := MALLOC_FREE, ck_next := h_bins h (free_bin (ck_capacity c))\<rparr>),
    h_bins := (h_bins h)(free_bin (ck_capacity c) := a)\<rparr>)"
proof -
  have "chunk_data a \<noteq> 0" by (simp add: chunk_data_def kconst)
  then show ?thesis
    using a r get_chunk_from_ptr_eq [OF a(2)]
    by (cases c) (auto simp: free_def free_bin_def used_chunk_def Let_def)
qed

lemma free_ok:
  assumes inv: "heap_inv lo hi h fl" and a: "used_chunk (h_chunks h) a" and r: "redzones_intact h a"
  shows "\<exists>h'. free (chunk_data a) h = Some h' \<and> heap_ok lo hi h' \<and> h_mem h' = h_mem h \<and>
    live_chunks h' = live_chunks h - {a} \<and> (\<forall>b. b \<noteq> a \<longrightarrow> h_chunks h' b = h_chunks h b) \<and>
    free (chunk_data a) h' = None"
proof -
  obtain c where c: "h_chunks h a = Some c" using a by (auto simp: used_chunk_def)
  let ?i = "free_bin (ck_capacity c)"
  let ?c = "c\<lparr>ck_magic := MALLOC_FREE, ck_next := h_bins h ?i\<rparr>"
  let ?h = "h\<lparr>h_chunks := (h_chunks h)(a \<mapsto> ?c), h_bins := (h_bins h)(?i := a)\<rparr>"
  have g: "geom lo hi (h_chunks h)" and l: "lists_ok (h_chunks h) (h_bins h) fl"
    using inv by (simp_all add: heap_inv_def)
  have "geom lo hi (h_chunks ?h)"
    using g by (rule geom_frame) (use c in auto)
  moreover have "lists_ok (h_chunks ?h) (h_bins ?h) (fl(?i := a # fl ?i))"
    using lists_add [OF l free_bin_less a, of ?c "ck_capacity c"] geomD(1) [OF g c] by simp
  ultimately have "heap_ok lo hi ?h" by (auto simp: heap_ok_def heap_inv_def)
  moreover have "free (chunk_data a) ?h = None"
    by (simp add: free_def get_chunk_from_ptr_def chunk_data_def kconst Let_def)
  moreover have "live_chunks ?h = live_chunks h - {a}"
    by (auto simp: live_chunks_def used_chunk_def)
  ultimately show ?thesis using free_eq [OF c a r] by auto
qed

text \<open>
  C22: Freeing a live chunk whose redzones are intact succeeds, keeps the heap invariant, makes
  exactly that chunk free, touches no byte of memory, and freeing it again is detected.
\<close>

theorem free_releases:
  assumes "heap_ok lo hi h" "a \<in> live_chunks h" "redzones_intact h a"
  shows "\<exists>h'. free (chunk_data a) h = Some h' \<and> heap_ok lo hi h' \<and> h_mem h' = h_mem h \<and>
    live_chunks h' = live_chunks h - {a} \<and> (\<forall>b. b \<noteq> a \<longrightarrow> h_chunks h' b = h_chunks h b) \<and>
    free (chunk_data a) h' = None"
proof -
  obtain fl where "heap_inv lo hi h fl" using assms(1) by (auto simp: heap_ok_def)
  then show ?thesis using free_ok assms(2,3) by (simp add: live_chunks_def)
qed

text \<open>
  C24: A write that damages a redzone of a live chunk is detected when the chunk is freed or
  resized: both stop the program.
\<close>

theorem redzone_damage_detected:
  assumes "a \<in> live_chunks h" "\<not> redzones_intact h a"
  shows "free (chunk_data a) h = None \<and> realloc (chunk_data a) sz h = None"
  using assms get_chunk_from_ptr_eq [of h a]
  by (auto simp: live_chunks_def free_def realloc_def chunk_data_def kconst)

lemma mem_copy_eq:
  assumes "s + n \<le> d \<or> d + n \<le> s"
  shows "mem_copy mem d s n x = (if d \<le> x \<and> x < d + n then mem (s + (x - d)) else mem x)"
  using assms
proof (induction n arbitrary: mem d s)
  case (Suc n)
  have "mem_copy mem d s (Suc n) x = (if Suc d \<le> x \<and> x < Suc d + n then (mem(d := mem s)) (Suc s + (x - Suc d))
      else (mem(d := mem s)) x)"
    unfolding mem_copy.simps using Suc.prems by (intro Suc.IH) auto
  also have "\<dots> = (if d \<le> x \<and> x < d + Suc n then mem (s + (x - d)) else mem x)"
    using Suc.prems by (cases "x = d") (auto simp: Suc_diff_Suc)
  finally show ?case .
qed auto

lemma allocatesD:
  assumes "allocates n h p h'"
  obtains a where "p = chunk_data a" "16 dvd p" "a \<notin> live_chunks h" "live_chunks h' = insert a (live_chunks h)"
    "n \<le> capacity_of h' a"
    "\<And>b. b \<in> live_chunks h \<Longrightarrow> h_chunks h' b = h_chunks h b \<and> chunk_bytes h' b \<inter> chunk_bytes h' a = {}"
    "\<And>x. x \<notin> chunk_bytes h' a \<Longrightarrow> h_mem h' x = h_mem h x" "redzones_intact h' a"
  using assms unfolding allocates_def by blast





section \<open>The heap after \<open>malloc_init\<close>\<close>

definition heap0 :: "nat \<Rightarrow> nat \<Rightarrow> (nat \<Rightarrow> u8) \<Rightarrow> mheap" where
  "heap0 lo hi mem =
     \<lparr>h_chunks = [lo \<mapsto> \<lparr>ck_next = 0, ck_capacity = hi - lo - MALLOC_FRAME_LEN, ck_size = 0, ck_magic = MALLOC_FREE\<rparr>],
      h_mem = mem, h_bins = (\<lambda>_. 0)(NUM_BINS - 1 := lo)\<rparr>"

lemma heap0_ok:
  assumes "0 < lo" "16 dvd lo" "16 dvd hi" "lo + MALLOC_FRAME_LEN < hi" "hi < 2 ^ 64"
  shows "heap_ok lo hi (heap0 lo hi mem)"
proof -
  have "16 dvd hi - lo - MALLOC_FRAME_LEN"
    using assms by (intro dvd_diff_nat) (simp_all add: kconst)
  then have "geom lo hi (h_chunks (heap0 lo hi mem))"
    using assms by (auto simp: geom_def heap0_def split: if_splits)
  moreover have "lists_ok (h_chunks (heap0 lo hi mem)) (h_bins (heap0 lo hi mem)) ((\<lambda>_. [])(NUM_BINS - 1 := [lo]))"
    using assms by (auto simp: lists_ok_def heap0_def free_chunk_def used_chunk_def NUM_BINS_def split: if_splits)
  ultimately show ?thesis by (auto simp: heap_ok_def heap_inv_def)
qed

lemma heap0_sized: "sized (heap0 lo hi mem)"
  by (auto simp: sized_def in_bin_def heap0_def)

lemma heap0_in_bin: "lo \<noteq> 0 \<Longrightarrow> in_bin (heap0 lo hi mem) (NUM_BINS - 1) lo"
  by (auto simp: in_bin_def heap0_def intro!: exI [of _ "[lo]"])

text \<open>
  Initialising the allocator with an aligned heap that has room for one chunk gives a heap
  that satisfies the invariant, with every bin of fixed size empty and nothing allocated.
\<close>

theorem malloc_init_ok:
  assumes "0 < lo" "16 dvd lo" "16 dvd hi" "lo + MALLOC_FRAME_LEN < hi" "hi < 2 ^ 64"
  shows "\<exists>h. malloc_init lo hi (no_heap mem) = Some h \<and> heap_ok lo hi h \<and> sized h \<and> live_chunks h = {}"
proof -
  have "malloc_init lo hi (no_heap mem) = Some (heap0 lo hi mem)"
    using assms by (simp add: malloc_init_def chunk_insert_def no_heap_def heap0_def Let_def)
  moreover have "live_chunks (heap0 lo hi mem) = {}"
    by (auto simp: live_chunks_def heap0_def used_chunk_def)
  ultimately show ?thesis using heap0_ok [OF assms] heap0_sized by simp
qed

section \<open>Concrete heaps\<close>

abbreviation demo_heap :: mheap where
  "demo_heap \<equiv> heap0 0x1000 0x3000 (\<lambda>_. 0)"

lemma bin_idx_eval:
  "get_bin_idx_from_size 0 = Some 0" "get_bin_idx_from_size 32 = Some 5" "get_bin_idx_from_size 48 = Some 6"
  "get_bin_idx_from_size 64 = Some 6" "get_bin_idx_from_size 112 = Some 7" "get_bin_idx_from_size 208 = Some 8"
  by (simp_all add: get_bin_idx_from_size_def NUM_BINS_def upt_rec)

lemmas malloc_eval = malloc_def malloc_loop.simps split_def use_chunk_def unlink_chunk_def upd_chunk_def
  bin_idx_eval heap0_def ALIGN_UP_def ALIGN_DOWN_def chunk_data_def Let_def

definition demo_heap1 :: mheap where
  "demo_heap1 =
     \<lparr>h_chunks = [0x1000 \<mapsto> \<lparr>ck_next = 0, ck_capacity = 0x1f00, ck_size = 0, ck_magic = MALLOC_FREE\<rparr>,
                   0x2f40 \<mapsto> \<lparr>ck_next = 0, ck_capacity = 0x80, ck_size = 0x70, ck_magic = MALLOC_IN_USE\<rparr>],
      h_mem = set_redzones 0x2f40 0x80 (\<lambda>_. 0), h_bins = (\<lambda>_. 0)(NUM_BINS - 1 := 0x1000)\<rparr>"

lemma demo_malloc: "malloc 100 demo_heap = Some (0x2f70, demo_heap1)"
  by (simp add: malloc_eval kconst demo_heap1_def)

lemma demo_heap_ok: "heap_ok 0x1000 0x3000 demo_heap"
  by (rule heap0_ok) (simp_all add: kconst)

lemma demo_room: "has_room demo_heap 100"
proof -
  have "wanted (rounded 100) \<le> capacity_of demo_heap 0x1000"
    by (simp add: wanted_def rounded_def capacity_of_def malloc_eval kconst)
  moreover have "in_bin demo_heap (NUM_BINS - 1) 0x1000" by (rule heap0_in_bin) simp
  ultimately show ?thesis unfolding has_room_def by blast
qed

lemma demo_heap1_ok: "heap_ok 0x1000 0x3000 demo_heap1" "0x2f40 \<in> live_chunks demo_heap1"
  "redzones_intact demo_heap1 0x2f40"
proof -
  have "allocates (unat (100 :: u64)) demo_heap 0x2f70 demo_heap1 \<and> heap_ok 0x1000 0x3000 demo_heap1"
    using malloc_capacity_aux [OF demo_heap_ok heap0_sized _ demo_room] demo_malloc by simp
  then show "heap_ok 0x1000 0x3000 demo_heap1" "0x2f40 \<in> live_chunks demo_heap1"
    "redzones_intact demo_heap1 0x2f40"
    by (auto elim!: allocatesD simp: chunk_data_def kconst)
qed



theorem malloc_init_ok_witness:
  "\<exists>h. malloc_init 0x1000 0x3000 (no_heap (\<lambda>_. 0)) = Some h \<and> heap_ok 0x1000 0x3000 h \<and> live_chunks h = {}"
  using malloc_init_ok [of "0x1000" "0x3000" "\<lambda>_. 0"] by (auto simp: kconst)


theorem malloc_capacity_witness:
  "has_room demo_heap 100 \<and> (\<exists>p h'. malloc 100 demo_heap = Some (p, h') \<and> allocates 100 demo_heap p h')"
  using malloc_capacity [OF demo_heap_ok heap0_sized _ demo_room] demo_room by auto

theorem free_releases_witness:
  "0x2f40 \<in> live_chunks demo_heap1 \<and>
   (\<exists>h'. free 0x2f70 demo_heap1 = Some h' \<and> 0x2f40 \<notin> live_chunks h' \<and> free 0x2f70 h' = None)"
  using free_releases [OF demo_heap1_ok] demo_heap1_ok(2) by (auto simp: chunk_data_def kconst)

theorem redzone_damage_detected_witness:
  "\<exists>h. 0x2f40 \<in> live_chunks h \<and> \<not> redzones_intact h 0x2f40 \<and> free 0x2f70 h = None"
proof -
  let ?h = "demo_heap1\<lparr>h_mem := (h_mem demo_heap1)(0x2ff0 := 0)\<rparr>"
  have d: "0x2f40 \<in> live_chunks ?h" "\<not> redzones_intact ?h 0x2f40"
    using demo_heap1_ok(2)
    by (auto simp: live_chunks_def redzones_intact_def capacity_of_def demo_heap1_def chunk_data_def kconst)
  then show ?thesis
    using redzone_damage_detected [OF d] by (auto simp: chunk_data_def kconst intro!: exI [of _ ?h])
qed


section \<open>Requests the allocator does not serve\<close>


text \<open>
  A request close to the largest \<open>size_t\<close> wraps to zero when it is rounded up, and gets one
  byte instead of running out of memory.
\<close>

theorem malloc_wraps:
  "do {
     (p, h) \<leftarrow> malloc (- 1) demo_heap;
     Some (capacity_of h (p - CHUNK_LEN))
   } = Some 1"
  by (simp add: malloc_eval capacity_of_def kconst)

text \<open>
  Growing inside the capacity does not record the new size, so the next move copies only the
  bytes of the original size: a byte stored at offset 60 of a chunk grown from 40 to 64 bytes
  is lost when the chunk grows to 100 bytes.
\<close>

theorem realloc_forgets:
  "do {
     (p, h) \<leftarrow> malloc 40 demo_heap;
     (q, h) \<leftarrow> realloc p 64 h;
     let h = h\<lparr>h_mem := (h_mem h)(q + 60 := 7)\<rparr>;
     (r, h) \<leftarrow> realloc q 100 h;
     Some (h_mem h (r + 60))
   } = Some 0"
  by (simp add: malloc_eval realloc_def free_def get_chunk_from_ptr_def check_buffer_overflow_def set_redzones_def
    underflow_redzone_def capacity_of_def mem_copy_eq list_all_iff kconst)

end
