(* ===== verification/Handle.thy ===== *)
theory Handle
  imports Prelude
begin

text \<open>
  Handles, \<^verbatim>\<open>libs/resea/handle.c\<close>: a hash table of 32 buckets from a task and a small number to
  an object of the server. An entry is reached through its bucket and its position in it. The
  callers check nothing: \<open>handle_get\<close>, \<open>handle_set\<close> and \<open>handle_free\<close> take the number from a
  message. A bucket that is not allocated is \<open>None\<close>. \<^verbatim>\<open>malloc\<close> returns fresh memory or stops
  the program, so entries are values here.
\<close>

section \<open>The code\<close>

definition NUM_BUCKETS :: int where
  [kconst]: "NUM_BUCKETS = 32"

definition HANDLE_MAX :: int where
  [kconst]: "HANDLE_MAX = 128"

record 'd handle_entry =
  he_owner :: task_t
  he_handle :: int
  he_data :: "'d option"

type_synonym 'd handles = "nat \<Rightarrow> 'd handle_entry list option"

definition bucket_of :: "int \<Rightarrow> nat" where
  "bucket_of handle = nat (handle mod NUM_BUCKETS)"

text \<open>\<^verbatim>\<open>unsigned index = handle % NUM_BUCKETS\<close>: the remainder of a negative number is negative or
  zero, and a negative one becomes an index far outside the array.\<close>

definition bucket_index :: "int \<Rightarrow> nat option" where
  "bucket_index handle =
     (if 0 \<le> handle then Some (bucket_of handle)
      else if handle mod NUM_BUCKETS = 0 then Some 0
      else None)"

fun entry_pos :: "'d handle_entry list \<Rightarrow> task_t \<Rightarrow> int \<Rightarrow> nat option" where
  "entry_pos [] owner handle = None"
| "entry_pos (e # es) owner handle =
     (if he_owner e = owner \<and> he_handle e = handle then Some 0
      else map_option Suc (entry_pos es owner handle))"

definition get_entry :: "'d handles \<Rightarrow> task_t \<Rightarrow> int \<Rightarrow> (nat \<times> nat) option option" where
  "get_entry hs owner handle =
     do {
       index \<leftarrow> bucket_index handle;
       case hs index of
         None \<Rightarrow> Some None
       | Some es \<Rightarrow> Some (map_option (Pair index) (entry_pos es owner handle))
     }"

text \<open>The search of \<open>handle_alloc\<close> for an unused number; 0 when there is none.\<close>

fun alloc_loop :: "'d handles \<Rightarrow> task_t \<Rightarrow> int list \<Rightarrow> int option" where
  "alloc_loop hs owner [] = Some 0"
| "alloc_loop hs owner (handle # rest) =
     do {
       r \<leftarrow> get_entry hs owner handle;
       if r = None then Some handle else alloc_loop hs owner rest
     }"

definition handle_alloc :: "task_t \<Rightarrow> 'd handles \<Rightarrow> (int \<times> 'd handles) option" where
  "handle_alloc owner hs =
     do {
       new_handle \<leftarrow> alloc_loop hs owner [1..HANDLE_MAX];
       if new_handle = 0 then Some (err_code ERR_NO_MEMORY, hs)
       else do {
         index \<leftarrow> bucket_index new_handle;
         let es = (case hs index of None \<Rightarrow> [] | Some es \<Rightarrow> es);
         let e = \<lparr>he_owner = owner, he_handle = new_handle, he_data = None\<rparr>;
         Some (new_handle, hs(index := Some (es @ [e])))
       }
     }"

definition the_bucket :: "'d handles \<Rightarrow> nat \<Rightarrow> 'd handle_entry list" where
  "the_bucket hs index = (case hs index of None \<Rightarrow> [] | Some es \<Rightarrow> es)"

definition handle_get :: "task_t \<Rightarrow> int \<Rightarrow> 'd handles \<Rightarrow> 'd option option" where
  "handle_get owner handle hs =
     do {
       r \<leftarrow> get_entry hs owner handle;
       case r of
         None \<Rightarrow> Some None
       | Some (index, k) \<Rightarrow> Some (he_data (the_bucket hs index ! k))
     }"

definition handle_set :: "task_t \<Rightarrow> int \<Rightarrow> 'd option \<Rightarrow> 'd handles \<Rightarrow> 'd handles option" where
  "handle_set owner handle data hs =
     do {
       r \<leftarrow> get_entry hs owner handle;
       (index, k) \<leftarrow> r;
       let es = the_bucket hs index;
       Some (hs(index := Some (es[k := (es ! k)\<lparr>he_data := data\<rparr>])))
     }"

text \<open>\<^verbatim>\<open>list_remove(&e->next)\<close>\<close>

definition unlink_entry :: "nat \<Rightarrow> nat \<Rightarrow> 'd handles \<Rightarrow> 'd handles" where
  "unlink_entry index k hs =
     (let es = the_bucket hs index in hs(index := Some (take k es @ drop (Suc k) es)))"

definition handle_free :: "task_t \<Rightarrow> int \<Rightarrow> 'd handles \<Rightarrow> 'd handles option" where
  "handle_free owner handle hs =
     do {
       r \<leftarrow> get_entry hs owner handle;
       case r of
         None \<Rightarrow> Some hs
       | Some (index, k) \<Rightarrow> Some (unlink_entry index k hs)
     }"

text \<open>The callback \<open>before_free\<close> changes the state of the server.\<close>

fun free_all_loop :: "task_t \<Rightarrow> ('d option \<Rightarrow> 's \<Rightarrow> 's) \<Rightarrow> int list \<Rightarrow> 'd handles \<times> 's \<Rightarrow> ('d handles \<times> 's) option" where
  "free_all_loop owner before_free [] (hs, s) = Some (hs, s)"
| "free_all_loop owner before_free (handle # rest) (hs, s) =
     do {
       r \<leftarrow> get_entry hs owner handle;
       case r of
         None \<Rightarrow> free_all_loop owner before_free rest (hs, s)
       | Some (index, k) \<Rightarrow>
           let e = the_bucket hs index ! k in
           if he_owner e = owner
           then free_all_loop owner before_free rest (unlink_entry index k hs, before_free (he_data e) s)
           else free_all_loop owner before_free rest (hs, s)
     }"

definition handle_free_all ::
  "task_t \<Rightarrow> ('d option \<Rightarrow> 's \<Rightarrow> 's) \<Rightarrow> 'd handles \<times> 's \<Rightarrow> ('d handles \<times> 's) option" where
  "handle_free_all owner before_free hs_s = free_all_loop owner before_free [1..HANDLE_MAX] hs_s"

section \<open>The map a table implements\<close>

text \<open>A well-formed table: an entry is in the bucket of its number, and no two entries have the
  same owner and number.\<close>

definition handles_ok :: "'d handles \<Rightarrow> bool" where
  "handles_ok hs \<longleftrightarrow>
     (\<forall>i e. e \<in> set (the_bucket hs i) \<longrightarrow>
        1 \<le> he_handle e \<and> he_handle e \<le> HANDLE_MAX \<and> i = bucket_of (he_handle e)) \<and>
     (\<forall>i. distinct (map (\<lambda>e. (he_owner e, he_handle e)) (the_bucket hs i)))"

text \<open>What a table maps a task and a number to: nothing, or the data (which may be null).\<close>

definition handle_map :: "'d handles \<Rightarrow> task_t \<times> int \<rightharpoonup> 'd option" where
  "handle_map hs oh =
     map_option he_data (find (\<lambda>e. (he_owner e, he_handle e) = oh)
       (the_bucket hs (bucket_of (snd oh))))"

lemma entry_pos_None: "entry_pos es owner handle = None \<longleftrightarrow> find (\<lambda>e. (he_owner e, he_handle e) = (owner, handle)) es = None"
  by (induction es) auto

lemma entry_pos_Some:
  "entry_pos es owner handle = Some k \<Longrightarrow>
   k < length es \<and> find (\<lambda>e. (he_owner e, he_handle e) = (owner, handle)) es = Some (es ! k) \<and>
   he_owner (es ! k) = owner \<and> he_handle (es ! k) = handle"
  by (induction es arbitrary: k) (auto split: if_splits)

lemma find_update:
  "distinct (map f es) \<Longrightarrow> k < length es \<Longrightarrow> f e = f (es ! k) \<Longrightarrow>
   find (\<lambda>e. f e = x) (es[k := e]) = (if f e = x then Some e else find (\<lambda>e. f e = x) es)"
  by (induction es arbitrary: k) (auto split: nat.splits, metis image_eqI nth_mem)

lemma find_remove:
  "distinct (map f es) \<Longrightarrow> k < length es \<Longrightarrow>
   find (\<lambda>e. f e = x) (take k es @ drop (Suc k) es) = (if f (es ! k) = x then None else find (\<lambda>e. f e = x) es)"
proof (induction es arbitrary: k)
  case (Cons a es)
  then show ?case
    by (cases k) (auto simp: find_None_iff, (metis image_eqI nth_mem)+)
qed simp

lemma find_snoc: "find P (xs @ [x]) = (case find P xs of None \<Rightarrow> if P x then Some x else None | Some y \<Rightarrow> Some y)"
  by (induction xs) auto

lemma the_bucket_upd [simp]: "the_bucket (hs(i := Some es)) j = (if j = i then es else the_bucket hs j)"
  by (simp add: the_bucket_def)

lemma handle_map_bucket:
  "handle_map hs (owner, handle) =
     map_option he_data (find (\<lambda>e. (he_owner e, he_handle e) = (owner, handle))
       (the_bucket hs (bucket_of handle)))"
  by (simp add: handle_map_def)

lemma get_entry_eq:
  "0 \<le> handle \<Longrightarrow> get_entry hs owner handle =
     Some (map_option (Pair (bucket_of handle))
       (entry_pos (the_bucket hs (bucket_of handle)) owner handle))"
  by (simp add: get_entry_def bucket_index_def the_bucket_def split: option.splits)

text \<open>Replacing the entries of one bucket changes the map only at numbers of that bucket.\<close>

lemma handle_map_upd:
  assumes "\<And>o' h'. bucket_of h' = i \<Longrightarrow>
     map_option he_data (find (\<lambda>e. (he_owner e, he_handle e) = (o', h')) es) = m (o', h')"
    and "\<And>o' h'. bucket_of h' \<noteq> i \<Longrightarrow> handle_map hs (o', h') = m (o', h')"
  shows "handle_map (hs(i := Some es)) = m"
  using assms by (intro ext) (auto simp: handle_map_def)

lemma handles_okD:
  assumes "handles_ok hs"
  shows "e \<in> set (the_bucket hs i) \<Longrightarrow> 1 \<le> he_handle e \<and> he_handle e \<le> HANDLE_MAX \<and> i = bucket_of (he_handle e)"
    and "distinct (map (\<lambda>e. (he_owner e, he_handle e)) (the_bucket hs i))"
  using assms unfolding handles_ok_def by blast+

lemma handles_ok_upd:
  assumes "handles_ok hs" "distinct (map (\<lambda>e. (he_owner e, he_handle e)) es)"
    "\<And>e. e \<in> set es \<Longrightarrow> 1 \<le> he_handle e \<and> he_handle e \<le> HANDLE_MAX \<and> i = bucket_of (he_handle e)"
  shows "handles_ok (hs(i := Some es))"
  unfolding handles_ok_def
proof (intro conjI allI impI)
  fix j e assume "e \<in> set (the_bucket (hs(i := Some es)) j)"
  then show "1 \<le> he_handle e" "he_handle e \<le> HANDLE_MAX" "j = bucket_of (he_handle e)"
    using assms(3) [of e] handles_okD(1) [OF assms(1), of e j] by (auto split: if_splits)
next
  fix j show "distinct (map (\<lambda>e. (he_owner e, he_handle e)) (the_bucket (hs(i := Some es)) j))"
    using assms(2) handles_okD(2) [OF assms(1), of j] by simp
qed

lemma entry_pos_map:
  "entry_pos (the_bucket hs (bucket_of handle)) owner handle = None \<longleftrightarrow>
   handle_map hs (owner, handle) = None"
  using entry_pos_None [of "the_bucket hs (bucket_of handle)" owner handle]
  by (simp add: handle_map_bucket)

lemma distinct_remove_nth: "distinct xs \<Longrightarrow> distinct (take k xs @ drop (Suc k) xs)"
  by (simp add: set_take_disj_set_drop_if_distinct)

lemma handle_get_map:
  "0 \<le> handle \<Longrightarrow> handle_get owner handle hs =
     Some (case handle_map hs (owner, handle) of None \<Rightarrow> None | Some d \<Rightarrow> d)"
  using entry_pos_Some [of "the_bucket hs (bucket_of handle)" owner handle]
    entry_pos_None [of "the_bucket hs (bucket_of handle)" owner handle]
  by (auto simp: handle_get_def get_entry_eq handle_map_bucket split: option.splits)

lemma handle_set_map:
  assumes "handles_ok hs" "0 \<le> handle"
  shows "if handle_map hs (owner, handle) = None then handle_set owner handle d hs = None
    else (\<exists>hs'. handle_set owner handle d hs = Some hs' \<and> handles_ok hs' \<and>
      handle_map hs' = (handle_map hs)((owner, handle) \<mapsto> d))"
proof -
  let ?i = "bucket_of handle"
  let ?es = "the_bucket hs ?i"
  let ?key = "\<lambda>e. (he_owner e, he_handle e)"
  show ?thesis
  proof (cases "entry_pos ?es owner handle")
    case None
    then show ?thesis
      using assms(2) entry_pos_None [of ?es owner handle]
      by (simp add: handle_set_def get_entry_eq handle_map_bucket)
  next
    case (Some k)
    note k = entry_pos_Some [OF Some]
    let ?new = "?es[k := (?es ! k)\<lparr>he_data := d\<rparr>]"
    have f: "find (\<lambda>e. ?key e = x) ?new =
        (if (owner, handle) = x then Some ((?es ! k)\<lparr>he_data := d\<rparr>) else find (\<lambda>e. ?key e = x) ?es)" for x
      using find_update [OF handles_okD(2) [OF assms(1), of ?i], of k "(?es ! k)\<lparr>he_data := d\<rparr>" x] k by simp
    have "handle_map (hs(?i := Some ?new)) = (handle_map hs)((owner, handle) \<mapsto> d)"
    proof (rule handle_map_upd)
      fix o' h' assume b: "bucket_of h' = ?i"
      show "map_option he_data (find (\<lambda>e. ?key e = (o', h')) ?new) = ((handle_map hs)((owner, handle) \<mapsto> d)) (o', h')"
        unfolding f fun_upd_apply handle_map_bucket b by simp
    qed auto
    moreover have "map ?key ?new = map ?key ?es"
      using k list_update_id [of "map ?key ?es" k] by (simp add: map_update)
    then have "distinct (map ?key ?new)" using handles_okD(2) [OF assms(1), of ?i] by simp
    then have "handles_ok (hs(?i := Some ?new))"
      using handles_okD(1) [OF assms(1), of _ ?i] handles_okD(1) [OF assms(1), of "?es ! k" ?i] k
      by (intro handles_ok_upd [OF assms(1)]) (auto dest!: set_update_subset_insert [THEN subsetD])
    moreover have "handle_map hs (owner, handle) \<noteq> None" using k by (simp add: handle_map_bucket)
    ultimately show ?thesis
      using assms(2) Some by (simp add: handle_set_def get_entry_eq Let_def)
  qed
qed

lemma unlink_entry_map:
  assumes "handles_ok hs" "entry_pos (the_bucket hs (bucket_of handle)) owner handle = Some k"
  shows "handles_ok (unlink_entry (bucket_of handle) k hs)"
    and "handle_map (unlink_entry (bucket_of handle) k hs) = (handle_map hs)((owner, handle) := None)"
proof -
  let ?i = "bucket_of handle"
  let ?es = "the_bucket hs ?i"
  let ?key = "\<lambda>e. (he_owner e, he_handle e)"
  let ?new = "take k ?es @ drop (Suc k) ?es"
  note k = entry_pos_Some [OF assms(2)]
  have f: "find (\<lambda>e. ?key e = x) ?new = (if (owner, handle) = x then None else find (\<lambda>e. ?key e = x) ?es)" for x
    using find_remove [OF handles_okD(2) [OF assms(1), of ?i], of k x] k by simp
  show "handle_map (unlink_entry ?i k hs) = (handle_map hs)((owner, handle) := None)"
    unfolding unlink_entry_def Let_def
  proof (rule handle_map_upd)
    fix o' h' assume b: "bucket_of h' = ?i"
    show "map_option he_data (find (\<lambda>e. ?key e = (o', h')) ?new) = ((handle_map hs)((owner, handle) := None)) (o', h')"
      unfolding f fun_upd_apply handle_map_bucket b by simp
  qed auto
  have "distinct (map ?key ?new)"
    using distinct_remove_nth [OF handles_okD(2) [OF assms(1), of ?i], of k] by (simp add: take_map drop_map)
  then show "handles_ok (unlink_entry ?i k hs)"
    unfolding unlink_entry_def Let_def
    by (rule handles_ok_upd [OF assms(1)])
      (use handles_okD(1) [OF assms(1), of _ ?i] in \<open>auto dest: in_set_takeD in_set_dropD\<close>)
qed

lemma handle_free_map:
  assumes "handles_ok hs" "0 \<le> handle"
  shows "\<exists>hs'. handle_free owner handle hs = Some hs' \<and> handles_ok hs' \<and>
    handle_map hs' = (handle_map hs)((owner, handle) := None)"
proof (cases "entry_pos (the_bucket hs (bucket_of handle)) owner handle")
  case None
  then have "handle_map hs (owner, handle) = None" by (simp add: entry_pos_map)
  then have "(handle_map hs)((owner, handle) := None) = handle_map hs" by auto
  then show ?thesis using assms None by (simp add: handle_free_def get_entry_eq)
next
  case (Some k)
  then show ?thesis
    using assms unlink_entry_map [OF assms(1) Some] by (simp add: handle_free_def get_entry_eq)
qed

lemma alloc_loop_eq:
  "(\<And>h. h \<in> set hl \<Longrightarrow> 0 \<le> h) \<Longrightarrow>
   alloc_loop hs owner hl = Some (case find (\<lambda>h. handle_map hs (owner, h) = None) hl of None \<Rightarrow> 0 | Some h \<Rightarrow> h)"
  by (induction hl) (simp_all add: get_entry_eq entry_pos_map)

lemma handle_alloc_map:
  assumes "handles_ok hs"
  shows "\<exists>r hs'. handle_alloc owner hs = Some (r, hs') \<and> handles_ok hs' \<and>
    (if \<forall>h \<in> {1..HANDLE_MAX}. handle_map hs (owner, h) \<noteq> None
     then r = err_code ERR_NO_MEMORY \<and> hs' = hs
     else 1 \<le> r \<and> r \<le> HANDLE_MAX \<and> handle_map hs (owner, r) = None \<and>
       handle_map hs' = (handle_map hs)((owner, r) \<mapsto> None))"
proof -
  have al: "alloc_loop hs owner [1..HANDLE_MAX] =
      Some (case find (\<lambda>h. handle_map hs (owner, h) = None) [1..HANDLE_MAX] of None \<Rightarrow> 0 | Some h \<Rightarrow> h)"
    by (rule alloc_loop_eq) auto
  show ?thesis
  proof (cases "find (\<lambda>h. handle_map hs (owner, h) = None) [1..HANDLE_MAX]")
  case None
  then have "\<forall>h \<in> {1..HANDLE_MAX}. handle_map hs (owner, h) \<noteq> None"
    by (auto simp: find_None_iff)
  moreover have "handle_alloc owner hs = Some (err_code ERR_NO_MEMORY, hs)"
    using None by (simp add: handle_alloc_def al)
  ultimately show ?thesis using assms by auto
next
  case (Some h)
  then have h: "1 \<le> h" "h \<le> HANDLE_MAX" "handle_map hs (owner, h) = None"
    by (auto simp: find_Some_iff nth_upto)
  let ?i = "bucket_of h"
  let ?key = "\<lambda>e. (he_owner e, he_handle e)"
  let ?e = "\<lparr>he_owner = owner, he_handle = h, he_data = None\<rparr>"
  let ?new = "the_bucket hs ?i @ [?e]"
  have n: "find (\<lambda>e. ?key e = (owner, h)) (the_bucket hs ?i) = None"
    using h(3) by (simp add: handle_map_bucket)
  have "handle_map (hs(?i := Some ?new)) = (handle_map hs)((owner, h) \<mapsto> None)"
  proof (rule handle_map_upd)
    fix o' h' assume b: "bucket_of h' = ?i"
    show "map_option he_data (find (\<lambda>e. ?key e = (o', h')) ?new) = ((handle_map hs)((owner, h) \<mapsto> None)) (o', h')"
      unfolding fun_upd_apply handle_map_bucket b find_snoc using n by (simp split: option.splits)
  qed auto
  moreover have "distinct (map ?key ?new)"
    using handles_okD(2) [OF assms, of ?i] n by (auto simp: find_None_iff)
  then have "handles_ok (hs(?i := Some ?new))"
    using handles_okD(1) [OF assms, of _ ?i] h by (intro handles_ok_upd [OF assms]) auto
  moreover have "handle_alloc owner hs = Some (h, hs(?i := Some ?new))"
    using Some h by (simp add: handle_alloc_def al bucket_index_def the_bucket_def Let_def)
  ultimately show ?thesis using h by auto
qed
qed

lemma free_all_loop_map:
  assumes "handles_ok hs" "\<And>h. h \<in> set hl \<Longrightarrow> 0 \<le> h" "distinct hl"
  shows "\<exists>hs'. free_all_loop owner f hl (hs, s) =
      Some (hs', fold f (map (\<lambda>h. the (handle_map hs (owner, h))) (filter (\<lambda>h. handle_map hs (owner, h) \<noteq> None) hl)) s) \<and>
    handles_ok hs' \<and> handle_map hs' = (\<lambda>(o', h). if o' = owner \<and> h \<in> set hl then None else handle_map hs (o', h))"
  using assms
proof (induction hl arbitrary: hs s)
  case (Cons h hl)
  show ?case
  proof (cases "entry_pos (the_bucket hs (bucket_of h)) owner h")
    case None
    then have n: "handle_map hs (owner, h) = None" by (simp add: entry_pos_map)
    have "(\<lambda>(o', h'). if o' = owner \<and> h' \<in> set hl then None else handle_map hs (o', h')) =
        (\<lambda>(o', h'). if o' = owner \<and> h' \<in> set (h # hl) then None else handle_map hs (o', h'))"
      using n by (auto simp: fun_eq_iff)
    then show ?thesis using Cons.IH [OF Cons.prems(1), of s] Cons.prems None n by (simp add: get_entry_eq)
  next
    case (Some k)
    let ?hs = "unlink_entry (bucket_of h) k hs"
    note u = unlink_entry_map [OF Cons.prems(1) Some]
    note k = entry_pos_Some [OF Some]
    let ?d = "he_data (the_bucket hs (bucket_of h) ! k)"
    have d: "handle_map hs (owner, h) = Some ?d" using k by (simp add: handle_map_bucket)
    have same: "handle_map ?hs (owner, h') = handle_map hs (owner, h')" if "h' \<in> set hl" for h'
      using u(2) that Cons.prems(3) by auto
    then have e: "map (\<lambda>h. the (handle_map ?hs (owner, h))) (filter (\<lambda>h. handle_map ?hs (owner, h) \<noteq> None) hl) =
        map (\<lambda>h. the (handle_map hs (owner, h))) (filter (\<lambda>h. handle_map hs (owner, h) \<noteq> None) hl)"
      by (auto cong: filter_cong intro!: map_cong)
    have m: "(\<lambda>(o', h'). if o' = owner \<and> h' \<in> set hl then None else handle_map ?hs (o', h')) =
        (\<lambda>(o', h'). if o' = owner \<and> h' \<in> set (h # hl) then None else handle_map hs (o', h'))"
      by (auto simp: fun_eq_iff u(2))
    show ?thesis
      using Cons.IH [OF u(1), of "f ?d s"] Cons.prems Some k d unfolding e m by (simp add: get_entry_eq Let_def)
  qed
qed auto

section \<open>The contract servers rely on\<close>

locale handle_table =
  fixes ok :: "'t \<Rightarrow> bool" and lookup :: "'t \<Rightarrow> task_t \<times> int \<rightharpoonup> 'd option"
    and alloc :: "task_t \<Rightarrow> 't \<Rightarrow> (int \<times> 't) option" and get :: "task_t \<Rightarrow> int \<Rightarrow> 't \<Rightarrow> 'd option option"
    and set_data :: "task_t \<Rightarrow> int \<Rightarrow> 'd option \<Rightarrow> 't \<Rightarrow> 't option" and release :: "task_t \<Rightarrow> int \<Rightarrow> 't \<Rightarrow> 't option"
    and limit :: int
  assumes get_lookup: "0 \<le> h \<Longrightarrow> get ow h t = Some (case lookup t (ow, h) of None \<Rightarrow> None | Some d \<Rightarrow> d)"
    and set_lookup: "ok t \<Longrightarrow> 0 \<le> h \<Longrightarrow> if lookup t (ow, h) = None then set_data ow h d t = None
      else (\<exists>t'. set_data ow h d t = Some t' \<and> ok t' \<and> lookup t' = (lookup t)((ow, h) \<mapsto> d))"
    and release_lookup: "ok t \<Longrightarrow> 0 \<le> h \<Longrightarrow>
      \<exists>t'. release ow h t = Some t' \<and> ok t' \<and> lookup t' = (lookup t)((ow, h) := None)"
    and alloc_lookup: "ok t \<Longrightarrow> \<exists>r t'. alloc ow t = Some (r, t') \<and> ok t' \<and>
      (if \<forall>h \<in> {1..limit}. lookup t (ow, h) \<noteq> None then r < 0 \<and> t' = t
       else 1 \<le> r \<and> r \<le> limit \<and> lookup t (ow, r) = None \<and> lookup t' = (lookup t)((ow, r) \<mapsto> None))"
begin

lemma open_close:
  assumes "ok t" "h \<in> {1..limit}" "lookup t (ow, h) = None"
  shows "\<exists>r t1 t2 t3. alloc ow t = Some (r, t1) \<and> r \<in> {1..limit} \<and> lookup t (ow, r) = None \<and>
    set_data ow r d t1 = Some t2 \<and> get ow r t2 = Some d \<and>
    (\<forall>ow' h'. (ow', h') \<noteq> (ow, r) \<longrightarrow> lookup t2 (ow', h') = lookup t (ow', h')) \<and>
    release ow r t2 = Some t3 \<and> ok t3 \<and> lookup t3 = lookup t"
proof -
  have ne: "\<not> (\<forall>h \<in> {1..limit}. lookup t (ow, h) \<noteq> None)" using assms(2,3) by blast
  obtain r t1 where r: "alloc ow t = Some (r, t1)" "ok t1" "1 \<le> r" "r \<le> limit" "lookup t (ow, r) = None"
    "lookup t1 = (lookup t)((ow, r) \<mapsto> None)"
    using alloc_lookup [OF assms(1), of ow] unfolding if_not_P [OF ne] by blast
  obtain t2 where t2: "set_data ow r d t1 = Some t2" "ok t2" "lookup t2 = (lookup t1)((ow, r) \<mapsto> d)"
    using set_lookup [OF r(2), of r ow d] r(3,6) by auto
  obtain t3 where t3: "release ow r t2 = Some t3" "ok t3" "lookup t3 = (lookup t2)((ow, r) := None)"
    using release_lookup [OF t2(2), of r ow] r(3) by auto
  have "lookup t3 = lookup t" using t3(3) t2(3) r(5,6) by (auto simp: fun_eq_iff)
  moreover have "get ow r t2 = Some d" using get_lookup [of r ow t2] r(3) t2(3) by simp
  moreover have "\<forall>ow' h'. (ow', h') \<noteq> (ow, r) \<longrightarrow> lookup t2 (ow', h') = lookup t (ow', h')"
    using t2(3) r(6) by auto
  moreover have "r \<in> {1..limit}" using r(3,4) by simp
  ultimately show ?thesis using r(1,5) t2(1) t3(1,2) by blast
qed

end

interpretation ht: handle_table handles_ok handle_map handle_alloc handle_get handle_set handle_free HANDLE_MAX
proof (unfold_locales, goal_cases)
  case (4 t ow)
  then show ?case using handle_alloc_map [OF 4, of ow] by (fastforce split: if_splits)
qed (rule handle_get_map handle_set_map handle_free_map; assumption)+

text \<open>
  C25: A task that has a number left gets an unused handle; what is stored under it is what is
  read back; no other handle of any task changes; and freeing it gives back the table as it was.
\<close>

theorem handle_open_close:
  assumes "handles_ok hs" "h \<in> {1..HANDLE_MAX}" "handle_map hs (owner, h) = None"
  shows "\<exists>r hs1 hs2 hs3. handle_alloc owner hs = Some (r, hs1) \<and> r \<in> {1..HANDLE_MAX} \<and>
    handle_map hs (owner, r) = None \<and> handle_set owner r d hs1 = Some hs2 \<and> handle_get owner r hs2 = Some d \<and>
    (\<forall>o' h'. (o', h') \<noteq> (owner, r) \<longrightarrow> handle_map hs2 (o', h') = handle_map hs (o', h')) \<and>
    handle_free owner r hs2 = Some hs3 \<and> handles_ok hs3 \<and> handle_map hs3 = handle_map hs"
  using assms by (rule ht.open_close)

theorem handle_open_close_witness:
  "\<exists>r hs1 hs2. handle_alloc 5 (\<lambda>_. None) = Some (r, hs1) \<and> handle_set 5 r (Some (7 :: nat)) hs1 = Some hs2 \<and>
    handle_get 5 r hs2 = Some (Some 7)"
proof -
  have "handles_ok ((\<lambda>_. None) :: nat handles)" "handle_map ((\<lambda>_. None) :: nat handles) (5, 1) = None"
    by (simp_all add: handles_ok_def handle_map_def the_bucket_def)
  from handle_open_close [OF this(1) _ this(2), of "Some 7"] show ?thesis
    by (auto simp: HANDLE_MAX_def)
qed

text \<open>
  C26: When a task exits, \<open>handle_free_all\<close> frees exactly its handles, in increasing order, after
  calling \<open>before_free\<close> once with the data of each.
\<close>

theorem handle_free_all_owner:
  assumes "handles_ok hs"
  shows "\<exists>hs'. handle_free_all owner before_free (hs, s) =
      Some (hs', fold before_free
        (map (\<lambda>h. the (handle_map hs (owner, h)))
          (filter (\<lambda>h. handle_map hs (owner, h) \<noteq> None) [1..HANDLE_MAX])) s) \<and>
    handles_ok hs' \<and> handle_map hs' = (\<lambda>(o', h). if o' = owner then None else handle_map hs (o', h))"
proof -
  have "handle_map hs (owner, h) = None" if "h \<notin> {1..HANDLE_MAX}" for h
    using handles_okD(1) [OF assms, of _ "bucket_of h"] that by (auto simp: handle_map_bucket find_None_iff)
  then have "(\<lambda>(o', h). if o' = owner \<and> h \<in> set [1..HANDLE_MAX] then None else handle_map hs (o', h)) =
      (\<lambda>(o', h). if o' = owner then None else handle_map hs (o', h))"
    by (auto simp: fun_eq_iff)
  then show ?thesis
    using free_all_loop_map [OF assms, of "[1..HANDLE_MAX]" owner before_free s]
    by (auto simp: handle_free_all_def)
qed

theorem handle_free_all_owner_witness:
  "\<exists>hs'. handle_free_all 5 (\<lambda>d s. d # s) ((\<lambda>_. None)(1 := Some [\<lparr>he_owner = 5, he_handle = 1, he_data = Some 7\<rparr>]), []) =
    Some (hs', [Some (7 :: nat)]) \<and> handle_map hs' (5, 1) = None"
proof -
  let ?hs = "(\<lambda>_. None)(1 := Some [\<lparr>he_owner = 5, he_handle = 1, he_data = Some (7 :: nat)\<rparr>])"
  have ok: "handles_ok ?hs" by (simp add: handles_ok_def the_bucket_def bucket_of_def kconst)
  have m: "handle_map ?hs (5, h) = (if h = 1 then Some (Some 7) else None)" for h
    by (simp add: handle_map_def the_bucket_def bucket_of_def kconst)
  have "filter (\<lambda>h. handle_map ?hs (5, h) \<noteq> None) [1..HANDLE_MAX] = [1]"
    unfolding m HANDLE_MAX_def by (subst upto_rec1) (auto simp: filter_empty_conv)
  then show ?thesis
    using handle_free_all_owner [OF ok, of 5 "\<lambda>d s. d # s" "[]"] m [of 1] by auto
qed

text \<open>
  A negative number that is not a multiple of the number of buckets indexes outside the
  table, in every operation that takes a handle from the caller.
\<close>

theorem negative_handle_faults:
  assumes "handle < 0" "handle mod NUM_BUCKETS \<noteq> 0"
  shows "handle_get owner handle hs = None \<and> handle_set owner handle d hs = None \<and> handle_free owner handle hs = None"
  using assms by (simp add: handle_get_def handle_set_def handle_free_def get_entry_def bucket_index_def)

theorem negative_handle_faults_witness:
  "handle_get 5 (-1) ((\<lambda>_. None) :: nat handles) = None"
  using negative_handle_faults [of "-1" 5 "(\<lambda>_. None) :: nat handles" None] by (simp add: NUM_BUCKETS_def)

end
