(* ===== verification/Async.thy ===== *)
theory Async
  imports Handle
begin

text \<open>
  Asynchronous messages, \<^verbatim>\<open>libs/resea/async.c\<close>: messages wait in the sender's queues, in 32
  buckets by destination, until the destination asks for them. What the library does to other
  tasks is the sequence of its kernel calls: a notification, or a reply that does not block.
  The messages themselves are of any type.
\<close>

section \<open>The code\<close>

record 'm async_message =
  am_dst :: task_t
  am_m :: 'm

datatype 'm async_call = Notify_async task_t | Reply_async task_t 'm

record 'm async =
  as_queues :: "nat \<Rightarrow> 'm async_message list option"
  as_calls :: "'m async_call list"

definition emit :: "'m async_call \<Rightarrow> 'm async \<Rightarrow> 'm async" where
  "emit c s = s\<lparr>as_calls := as_calls s @ [c]\<rparr>"

text \<open>The queue of the bucket, allocated when it is first used; the bucket is chosen as for
  handles.\<close>

definition get_queue :: "task_t \<Rightarrow> 'm async \<Rightarrow> (nat \<times> 'm async_message list \<times> 'm async) option" where
  "get_queue dst s =
     do {
       index \<leftarrow> bucket_index dst;
       case as_queues s index of
         None \<Rightarrow> Some (index, [], s\<lparr>as_queues := (as_queues s)(index := Some [])\<rparr>)
       | Some q \<Rightarrow> Some (index, q, s)
     }"

text \<open>\<open>notify\<close> is what \<^verbatim>\<open>ipc_notify\<close> answers.\<close>

definition async_send :: "(task_t \<Rightarrow> error_t) \<Rightarrow> task_t \<Rightarrow> 'm \<Rightarrow> 'm async \<Rightarrow> (error_t \<times> 'm async) option" where
  "async_send notify dst m s =
     do {
       (index, q, s) \<leftarrow> get_queue dst s;
       let s = s\<lparr>as_queues := (as_queues s)(index := Some (q @ [\<lparr>am_dst = dst, am_m = m\<rparr>]))\<rparr>;
       Some (notify dst, emit (Notify_async dst) s)
     }"

text \<open>The loop of \<open>async_reply\<close> over the queue: the messages it keeps, whether it has sent one,
  and the state with its calls.\<close>

fun reply_loop :: "task_t \<Rightarrow> 'm async_message list \<Rightarrow> bool \<Rightarrow> 'm async \<Rightarrow> 'm async_message list \<times> bool \<times> 'm async" where
  "reply_loop dst [] sent s = ([], sent, s)"
| "reply_loop dst (am # q) sent s =
     (if am_dst am = dst then
        if sent then
          (let (q', sent', s') = reply_loop dst q sent (emit (Notify_async dst) s) in (am # q', sent', s'))
        else reply_loop dst q True (emit (Reply_async dst (am_m am)) s)
      else (let (q', sent', s') = reply_loop dst q sent s in (am # q', sent', s')))"

definition async_reply :: "task_t \<Rightarrow> 'm async \<Rightarrow> (error_t \<times> 'm async) option" where
  "async_reply dst s =
     do {
       (index, q, s) \<leftarrow> get_queue dst s;
       let (q', sent, s) = reply_loop dst q False s;
       Some (if sent then OK else ERR_NOT_FOUND, s\<lparr>as_queues := (as_queues s)(index := Some q')\<rparr>)
     }"

definition async_is_empty :: "task_t \<Rightarrow> 'm async \<Rightarrow> (bool \<times> 'm async) option" where
  "async_is_empty dst s =
     do {
       (index, q, s) \<leftarrow> get_queue dst s;
       Some (\<not> list_ex (\<lambda>am. am_dst am = dst) q, s)
     }"

section \<open>What waits for a task\<close>

definition pending :: "'m async \<Rightarrow> task_t \<Rightarrow> 'm list" where
  "pending s dst =
     map am_m (filter (\<lambda>am. am_dst am = dst)
       (case as_queues s (bucket_of dst) of None \<Rightarrow> [] | Some q \<Rightarrow> q))"

text \<open>Every message is in the bucket of its destination.\<close>

definition async_ok :: "'m async \<Rightarrow> bool" where
  "async_ok s \<longleftrightarrow> (\<forall>i q am. as_queues s i = Some q \<and> am \<in> set q \<longrightarrow> bucket_of (am_dst am) = i)"

lemma get_queue_eq:
  "0 \<le> dst \<Longrightarrow> get_queue dst s =
     Some (bucket_of dst, (case as_queues s (bucket_of dst) of None \<Rightarrow> [] | Some q \<Rightarrow> q),
       (case as_queues s (bucket_of dst) of None \<Rightarrow> s\<lparr>as_queues := (as_queues s)(bucket_of dst := Some [])\<rparr> | Some q \<Rightarrow> s))"
  by (simp add: get_queue_def bucket_index_def split: option.splits)

lemma reply_loop_sent:
  "reply_loop dst q True s =
     (q, True, s\<lparr>as_calls := as_calls s @ replicate (length (filter (\<lambda>am. am_dst am = dst) q)) (Notify_async dst)\<rparr>)"
  by (induction q arbitrary: s) (auto simp: emit_def)

fun remove_first :: "('a \<Rightarrow> bool) \<Rightarrow> 'a list \<Rightarrow> 'a list" where
  "remove_first P [] = []"
| "remove_first P (x # xs) = (if P x then xs else x # remove_first P xs)"

lemma filter_remove_first: "filter P (remove_first P xs) = tl (filter P xs)"
  by (induction xs) auto

lemma filter_remove_first_other:
  "d \<noteq> dst \<Longrightarrow> filter (\<lambda>am. am_dst am = d) (remove_first (\<lambda>am. am_dst am = dst) q) = filter (\<lambda>am. am_dst am = d) q"
  by (induction q) auto

lemma set_remove_first: "set (remove_first P xs) \<subseteq> set xs"
  by (induction xs) auto

lemma reply_loop_eq:
  "reply_loop dst q False s =
     (remove_first (\<lambda>am. am_dst am = dst) q, filter (\<lambda>am. am_dst am = dst) q \<noteq> [],
      s\<lparr>as_calls := as_calls s @ (case filter (\<lambda>am. am_dst am = dst) q of
          [] \<Rightarrow> []
        | am # rest \<Rightarrow> Reply_async dst (am_m am) # replicate (length rest) (Notify_async dst))\<rparr>)"
  by (induction q arbitrary: s) (auto simp: emit_def reply_loop_sent split: list.splits)

text \<open>
  Sending queues the message behind those that already wait for the destination, changes
  nothing for other destinations, and notifies the destination.
\<close>

theorem async_send_queues:
  assumes "async_ok s" "0 \<le> dst"
  shows "\<exists>s'. async_send notify dst m s = Some (notify dst, s') \<and> async_ok s' \<and>
    as_calls s' = as_calls s @ [Notify_async dst] \<and>
    (\<forall>d \<ge> 0. pending s' d = pending s d @ (if d = dst then [m] else []))"
  using assms
  by (auto simp: async_send_def get_queue_eq emit_def async_ok_def pending_def Let_def split: option.splits)

theorem async_send_queues_witness:
  "\<exists>s'. async_send (\<lambda>_. OK) 3 ''m'' \<lparr>as_queues = (\<lambda>_. None), as_calls = []\<rparr> = Some (OK, s') \<and> pending s' 3 = [''m'']"
proof -
  have "async_ok \<lparr>as_queues = (\<lambda>_. None), as_calls = []\<rparr>" by (simp add: async_ok_def)
  from async_send_queues [OF this, of 3 "\<lambda>_. OK" "''m''"] show ?thesis by (auto simp: pending_def)
qed

text \<open>
  C34: A reply hands over the oldest message that waits for the destination and no other, and
  notifies the destination once for every message that still waits, so that it will ask again.
  Without a message it reports \<open>ERR_NOT_FOUND\<close> and does nothing.
\<close>

theorem async_reply_fifo:
  assumes "async_ok s" "0 \<le> dst"
  shows "\<exists>s'. async_ok s' \<and> (\<forall>d \<ge> 0. pending s' d = (if d = dst then tl (pending s d) else pending s d)) \<and>
    (case pending s dst of
       [] \<Rightarrow> async_reply dst s = Some (ERR_NOT_FOUND, s') \<and> as_calls s' = as_calls s
     | m # rest \<Rightarrow> async_reply dst s = Some (OK, s') \<and>
         as_calls s' = as_calls s @ Reply_async dst m # replicate (length rest) (Notify_async dst))"
proof -
  let ?i = "bucket_of dst" and ?P = "\<lambda>am. am_dst am = dst"
  let ?q = "case as_queues s ?i of None \<Rightarrow> [] | Some q \<Rightarrow> q"
  let ?s = "s\<lparr>as_queues := (as_queues s)(?i := Some (remove_first ?P ?q)),
      as_calls := as_calls s @ (case filter ?P ?q of
          [] \<Rightarrow> [] | am # rest \<Rightarrow> Reply_async dst (am_m am) # replicate (length rest) (Notify_async dst))\<rparr>"
  have r: "async_reply dst s = Some (if filter ?P ?q \<noteq> [] then OK else ERR_NOT_FOUND, ?s)"
    using assms(2)
    by (cases "as_queues s ?i") (auto simp: async_reply_def get_queue_eq reply_loop_eq Let_def)
  have "pending ?s d = (if d = dst then tl (pending s d) else pending s d)" for d
    by (auto simp: pending_def filter_remove_first filter_remove_first_other map_tl split: option.splits)
  moreover have "async_ok ?s"
    using assms(1) set_remove_first [of ?P ?q] by (auto simp: async_ok_def split: option.splits if_splits)
  moreover have "pending s dst = map am_m (filter ?P ?q)" by (simp add: pending_def)
  ultimately show ?thesis
    using r by (intro exI [of _ ?s]) (auto split: list.splits)
qed

theorem async_reply_fifo_witness:
  "\<exists>s'. async_reply 3 \<lparr>as_queues = (\<lambda>_. None)(3 := Some [\<lparr>am_dst = 3, am_m = ''a''\<rparr>, \<lparr>am_dst = 3, am_m = ''b''\<rparr>]), as_calls = []\<rparr>
      = Some (OK, s') \<and> as_calls s' = [Reply_async 3 ''a'', Notify_async 3]"
proof -
  let ?s = "\<lparr>as_queues = (\<lambda>_. None)(3 := Some [\<lparr>am_dst = 3, am_m = ''a''\<rparr>, \<lparr>am_dst = 3, am_m = ''b''\<rparr>]), as_calls = []\<rparr>"
  have "async_ok ?s" by (auto simp: async_ok_def bucket_of_def kconst split: if_splits)
  from async_reply_fifo [OF this, of 3] show ?thesis by (auto simp: pending_def bucket_of_def kconst)
qed

end
