(* ===== verification/Cmdline.thy ===== *)
theory Cmdline
  imports C_String
begin












section \<open>Words\<close>









end
