(* ===== verification/Datetime.thy ===== *)
theory Datetime
  imports Prelude
begin

text \<open>
  Conversion between timestamps and calendar dates, \<^verbatim>\<open>libs/resea/datetime.c\<close>. The fields of
  \<^verbatim>\<open>struct datetime\<close> are natural numbers below their width; the operations that can leave the
  width wrap as unsigned arithmetic does. Reading \<^verbatim>\<open>days_in_month\<close> outside its 12 elements is a
  fault. The loop that looks for the year counts days in 32 bits and may not end.
\<close>

section \<open>The code\<close>

record datetime =
  dt_year :: nat
  dt_month :: nat
  dt_day :: nat
  dt_day_of_week :: nat
  dt_hour :: nat
  dt_minute :: nat
  dt_second :: nat

definition is_leap_year :: "nat \<Rightarrow> bool" where
  "is_leap_year year \<longleftrightarrow> year mod 4 = 0 \<and> year mod 100 \<noteq> 0 \<or> year mod 400 = 0"

definition days_in_month :: "nat list" where
  "days_in_month = [31, 28, 31, 30, 31, 30, 31, 31, 30, 31, 30, 31]"

text \<open>The two loops of \<^verbatim>\<open>datetime_to_timestamp\<close>: the first adds a day for every leap year before
  \<open>year\<close>, the second adds the months before \<open>month\<close>.\<close>

fun leap_loop :: "nat \<Rightarrow> nat \<Rightarrow> nat" where
  "leap_loop 0 seconds = seconds"
| "leap_loop (Suc i) seconds =
     leap_loop i seconds + (if is_leap_year (i + 1970) then 86400 else 0)"

fun months_loop :: "nat \<Rightarrow> nat list \<Rightarrow> nat \<Rightarrow> nat option" where
  "months_loop year [] seconds = Some seconds"
| "months_loop year (i # rest) seconds =
     (if is_leap_year (year + 1970) \<and> i = 2 then months_loop year rest (seconds + 86400 * 29)
      else if i - 1 < length days_in_month
      then months_loop year rest (seconds + 86400 * days_in_month ! (i - 1))
      else None)"

text \<open>\<^verbatim>\<open>year * (365 * 86400)\<close> is a 32-bit product. \<^verbatim>\<open>day - 1\<close> is signed.\<close>

definition datetime_to_timestamp :: "datetime \<Rightarrow> nat option" where
  "datetime_to_timestamp dt =
     (let year = (dt_year dt + 2 ^ 32 - 1970) mod 2 ^ 32;
          seconds = leap_loop year (year * (365 * 86400) mod 2 ^ 32)
      in do {
        seconds \<leftarrow> months_loop year [1..<dt_month dt] seconds;
        Some (nat ((int seconds + (int (dt_day dt) - 1) * 86400 + int (dt_hour dt) * 3600
          + int (dt_minute dt) * 60 + int (dt_second dt)) mod 2 ^ 64))
      })"

definition year_length :: "nat \<Rightarrow> nat" where
  "year_length year = (if is_leap_year year then 366 else 365)"

partial_function (option) year_loop :: "nat \<Rightarrow> nat \<Rightarrow> nat \<Rightarrow> (nat \<times> nat) option" where
  "year_loop year day epoch =
     (let day = (day + year_length year) mod 2 ^ 32 in
      if day \<le> epoch then year_loop ((year + 1) mod 2 ^ 32) day epoch else Some (year, day))"

fun month_loop :: "nat \<Rightarrow> nat list \<Rightarrow> nat \<Rightarrow> nat \<Rightarrow> nat \<times> nat" where
  "month_loop year [] month epoch = (month, epoch)"
| "month_loop year (len # rest) month epoch =
     (let month_length = (if is_leap_year year \<and> month = 1 then len + 1 else len) in
      if epoch \<ge> month_length then month_loop year rest (month + 1) (epoch - month_length)
      else (month, epoch))"

definition timestamp_to_datetime :: "nat \<Rightarrow> datetime option" where
  "timestamp_to_datetime epoch0 =
     (let second = epoch0 mod 60; epoch = epoch0 div 60;
          minute = epoch mod 60; epoch = epoch div 60;
          hour = epoch mod 24; epoch = epoch div 24;
          day_of_week = (epoch + 4) mod 7 + 1
      in do {
        (year, day) \<leftarrow> year_loop 1970 0 epoch;
        let day = day - year_length year;
        let (month, rest) = month_loop year days_in_month 0 (epoch - day);
        Some \<lparr>dt_year = year, dt_month = (month + 1) mod 2 ^ 8, dt_day = (rest + 1) mod 2 ^ 8,
              dt_day_of_week = day_of_week, dt_hour = hour, dt_minute = minute, dt_second = second\<rparr>
      })"

section \<open>The calendar\<close>

text \<open>Days before the year \<open>1970 + n\<close>, days of a month, days before a month.\<close>

fun days_before_year :: "nat \<Rightarrow> nat" where
  "days_before_year 0 = 0"
| "days_before_year (Suc n) = days_before_year n + year_length (1970 + n)"

definition month_days :: "nat \<Rightarrow> nat \<Rightarrow> nat" where
  "month_days year m = (if is_leap_year year \<and> m = 1 then days_in_month ! m + 1 else days_in_month ! m)"

definition days_before_month :: "nat \<Rightarrow> nat \<Rightarrow> nat" where
  "days_before_month year m = sum_list (map (month_days year) [0..<m])"

text \<open>The seconds from the epoch to a date, by the calendar.\<close>

definition calendar_seconds :: "datetime \<Rightarrow> nat" where
  "calendar_seconds dt =
     (days_before_year (dt_year dt - 1970) + days_before_month (dt_year dt) (dt_month dt - 1) + (dt_day dt - 1)) * 86400
     + dt_hour dt * 3600 + dt_minute dt * 60 + dt_second dt"

definition valid_date :: "datetime \<Rightarrow> bool" where
  "valid_date dt \<longleftrightarrow> 1970 \<le> dt_year dt \<and> 1 \<le> dt_month dt \<and> dt_month dt \<le> 12 \<and> 1 \<le> dt_day dt \<and>
     dt_day dt \<le> month_days (dt_year dt) (dt_month dt - 1) \<and>
     dt_hour dt < 24 \<and> dt_minute dt < 60 \<and> dt_second dt < 60"

lemma length_days_in_month [simp]: "length days_in_month = 12"
  by (simp add: days_in_month_def)

lemma year_length_bounds: "365 \<le> year_length y" "year_length y \<le> 366"
  by (simp_all add: year_length_def)

lemma days_before_year_mono: "m \<le> n \<Longrightarrow> days_before_year m \<le> days_before_year n"
  by (induction n) (auto simp: le_Suc_eq)

lemma days_before_year_ge: "365 * n \<le> days_before_year n"
proof (induction n)
  case (Suc n)
  then show ?case using year_length_bounds(1) [of "1970 + n"] by simp
qed simp


lemma days_before_year_find: "\<exists>m. days_before_year m \<le> e \<and> e < days_before_year (Suc m)"
proof -
  have "\<exists>m. e < days_before_year m" using days_before_year_ge [of "Suc e"] by (intro exI [of _ "Suc e"]) simp
  define m where "m = (LEAST m. e < days_before_year m)"
  have m: "e < days_before_year m" "\<And>k. k < m \<Longrightarrow> days_before_year k \<le> e"
    unfolding m_def using \<open>\<exists>m. e < days_before_year m\<close> by (auto intro: LeastI_ex dest: not_less_Least)
  then obtain k where "m = Suc k" by (cases m) auto
  then show ?thesis using m by auto
qed

lemma year_loop_eq:
  assumes "n \<le> m" "days_before_year m \<le> e" "e < days_before_year (Suc m)" "e + 366 < 2 ^ 32"
  shows "year_loop (1970 + n) (days_before_year n) e = Some (1970 + m, days_before_year (Suc m))"
  using assms(1)
proof (induction "m - n" arbitrary: n)
  case 0
  then have [simp]: "n = m" by simp
  have "days_before_year (Suc m) < 2 ^ 32"
    using assms year_length_bounds(2) [of "1970 + m"] by simp
  then show ?case using assms(3) by (subst year_loop.simps) (simp add: Let_def)
next
  case (Suc k)
  then have n: "n < m" by simp
  have le: "days_before_year (Suc n) \<le> e"
    using days_before_year_mono [of "Suc n" m] n assms(2) by simp
  moreover have "365 * Suc n \<le> days_before_year (Suc n)" by (rule days_before_year_ge)
  ultimately have "(1970 + n + 1) mod 2 ^ 32 = 1970 + Suc n" using assms(4) by simp
  then have "year_loop (1970 + n) (days_before_year n) e = year_loop (1970 + Suc n) (days_before_year (Suc n)) e"
    using le assms(4) by (subst year_loop.simps) (simp add: Let_def)
  also have "\<dots> = Some (1970 + m, days_before_year (Suc m))" using Suc.hyps n by (intro Suc.hyps(1)) auto
  finally show ?case .
qed

lemma days_before_month_Suc: "days_before_month year (Suc m) = days_before_month year m + month_days year m"
  by (simp add: days_before_month_def)

lemma days_before_month_12: "days_before_month year 12 = year_length year"
  by (simp add: days_before_month_def month_days_def days_in_month_def year_length_def numeral_eq_Suc)


lemma month_loop_eq:
  assumes "m \<le> 12" "days_before_month year m \<le> r" "r < year_length year"
  shows "\<exists>k < 12. month_loop year (drop m days_in_month) m (r - days_before_month year m) = (k, r - days_before_month year k) \<and>
    days_before_month year k \<le> r \<and> r < days_before_month year (Suc k)"
  using assms(1,2)
proof (induction "12 - m" arbitrary: m)
  case 0
  then show ?case using assms(3) days_before_month_12 [of year] by simp
next
  case (Suc n)
  then have m: "m < 12" by simp
  then have d: "drop m days_in_month = days_in_month ! m # drop (Suc m) days_in_month"
    by (simp add: Cons_nth_drop_Suc)
  show ?case
  proof (cases "r < days_before_month year (Suc m)")
    case True
    then show ?thesis
      using d m Suc.prems by (intro exI [of _ m]) (auto simp: Let_def days_before_month_Suc month_days_def)
  next
    case False
    then have "month_loop year (drop m days_in_month) m (r - days_before_month year m) =
        month_loop year (drop (Suc m) days_in_month) (Suc m) (r - days_before_month year (Suc m))"
      using d Suc.prems by (auto simp: Let_def days_before_month_Suc month_days_def)
    then show ?thesis using Suc.hyps(1) [of "Suc m"] Suc.hyps(2) False m by simp
  qed
qed

lemma month_days_bounds: "m < 12 \<Longrightarrow> month_days year m \<le> 31"
proof -
  assume "m < 12"
  then have "days_in_month ! m \<in> set days_in_month" by (intro nth_mem) simp
  then have "days_in_month ! m \<le> 31" by (auto simp: days_in_month_def)
  moreover have "days_in_month ! 1 = 28" by (simp add: days_in_month_def)
  ultimately show ?thesis by (auto simp: month_days_def)
qed

lemma leap_loop_eq: "leap_loop n s = s + days_before_year n * 86400 - n * (365 * 86400)"
proof -
  have "leap_loop n s + n * (365 * 86400) = s + days_before_year n * 86400"
    by (induction n) (simp_all add: year_length_def algebra_simps)
  then show ?thesis by simp
qed


section \<open>The conversions\<close>

lemma timestamp_to_datetime_eq:
  assumes "t div 86400 + 366 < 2 ^ 32"
  shows "\<exists>dt. timestamp_to_datetime t = Some dt \<and> valid_date dt \<and> calendar_seconds dt = t \<and>
    days_before_year (dt_year dt - 1970) \<le> t div 86400 \<and> dt_year dt < 2 ^ 32"
proof -
  let ?e = "t div 86400"
  have e: "t div 60 div 60 div 24 = ?e" by (simp add: div_mult2_eq [symmetric])
  obtain n where n: "days_before_year n \<le> ?e" "?e < days_before_year (Suc n)"
    using days_before_year_find by blast
  let ?y = "1970 + n" and ?r = "?e - days_before_year n"
  have y: "year_loop 1970 0 ?e = Some (?y, days_before_year (Suc n))"
    using year_loop_eq [of 0 n ?e] n assms by simp
  have "?r < year_length ?y" using n by simp
  then obtain k where k: "k < 12" "month_loop ?y days_in_month 0 ?r = (k, ?r - days_before_month ?y k)"
    "days_before_month ?y k \<le> ?r" "?r < days_before_month ?y (Suc k)"
    using month_loop_eq [of 0 ?y ?r] by (auto simp: days_before_month_def)
  have d: "?r - days_before_month ?y k < month_days ?y k" using k by (simp add: days_before_month_Suc)
  then have d31: "?r - days_before_month ?y k < 31" using month_days_bounds [OF k(1), of ?y] by linarith
  let ?dt = "\<lparr>dt_year = ?y, dt_month = k + 1, dt_day = ?r - days_before_month ?y k + 1,
    dt_day_of_week = (?e + 4) mod 7 + 1, dt_hour = t div 60 div 60 mod 24, dt_minute = t div 60 mod 60, dt_second = t mod 60\<rparr>"
  have "timestamp_to_datetime t = Some ?dt"
    using y k(1,2) d31 e by (simp add: timestamp_to_datetime_def Let_def)
  moreover have "valid_date ?dt" using k(1) d by (simp add: valid_date_def)
  moreover have "calendar_seconds ?dt = t"
  proof -
    have "calendar_seconds ?dt = ?e * 86400 + (t div 60 div 60 mod 24) * 3600 + (t div 60 mod 60) * 60 + t mod 60"
      using n(1) k(3) by (simp add: calendar_seconds_def)
    also have "\<dots> = t"
      unfolding e [symmetric]
      using div_mult_mod_eq [of t 60] div_mult_mod_eq [of "t div 60" 60] div_mult_mod_eq [of "t div 60 div 60" 24]
      by linarith
    finally show ?thesis .
  qed
  moreover have "?y < 2 ^ 32" using days_before_year_ge [of n] n(1) assms by simp
  ultimately show ?thesis using n(1) by auto
qed



text \<open>
  C28: \<open>timestamp_to_datetime\<close> ends for every timestamp whose number of days (plus a year) fits in
  32 bits, and gives the valid date that lies that many seconds after the epoch by the
  Gregorian calendar.
\<close>

theorem timestamp_to_datetime_correct:
  assumes "t div 86400 + 366 < 2 ^ 32"
  shows "\<exists>dt. timestamp_to_datetime t = Some dt \<and> valid_date dt \<and> calendar_seconds dt = t"
  using timestamp_to_datetime_eq [OF assms] by blast

theorem timestamp_to_datetime_correct_witness:
  "\<exists>dt. timestamp_to_datetime 1605866400 = Some dt \<and> valid_date dt \<and> calendar_seconds dt = 1605866400"
  using timestamp_to_datetime_correct [of 1605866400] by simp

lemma days_before_numeral:
  "days_before_year (numeral k) = days_before_year (pred_numeral k) + year_length (1970 + pred_numeral k)"
  by (simp add: numeral_eq_Suc)

lemma days_before_2107: "days_before_year 137 = 50038"
  by (simp add: days_before_numeral year_length_def is_leap_year_def)



text \<open>
  From 2107 on the 32-bit product of the years wraps: the first second of 2107 is converted
  to a timestamp that is \<open>2\<^sup>3\<^sup>2\<close> seconds too small.
\<close>

theorem datetime_to_timestamp_2107:
  "datetime_to_timestamp \<lparr>dt_year = 2107, dt_month = 1, dt_day = 1, dt_day_of_week = 7, dt_hour = 0, dt_minute = 0, dt_second = 0\<rparr>
    = Some (50038 * 86400 - 2 ^ 32)"
proof -
  have "leap_loop 137 (137 * (365 * 86400) mod 2 ^ 32) = 50038 * 86400 - 2 ^ 32"
    unfolding leap_loop_eq days_before_2107 by simp
  then show ?thesis by (simp add: datetime_to_timestamp_def Let_def)
qed

end
