(* ===== verification/Vprintf.thy ===== *)
theory Vprintf
  imports C_String
begin

text \<open>
  Formatted output, symbol lookup and error names, \<^verbatim>\<open>libs/common/vprintf.c\<close>.

  \<^verbatim>\<open>vprintf_with_context\<close> passes the characters one by one to \<^verbatim>\<open>ctx->printchar\<close>, which has no
  influence on it, so its model yields the characters in order and the contexts fold over
  them. The format is the list of bytes from \<^verbatim>\<open>fmt\<close> to the end of its object. An argument is
  tagged with the type it was passed with; \<^verbatim>\<open>va_arg\<close> with another type is undefined, hence a
  fault.
\<close>

abbreviation ch :: "char \<Rightarrow> u8" where
  "ch \<equiv> of_char"

abbreviation str :: "string \<Rightarrow> u8 list" where
  "str \<equiv> map of_char"

section \<open>Numbers\<close>

definition digits :: "u8 list" where
  "digits = str ''0123456789abcdef''"

text \<open>The loop that fills \<^verbatim>\<open>tmp\<close> from the right: it yields the digits, \<^verbatim>\<open>width\<close> and \<^verbatim>\<open>i\<close> at its
  end. \<^verbatim>\<open>n\<close> is at most 64 bits wide; the loop also ends when \<^verbatim>\<open>i\<close> reaches 0.\<close>

function digit_loop :: "nat \<Rightarrow> nat \<Rightarrow> nat \<Rightarrow> int \<Rightarrow> u8 list \<Rightarrow> u8 list \<times> int" where
  "digit_loop n base i width tmp =
     (let tmp = digits ! (n mod base) # tmp; n = n div base; width = width - 1; i = i - 1 in
      if n > 0 \<and> i > 0 then digit_loop n base i width tmp else (tmp, width))"
  by pat_completeness auto
termination
  by (relation "measure (\<lambda>(n, base, i, width, tmp). i)") auto

definition print_uint :: "u64 \<Rightarrow> nat \<Rightarrow> u8 \<Rightarrow> int \<Rightarrow> u8 list" where
  "print_uint n base pad width =
     (let (tmp, width) = digit_loop (unat n) base 30 width [] in replicate (nat width) pad @ tmp)"

section \<open>Formats\<close>

datatype varg = Int_arg u32 | Long_arg u64 | Ptr_arg u64 | Str_arg "cbuf option"

fun va_int :: "varg list \<Rightarrow> (u32 \<times> varg list) option" where
  "va_int (Int_arg n # args) = Some (n, args)"
| "va_int _ = None"

fun va_long :: "varg list \<Rightarrow> (u64 \<times> varg list) option" where
  "va_long (Long_arg n # args) = Some (n, args)"
| "va_long _ = None"

fun va_ptr :: "varg list \<Rightarrow> (u64 \<times> varg list) option" where
  "va_ptr (Ptr_arg n # args) = Some (n, args)"
| "va_ptr _ = None"

fun va_str :: "varg list \<Rightarrow> (cbuf option \<times> varg list) option" where
  "va_str (Str_arg s # args) = Some (s, args)"
| "va_str _ = None"

text \<open>\<^verbatim>\<open>puts\<close>: the characters up to the terminator.\<close>

fun puts :: "cbuf \<Rightarrow> u8 list option" where
  "puts [] = None"
| "puts (c # s) = (if c \<noteq> 0 then map_option (Cons c) (puts s) else Some [])"

text \<open>The attribute characters after \<^verbatim>\<open>%\<close>. \<^verbatim>\<open>#\<close> has no effect.\<close>

fun attrs :: "cbuf \<Rightarrow> int \<Rightarrow> u8 \<Rightarrow> (cbuf \<times> int \<times> u8) option" where
  "attrs [] num_len pad = None"
| "attrs (c # s) num_len pad =
     (if c = 0 then Some (c # s, num_len, pad)
      else if c = ch CHR ''l'' then attrs s (num_len + 1) pad
      else if c = ch CHR ''h'' then attrs s (num_len - 1) pad
      else if c = ch CHR ''0'' then attrs s num_len (ch CHR ''0'')
      else if c = ch CHR ''#'' then attrs s num_len pad
      else Some (c # s, num_len, pad))"

definition width_of :: "cbuf \<Rightarrow> (int \<times> cbuf) option" where
  "width_of s =
     (case s of
        [] \<Rightarrow> None
      | c # rest \<Rightarrow>
          if sint (ch CHR ''1'') \<le> sint c \<and> sint c \<le> sint (ch CHR ''9'')
          then Some (sint c - sint (ch CHR ''0''), rest) else Some (0, s))"

text \<open>What a conversion does: it stops the output, or continues with the rest of the format and
  of the arguments.\<close>

datatype conv = Stop "u8 list" | Go "u8 list" cbuf "varg list"

definition print_ipv4 :: "u32 \<Rightarrow> u8 list" where
  "print_ipv4 a =
     print_uint (ucast (drop_bit 24 a AND 0xff)) 10 (ch CHR '' '') 0 @ str ''.'' @
     print_uint (ucast (drop_bit 16 a AND 0xff)) 10 (ch CHR '' '') 0 @ str ''.'' @
     print_uint (ucast (drop_bit 8 a AND 0xff)) 10 (ch CHR '' '') 0 @ str ''.'' @
     print_uint (ucast (a AND 0xff)) 10 (ch CHR '' '') 0"

definition conv_pointer :: "cbuf \<Rightarrow> varg list \<Rightarrow> conv option" where
  "conv_pointer s args =
     (case s of
        [] \<Rightarrow> None
      | c # rest \<Rightarrow>
          if c = ch CHR ''I'' then
            (case rest of
               [] \<Rightarrow> None
             | c2 # rest2 \<Rightarrow>
                 if c2 = ch CHR ''4''
                 then do { (a, args) \<leftarrow> va_int args; Some (Go (print_ipv4 a) rest2 args) }
                 else Some (Go (str ''%pI'' @ [c2]) rest2 args))
          else do {
            (n, args) \<leftarrow> va_ptr args;
            Some (Go (print_uint n 16 (ch CHR ''0'') 16) s args)
          })"

definition conv_spec :: "u8 \<Rightarrow> int \<Rightarrow> u8 \<Rightarrow> int \<Rightarrow> cbuf \<Rightarrow> varg list \<Rightarrow> conv option" where
  "conv_spec c num_len pad width s args =
     (if c = ch CHR ''d'' then
        do {
          (n, args) \<leftarrow> (if num_len = 3 then va_long args
                       else map_option (\<lambda>(n, args). (scast n, args)) (va_int args));
          Some (if sint n < 0 then Go (str ''-'' @ print_uint (- n) 10 pad width) s args
                else Go (print_uint n 10 pad width) s args)
        }
      else if c = ch CHR ''p'' then conv_pointer s args
      else if c = ch CHR ''x'' \<or> c = ch CHR ''u'' then
        do {
          (n, args) \<leftarrow> (if num_len = 3 then va_long args
                       else map_option (\<lambda>(n, args). (ucast n, args)) (va_int args));
          Some (Go (print_uint n (if c = ch CHR ''x'' then 16 else 10) pad width) s args)
        }
      else if c = ch CHR ''c'' then
        do { (n, args) \<leftarrow> va_int args; Some (Go [ucast n] s args) }
      else if c = ch CHR ''s'' then
        do {
          (p, args) \<leftarrow> va_str args;
          out \<leftarrow> (case p of None \<Rightarrow> Some (str ''(null)'') | Some p \<Rightarrow> puts p);
          Some (Go out s args)
        }
      else if c = ch CHR ''%'' then Some (Go (str ''%'') s args)
      else Some (Stop (str ''<invalid format>'')))"

lemma attrs_length: "attrs s num_len pad = Some (s', num_len', pad') \<Longrightarrow> length s' \<le> length s"
  by (induction s num_len pad rule: attrs.induct) (auto split: if_splits)

lemma width_of_length: "width_of s = Some (width, s') \<Longrightarrow> length s' \<le> length s"
  by (auto simp: width_of_def split: list.splits if_splits)

lemma conv_spec_length: "conv_spec c num_len pad width s args = Some (Go out s' args') \<Longrightarrow> length s' \<le> length s"
  by (auto simp: conv_spec_def conv_pointer_def bind_Some_eq split: if_splits list.splits option.splits)

function vprintf_with_context :: "cbuf \<Rightarrow> varg list \<Rightarrow> u8 list option" where
  "vprintf_with_context fmt args =
     (case fmt of
        [] \<Rightarrow> None
      | c # s \<Rightarrow>
          if c = 0 then Some []
          else if c \<noteq> ch CHR ''%'' then map_option (Cons c) (vprintf_with_context s args)
          else (case attrs s 1 (ch CHR '' '') of
              None \<Rightarrow> None
            | Some (s1, num_len, pad) \<Rightarrow>
                (case width_of s1 of
                   None \<Rightarrow> None
                 | Some (width, s2) \<Rightarrow>
                     (case s2 of
                        [] \<Rightarrow> None
                      | d # s3 \<Rightarrow>
                          (case conv_spec d num_len pad width s3 args of
                             None \<Rightarrow> None
                           | Some (Stop out) \<Rightarrow> Some out
                           | Some (Go out s4 args4) \<Rightarrow>
                               map_option (append out) (vprintf_with_context s4 args4))))))"
  by pat_completeness auto
termination
proof (relation "measure (\<lambda>(fmt, args). length fmt)", goal_cases)
  case (3 fmt args c s x xa y num_len pad xb width s2 d s3 out s4 args4)
  then show ?case
    using attrs_length width_of_length conv_spec_length by fastforce
qed auto

section \<open>Contexts\<close>

text \<open>\<^verbatim>\<open>snprintf_printchar\<close> on the buffer and the index, and \<^verbatim>\<open>vsnprintf\<close>, whose result is the index.\<close>

definition snprintf_printchar :: "nat \<Rightarrow> u8 \<Rightarrow> cbuf \<times> nat \<Rightarrow> cbuf \<times> nat" where
  "snprintf_printchar sz c ctx =
     (case ctx of (buf, index) \<Rightarrow> if index = sz then (buf, index) else (buf[index := c], index + 1))"

definition vsnprintf :: "cbuf \<Rightarrow> nat \<Rightarrow> cbuf \<Rightarrow> varg list \<Rightarrow> (nat \<times> cbuf) option" where
  "vsnprintf buf sz fmt args =
     (if sz = 0 then Some (0, buf)
      else do {
        out \<leftarrow> vprintf_with_context fmt args;
        let (buf, index) = fold (snprintf_printchar sz) out (buf, 0);
        Some (index, buf[sz - 1 := 0])
      })"

section \<open>Symbols\<close>

text \<open>The binary search of \<^verbatim>\<open>find_symbol\<close> over the addresses of the symbol table; \<open>None\<close> is the
  null pointer.\<close>

function symbol_loop :: "nat list \<Rightarrow> nat \<Rightarrow> int \<Rightarrow> int \<Rightarrow> int" where
  "symbol_loop addrs vaddr l r =
     (if r - l > 1 then
        let mid = (l + r) div 2 in
        if vaddr \<ge> addrs ! nat mid then symbol_loop addrs vaddr mid r
        else symbol_loop addrs vaddr l mid
      else l)"
  by pat_completeness auto
termination
  by (relation "measure (\<lambda>(addrs, vaddr, l, r). nat (r - l))") auto

definition find_symbol :: "nat list \<Rightarrow> nat \<Rightarrow> nat option" where
  "find_symbol addrs vaddr =
     (let l = symbol_loop addrs vaddr (-1) (int (length addrs)) in if l < 0 then None else Some (nat l))"

section \<open>Error names\<close>

text \<open>The array has a null pointer where no name is given.\<close>

definition error_names :: "string option list" where
  "error_names =
     [Some ''OK'', Some ''No Memory'', Some ''Not Permitted'', Some ''Would Block'', Some ''Aborted'',
      Some ''Too Large'', Some ''Too Small'', Some ''Not Found'', Some ''Invalid Arg'',
      Some ''Invalid Task ID'', Some ''Already Exists'', Some ''Unavailable'', Some ''Not Acceptable'',
      Some ''Empty'', None, Some ''In Use'', Some ''Try Again'']"

definition err2str :: "int \<Rightarrow> string option option" where
  "err2str err =
     (if err < err_code ERR_END \<or> err > 0 then Some (Some ''INVALID_ERR_CODE'')
      else if nat (- err) < length error_names then Some (error_names ! nat (- err)) else None)"

declare digit_loop.simps [simp del] vprintf_with_context.simps [simp del] symbol_loop.simps [simp del]

section \<open>Printing numbers\<close>

text \<open>The digits of a number, and the number a sequence of digits denotes.\<close>

function digits_of :: "nat \<Rightarrow> nat \<Rightarrow> nat list" where
  "digits_of base n = (if n < base \<or> base < 2 then [n] else digits_of base (n div base) @ [n mod base])"
  by pat_completeness auto
termination
  by (relation "measure snd") (auto intro: div_less_dividend)

declare digits_of.simps [simp del]

definition number_of :: "nat \<Rightarrow> nat list \<Rightarrow> nat" where
  "number_of base ds = foldl (\<lambda>n d. n * base + d) 0 ds"

lemma number_of_digits_of: "number_of base (digits_of base n) = n"
proof (induction base n rule: digits_of.induct)
  case (1 base n)
  then show ?case by (subst digits_of.simps) (simp add: number_of_def)
qed

lemma digits_of_less: "2 \<le> base \<Longrightarrow> d \<in> set (digits_of base n) \<Longrightarrow> d < base"
proof (induction base n rule: digits_of.induct)
  case (1 base n)
  then show ?case by (subst (asm) (2) digits_of.simps) (auto split: if_splits)
qed

lemma length_digits_of: "2 \<le> base \<Longrightarrow> 0 < k \<Longrightarrow> n < base ^ k \<Longrightarrow> length (digits_of base n) \<le> k"
proof (induction k arbitrary: n)
  case (Suc k)
  show ?case
  proof (cases "n < base")
    case False
    then have "0 < k" using Suc.prems by (cases k) auto
    moreover have "n div base < base ^ k" using Suc.prems by (simp add: less_mult_imp_div_less mult.commute)
    ultimately show ?thesis using Suc.IH [of "n div base"] Suc.prems False by (subst digits_of.simps) simp
  qed (subst digits_of.simps, simp)
qed simp

lemma digits_of_nonempty: "0 < length (digits_of base n)"
  by (subst digits_of.simps) simp

lemma hd_digits_of: "2 \<le> base \<Longrightarrow> 0 < n \<Longrightarrow> 0 < hd (digits_of base n)"
proof (induction base n rule: digits_of.induct)
  case (1 base n)
  then show ?case
    using digits_of_nonempty [of base "n div base"]
    by (subst digits_of.simps) (auto simp: hd_append div_greater_zero_iff)
qed

lemma digit_loop_eq:
  assumes "2 \<le> base" "length (digits_of base n) \<le> i"
  shows "digit_loop n base i w tmp =
    (map ((!) digits) (digits_of base n) @ tmp, w - int (length (digits_of base n)))"
  using assms
proof (induction n base i w tmp rule: digit_loop.induct)
  case (1 n base i w tmp)
  show ?case
  proof (cases "n < base")
    case True
    then show ?thesis by (subst digit_loop.simps, subst (1 2) digits_of.simps) simp
  next
    case False
    then have d: "digits_of base n = digits_of base (n div base) @ [n mod base]"
      using 1 by (subst digits_of.simps) simp
    have "0 < n div base" using False 1 by (simp add: div_greater_zero_iff)
    moreover have "length (digits_of base (n div base)) \<le> i - 1" "0 < i - 1"
      using 1(3) digits_of_nonempty [of base "n div base"] unfolding d length_append
      by (simp_all del: length_greater_0_conv)
    ultimately have "digit_loop (n div base) base (i - 1) (w - 1) (digits ! (n mod base) # tmp) =
        (map ((!) digits) (digits_of base (n div base)) @ digits ! (n mod base) # tmp,
         w - 1 - int (length (digits_of base (n div base))))"
      using 1(1) [OF refl refl refl refl] 1(2) by simp
    then show ?thesis
      using \<open>0 < n div base\<close> \<open>0 < i - 1\<close> by (subst digit_loop.simps) (simp add: Let_def d)
  qed
qed

text \<open>
  C29: A number is printed by its digits without leading zeros, after as many padding characters
  as the width asks for: reading the digits back gives the number, for every base from 5 to 16
  (30 digits fit the buffer of \<open>print_uint\<close>).
\<close>

theorem print_uint_digits:
  assumes "5 \<le> base" "base \<le> 16"
  shows "\<exists>ds. print_uint n base pad width = replicate (nat width - length ds) pad @ map ((!) digits) ds \<and>
    number_of base ds = unat n \<and> ds \<noteq> [] \<and> (\<forall>d \<in> set ds. d < base) \<and> (n \<noteq> 0 \<longrightarrow> hd ds \<noteq> 0)"
proof -
  let ?ds = "digits_of base (unat n)"
  have "unat n < 5 ^ 30" by (rule order_less_le_trans [OF unsigned_less]) simp
  also have "5 ^ 30 \<le> base ^ 30" using assms(1) by (intro power_mono) auto
  finally have "length ?ds \<le> 30" using assms by (intro length_digits_of) auto
  then have "print_uint n base pad width = replicate (nat width - length ?ds) pad @ map ((!) digits) ?ds"
    using assms digit_loop_eq [of base "unat n" 30 width "[]"] by (simp add: print_uint_def nat_diff_distrib')
  moreover have "n \<noteq> 0 \<longrightarrow> hd ?ds \<noteq> 0"
    using hd_digits_of [of base "unat n"] assms by (simp add: unat_gt_0)
  ultimately show ?thesis
    using number_of_digits_of [of base "unat n"] digits_of_less [of base _ "unat n"] assms
      digits_of_nonempty [of base "unat n"] by (intro exI [of _ ?ds]) auto
qed

theorem print_uint_digits_witness:
  "\<exists>ds. print_uint 255 16 (ch CHR ''0'') 4 = replicate (4 - length ds) (ch CHR ''0'') @ map ((!) digits) ds \<and>
    number_of 16 ds = 255"
  using print_uint_digits [of 16 255 "ch CHR ''0''" 4] by auto

section \<open>Printing to a buffer\<close>

lemma fold_snprintf:
  assumes "i \<le> sz" "sz \<le> length buf"
  shows "fold (snprintf_printchar sz) out (buf, i) =
    (take i buf @ take (sz - i) out @ drop (i + min (sz - i) (length out)) buf, min sz (i + length out))"
  using assms
proof (induction out arbitrary: buf i)
  case (Cons c out)
  show ?case
  proof (cases "i = sz")
    case True
    then show ?thesis using Cons.IH [of i buf] Cons.prems by (simp add: snprintf_printchar_def)
  next
    case False
    then have "sz - i = Suc (sz - Suc i)" using Cons.prems by simp
    then show ?thesis
      using Cons.IH [of "Suc i" "buf[i := c]"] Cons.prems False
      by (simp add: snprintf_printchar_def take_Suc_conv_app_nth)
  qed
qed simp

text \<open>
  C30: \<open>vsnprintf\<close> stays inside the buffer. With room for at least one character it writes the
  output truncated to the size, replaces the last byte of the buffer by the terminator, leaves
  every byte after the output (and every byte after the size) unchanged, and returns the
  number of characters it stored.
\<close>

theorem vsnprintf_bounded:
  assumes "0 < sz" "sz \<le> length buf" "vprintf_with_context fmt args = Some out"
  shows "vsnprintf buf sz fmt args =
    Some (min sz (length out), (take sz out @ drop (min sz (length out)) buf)[sz - 1 := 0])"
  using assms fold_snprintf [of 0 sz buf out] by (simp add: vsnprintf_def)

lemma demo_format: "vprintf_with_context (str ''100%%'' @ [0]) [] = Some (str ''100%'')"
  by (simp add: vprintf_with_context.simps width_of_def conv_spec_def)

theorem vsnprintf_bounded_witness:
  "vsnprintf (replicate 8 0x41) 4 (str ''100%%'' @ [0]) [] = Some (4, str ''100'' @ [0, 0x41, 0x41, 0x41, 0x41])"
  using vsnprintf_bounded [of 4 "replicate 8 0x41" "str ''100%%'' @ [0]" "[]" "str ''100%''"]
    demo_format by (simp add: eval_nat_numeral)

text \<open>
  Output shorter than the buffer is not terminated: the bytes between its end and the last
  byte of the buffer keep their old contents.
\<close>

theorem vsnprintf_unterminated:
  "vsnprintf (replicate 6 0x41) 6 (str ''hi'' @ [0]) [] = Some (2, str ''hiAAA'' @ [0])"
proof -
  have "vprintf_with_context (str ''hi'' @ [0]) [] = Some (str ''hi'')"
    by (simp add: vprintf_with_context.simps)
  then show ?thesis
    using fold_snprintf [of 0 6 "replicate 6 0x41" "str ''hi''"] by (simp add: vsnprintf_def eval_nat_numeral)
qed

section \<open>Looking up symbols and errors\<close>

lemma symbol_loop_spec:
  assumes "sorted addrs" "-1 \<le> l" "l < r" "r \<le> int (length addrs)"
    and "0 \<le> l \<Longrightarrow> addrs ! nat l \<le> vaddr" "r < int (length addrs) \<Longrightarrow> vaddr < addrs ! nat r"
  defines "k \<equiv> symbol_loop addrs vaddr l r"
  shows "-1 \<le> k \<and> k < int (length addrs) \<and> (0 \<le> k \<longrightarrow> addrs ! nat k \<le> vaddr) \<and>
    (k + 1 < int (length addrs) \<longrightarrow> vaddr < addrs ! nat (k + 1))"
  using assms(1-6) unfolding k_def
proof (induction addrs vaddr l r rule: symbol_loop.induct)
  case (1 addrs vaddr l r)
  let ?mid = "(l + r) div 2"
  show ?case
  proof (cases "r - l > 1")
    case True
    then have mid: "l < ?mid" "?mid < r" "0 \<le> ?mid" using 1(4,5) by auto
    show ?thesis
    proof (cases "vaddr \<ge> addrs ! nat ?mid")
      case t: True
      then have e: "symbol_loop addrs vaddr l r = symbol_loop addrs vaddr ?mid r"
        using True by (subst symbol_loop.simps) (simp add: Let_def)
      show ?thesis unfolding e by (rule 1(1) [OF True refl t 1(3)]) (use 1(4-8) mid t in auto)
    next
      case f: False
      then have e: "symbol_loop addrs vaddr l r = symbol_loop addrs vaddr l ?mid"
        using True by (subst symbol_loop.simps) (simp add: Let_def)
      show ?thesis unfolding e by (rule 1(2) [OF True refl f 1(3)]) (use 1(4-8) mid f in auto)
    qed
  next
    case False
    then have r: "r = l + 1" using 1(5) by simp
    have e: "symbol_loop addrs vaddr l r = l" using False by (subst symbol_loop.simps) simp
    show ?thesis unfolding e using 1(3-8) r by auto
  qed
qed

text \<open>
  C31: In a sorted symbol table, \<open>find_symbol\<close> finds the last symbol that does not start after the
  address, and none exactly when every symbol does.
\<close>

theorem find_symbol_last:
  assumes "sorted addrs"
  shows "case find_symbol addrs vaddr of
      None \<Rightarrow> \<forall>i < length addrs. vaddr < addrs ! i
    | Some k \<Rightarrow> k < length addrs \<and> addrs ! k \<le> vaddr \<and> (\<forall>i. k < i \<and> i < length addrs \<longrightarrow> vaddr < addrs ! i)"
proof -
  define k where "k = symbol_loop addrs vaddr (-1) (int (length addrs))"
  have k: "-1 \<le> k" "k < int (length addrs)" "0 \<le> k \<longrightarrow> addrs ! nat k \<le> vaddr"
    "k + 1 < int (length addrs) \<longrightarrow> vaddr < addrs ! nat (k + 1)"
    using symbol_loop_spec [OF assms, of "-1" "int (length addrs)" vaddr] by (auto simp: k_def)
  have after: "vaddr < addrs ! i" if "k < int i" "i < length addrs" for i
  proof -
    have "nat (k + 1) \<le> i" "k + 1 < int (length addrs)" using that k(1) by auto
    then show ?thesis using k(4) sorted_nth_mono [OF assms, of "nat (k + 1)" i] that(2) by auto
  qed
  show ?thesis
  proof (cases "k < 0")
    case True
    then show ?thesis using after k_def by (auto simp: find_symbol_def Let_def)
  next
    case False
    then have "find_symbol addrs vaddr = Some (nat k)" using k_def by (simp add: find_symbol_def Let_def)
    then show ?thesis using k False after by auto
  qed
qed

theorem find_symbol_last_witness:
  "sorted [0x1000, 0x1040, 0x2000 :: nat] \<and> find_symbol [0x1000, 0x1040, 0x2000] 0x1050 = Some 1"
  using find_symbol_last [of "[0x1000, 0x1040, 0x2000]" "0x1050"]
  by (simp add: find_symbol_def symbol_loop.simps Let_def)

text \<open>
  \<open>err2str\<close> returns a name for exactly the error values other than \<open>DONT_REPLY\<close>, for which
  it returns a null pointer, and \<open>ERR_END\<close>, which passes its range check but lies outside the
  array of names.
\<close>

theorem err2str_names:
  "((\<exists>name. err2str (err_code e) = Some (Some name)) \<longleftrightarrow> e \<notin> {DONT_REPLY, ERR_END}) \<and>
   (err2str (err_code e) = None \<longleftrightarrow> e = ERR_END)"
proof -
  have l: "length error_names = 17" by (simp add: error_names_def)
  show ?thesis
    by (cases e) (simp_all add: err2str_def l, simp_all add: error_names_def)
qed

end
