(* ===== verification/Vm_State.thy ===== *)
theory Vm_State
  imports C_String
begin

text \<open>
  The state of the memory and task server, \<^verbatim>\<open>servers/vm\<close>, and its system interface.

  Addresses and sizes are natural numbers; computations the code makes in 64 bits and that can
  overflow are reduced modulo \<open>2\<^sup>6\<^sup>4\<close>. A task pointer is the task's number. What the server asks
  of the kernel and sends to other tasks is the sequence \<open>v_calls\<close>; the error values the
  kernel answers with are a function \<open>env\<close> of the calls made so far, an argument of every
  definition that depends on them, so that every theorem holds for every kernel behaviour its
  hypotheses admit.

  The memory the server can reach is \<open>v_own\<close>, its own data by virtual address, except for the
  pages it has mapped itself (\<open>v_window\<close>, from the address of a page to the physical page),
  behind which is the physical memory \<open>v_mem\<close>.
\<close>

definition PGSIZE :: nat where
  [kconst]: "PGSIZE = 4096"

definition NUM_TASKS :: nat where
  [kconst]: "NUM_TASKS = 64"

definition VM_TASK :: nat where
  [kconst]: "VM_TASK = 1"

text \<open>Addresses the linker scripts define.\<close>

record vm_layout =
  l_cmdline :: nat
  l_zeroed_pages :: nat
  l_zeroed_pages_end :: nat
  l_straight_mapping :: nat
  l_free_vaddr :: nat
  l_free_vaddr_end :: nat
  l_src_page :: nat
  l_dst_page :: nat

text \<open>\<^verbatim>\<open>struct page_area\<close>, \<^verbatim>\<open>struct bootfs_file\<close>, \<^verbatim>\<open>struct available_ram_region\<close>, \<^verbatim>\<open>struct shm\<close>,
  \<^verbatim>\<open>struct service\<close>\<close>

record page_area =
  pa_vaddr :: nat
  pa_paddr :: nat
  pa_num_pages :: nat

record bootfs_file =
  bf_name :: cbuf
  bf_offset :: nat
  bf_len :: nat

record ram_region =
  rr_base :: nat
  rr_num_pages :: nat

record shm =
  sm_inuse :: bool
  sm_shm_id :: int
  sm_paddr :: nat
  sm_len :: nat

record service =
  sv_name :: cbuf
  sv_task :: nat

text \<open>The messages of the server's interface, by their fields; strings arrive as out-of-line
  payloads in the server's own memory.\<close>

datatype vm_msg =
    NOTIFICATIONS_MSG u8
  | ASYNC_MSG
  | OOL_RECV_MSG nat nat
  | OOL_RECV_REPLY_MSG
  | OOL_VERIFY_MSG nat nat nat
  | OOL_VERIFY_REPLY_MSG nat
  | OOL_SEND_MSG nat nat nat
  | OOL_SEND_REPLY_MSG nat
  | BENCHMARK_NOP_MSG u32
  | BENCHMARK_NOP_REPLY_MSG u32
  | BENCHMARK_NOP_WITH_OOL_MSG
  | BENCHMARK_NOP_WITH_OOL_REPLY_MSG cbuf nat
  | EXCEPTION_MSG nat nat
  | PAGE_FAULT_MSG nat nat nat u32
  | PAGE_FAULT_REPLY_MSG
  | DISCOVERY_SERVE_MSG cbuf
  | DISCOVERY_SERVE_REPLY_MSG
  | DISCOVERY_LOOKUP_MSG cbuf
  | DISCOVERY_LOOKUP_REPLY_MSG nat
  | VM_ALLOC_PAGES_MSG nat nat
  | VM_ALLOC_PAGES_REPLY_MSG nat nat
  | TASK_ALLOC_MSG nat
  | TASK_ALLOC_REPLY_MSG nat
  | TASK_FREE_MSG nat
  | TASK_FREE_REPLY_MSG
  | TASK_LAUNCH_MSG cbuf
  | TASK_LAUNCH_REPLY_MSG nat
  | TASK_WATCH_MSG nat
  | TASK_WATCH_REPLY_MSG
  | TASK_UNWATCH_MSG nat
  | TASK_UNWATCH_REPLY_MSG
  | TASK_EXITED_MSG nat
  | SHM_CREATE_MSG nat
  | SHM_CREATE_REPLY_MSG int
  | SHM_MAP_MSG int bool
  | SHM_MAP_REPLY_MSG nat
  | SHM_CLOSE_MSG int
  | SHM_CLOSE_REPLY_MSG
  | UNKNOWN_MSG

text \<open>The system calls and messages of the server.\<close>

datatype vm_call =
    Vm_map nat nat nat nat u32
  | Vm_unmap nat nat
  | Task_create nat cbuf nat
  | Task_destroy nat
  | Ipc_reply nat vm_msg
  | Ipc_reply_err nat error_t
  | Async_send nat vm_msg
  | Async_reply nat
  | Timer_set nat

text \<open>\<^verbatim>\<open>struct task\<close>. The ELF header is read from the bytes of \<^verbatim>\<open>file_header\<close> when it is needed; a
  task that was not loaded from a file has none. \<^verbatim>\<open>ool_sender_m\<close> is the sender's message with
  its source.\<close>

record vm_task =
  vt_in_use :: bool
  vt_pager :: nat
  vt_name :: cbuf
  vt_cmdline :: cbuf
  vt_file :: "(bootfs_file \<times> cbuf) option"
  vt_free_vaddr :: nat
  vt_page_areas :: "page_area list"
  vt_ool_buf :: nat
  vt_ool_len :: nat
  vt_received_ool_from :: nat
  vt_received_ool_buf :: nat
  vt_received_ool_len :: nat
  vt_ool_sender_queue :: "nat list"
  vt_ool_sender_m :: "nat \<times> nat \<times> nat"
  vt_waiting_for :: cbuf
  vt_watchers :: "nat list"

record vm =
  v_refs :: "nat \<Rightarrow> nat"
  v_num_unused_pages :: nat
  v_regions :: "ram_region list"
  v_tasks :: "nat \<Rightarrow> vm_task"
  v_services :: "service list"
  v_shared_mems :: "shm list"
  v_files :: "bootfs_file list"
  v_bootfs :: "nat \<Rightarrow> u8"
  v_tmp_page :: nat
  v_mem :: "nat \<Rightarrow> u8"
  v_window :: "nat \<rightharpoonup> nat"
  v_own :: "nat \<Rightarrow> u8"
  v_calls :: "vm_call list"

type_synonym vm_env = "vm_call list \<Rightarrow> error_t"

definition upd_vtask :: "nat \<Rightarrow> (vm_task \<Rightarrow> vm_task) \<Rightarrow> vm \<Rightarrow> vm" where
  "upd_vtask t f s = s\<lparr>v_tasks := (v_tasks s)(t := f (v_tasks s t))\<rparr>"

text \<open>A call whose answer the code does not look at, and one that is answered by an error value.\<close>

definition call :: "vm_call \<Rightarrow> vm \<Rightarrow> vm" where
  "call c s = s\<lparr>v_calls := v_calls s @ [c]\<rparr>"

definition call_err :: "vm_env \<Rightarrow> vm_call \<Rightarrow> vm \<Rightarrow> error_t \<times> vm" where
  "call_err env c s = (env (v_calls s @ [c]), call c s)"

section \<open>Reaching memory\<close>

definition vm_read :: "vm \<Rightarrow> nat \<Rightarrow> u8" where
  "vm_read s a =
     (case v_window s (a div PGSIZE * PGSIZE) of
        None \<Rightarrow> v_own s a
      | Some p \<Rightarrow> v_mem s (p + a mod PGSIZE))"

definition vm_write :: "nat \<Rightarrow> u8 \<Rightarrow> vm \<Rightarrow> vm" where
  "vm_write a b s =
     (case v_window s (a div PGSIZE * PGSIZE) of
        None \<Rightarrow> s\<lparr>v_own := (v_own s)(a := b)\<rparr>
      | Some p \<Rightarrow> s\<lparr>v_mem := (v_mem s)(p + a mod PGSIZE := b)\<rparr>)"

fun vm_memcpy :: "nat \<Rightarrow> nat \<Rightarrow> nat \<Rightarrow> vm \<Rightarrow> vm" where
  "vm_memcpy dst src 0 s = s"
| "vm_memcpy dst src (Suc len) s = vm_memcpy (Suc dst) (Suc src) len (vm_write dst (vm_read s src) s)"

fun vm_store :: "nat \<Rightarrow> u8 list \<Rightarrow> vm \<Rightarrow> vm" where
  "vm_store dst [] s = s"
| "vm_store dst (b # bs) s = vm_store (Suc dst) bs (vm_write dst b s)"

lemma call_simps [simp]:
  "v_refs (call c s) = v_refs s" "v_num_unused_pages (call c s) = v_num_unused_pages s"
  "v_regions (call c s) = v_regions s" "v_tasks (call c s) = v_tasks s" "v_services (call c s) = v_services s"
  "v_shared_mems (call c s) = v_shared_mems s" "v_files (call c s) = v_files s" "v_bootfs (call c s) = v_bootfs s"
  "v_tmp_page (call c s) = v_tmp_page s" "v_mem (call c s) = v_mem s" "v_window (call c s) = v_window s"
  "v_own (call c s) = v_own s" "v_calls (call c s) = v_calls s @ [c]"
  by (simp_all add: call_def)

lemma upd_vtask_simps [simp]:
  "v_refs (upd_vtask t f s) = v_refs s" "v_num_unused_pages (upd_vtask t f s) = v_num_unused_pages s"
  "v_regions (upd_vtask t f s) = v_regions s" "v_services (upd_vtask t f s) = v_services s"
  "v_shared_mems (upd_vtask t f s) = v_shared_mems s" "v_files (upd_vtask t f s) = v_files s"
  "v_bootfs (upd_vtask t f s) = v_bootfs s" "v_tmp_page (upd_vtask t f s) = v_tmp_page s"
  "v_mem (upd_vtask t f s) = v_mem s" "v_window (upd_vtask t f s) = v_window s"
  "v_own (upd_vtask t f s) = v_own s" "v_calls (upd_vtask t f s) = v_calls s"
  "v_tasks (upd_vtask t f s) = (v_tasks s)(t := f (v_tasks s t))"
  by (simp_all add: upd_vtask_def)

end
