(* ===== verification/Vm_Page.thy ===== *)
theory Vm_Page
  imports Vm_State
begin

text \<open>
  Physical pages and the memory areas of tasks, \<^verbatim>\<open>servers/vm/page_alloc.c\<close>, with the two
  functions of other files it is mutually dependent on: \<^verbatim>\<open>task_kill\<close> of \<^verbatim>\<open>task.c\<close> (called when
  the address space of a task is exhausted) and \<^verbatim>\<open>map_page\<close> of \<^verbatim>\<open>page_fault.c\<close> (called by
  \<open>task_page_alloc\<close> and calling it for the pages of page tables).
\<close>

section \<open>Pages\<close>

definition PAGES_MAX :: nat where
  [kconst]: "PAGES_MAX = 4 * 1024 * 1024 * 1024 div 4096"

definition PAGES_BASE_ADDR_END :: nat where
  [kconst]: "PAGES_BASE_ADDR_END = PAGES_MAX * PGSIZE"

definition paddr2pfn :: "vm_layout \<Rightarrow> nat \<Rightarrow> nat option" where
  "paddr2pfn ly paddr =
     do {
       ASSERT (paddr mod PGSIZE = 0 \<and> paddr \<ge> l_straight_mapping ly);
       Some ((paddr - l_straight_mapping ly) div PGSIZE mod 2 ^ 32)
     }"

text \<open>The loops over the pages of a run; \<open>ref_count\<close> is 32 bits wide.\<close>

fun incref_loop :: "nat \<Rightarrow> nat \<Rightarrow> vm \<Rightarrow> vm" where
  "incref_loop pfn 0 s = s"
| "incref_loop pfn (Suc n) s =
     incref_loop (Suc pfn) n
       (s\<lparr>v_num_unused_pages := (if v_refs s pfn = 0 then (v_num_unused_pages s + (2 ^ 64 - 1)) mod 2 ^ 64 else v_num_unused_pages s),
          v_refs := (v_refs s)(pfn := (v_refs s pfn + 1) mod 2 ^ 32)\<rparr>)"

definition page_incref :: "nat \<Rightarrow> nat \<Rightarrow> vm \<Rightarrow> vm option" where
  "page_incref pfn num_pages s =
     do {
       ASSERT (pfn + num_pages \<le> PAGES_MAX);
       Some (incref_loop pfn num_pages s)
     }"

fun decref_loop :: "nat \<Rightarrow> nat \<Rightarrow> vm \<Rightarrow> vm option" where
  "decref_loop pfn 0 s = Some s"
| "decref_loop pfn (Suc n) s =
     do {
       ASSERT (v_refs s pfn > 0);
       decref_loop (Suc pfn) n
         (s\<lparr>v_num_unused_pages := (if v_refs s pfn = 1 then (v_num_unused_pages s + 1) mod 2 ^ 64 else v_num_unused_pages s),
            v_refs := (v_refs s)(pfn := v_refs s pfn - 1)\<rparr>)
     }"

definition page_decref :: "nat \<Rightarrow> nat \<Rightarrow> vm \<Rightarrow> vm option" where
  "page_decref pfn num_pages s =
     do {
       ASSERT (pfn + num_pages \<le> PAGES_MAX);
       decref_loop pfn num_pages s
     }"

text \<open>The inner loop of \<open>page_alloc\<close>: how many pages from \<open>base\<close> on are free, stopping at
  \<open>num_pages\<close>. The array has \<open>PAGES_MAX\<close> elements.\<close>

function free_run :: "nat \<Rightarrow> nat \<Rightarrow> nat \<Rightarrow> nat \<Rightarrow> vm \<Rightarrow> nat option" where
  "free_run base limit num_pages i s =
     (if base + i < limit then
        if base + i \<ge> PAGES_MAX then None
        else if v_refs s (base + i) > 0 then Some i
        else if i + 1 = num_pages then Some (i + 1)
        else free_run base limit num_pages (i + 1) s
      else Some i)"
  by pat_completeness auto
termination
  by (relation "measure (\<lambda>(base, limit, num_pages, i, s). limit - (base + i))") auto

function region_loop :: "nat \<Rightarrow> nat \<Rightarrow> nat \<Rightarrow> vm \<Rightarrow> nat option option" where
  "region_loop base limit num_pages s =
     (if base < limit then
        case free_run base limit num_pages 0 s of
          None \<Rightarrow> None
        | Some i \<Rightarrow> if i = num_pages then Some (Some base) else region_loop (base + 1) limit num_pages s
      else Some None)"
  by pat_completeness auto
termination
  by (relation "measure (\<lambda>(base, limit, num_pages, s). limit - base)") auto

fun regions_loop :: "vm_layout \<Rightarrow> ram_region list \<Rightarrow> nat \<Rightarrow> vm \<Rightarrow> nat option" where
  "regions_loop ly [] num_pages s = None"
| "regions_loop ly (r # rs) num_pages s =
     do {
       first \<leftarrow> paddr2pfn ly (rr_base r);
       found \<leftarrow> region_loop first ((first + rr_num_pages r) mod 2 ^ 32) num_pages s;
       case found of None \<Rightarrow> regions_loop ly rs num_pages s | Some base \<Rightarrow> Some base
     }"

definition page_alloc :: "vm_layout \<Rightarrow> nat \<Rightarrow> vm \<Rightarrow> (nat \<times> vm) option" where
  "page_alloc ly num_pages s =
     do {
       base \<leftarrow> regions_loop ly (v_regions s) num_pages s;
       s \<leftarrow> page_incref base num_pages s;
       Some (l_straight_mapping ly + base * PGSIZE, s)
     }"

definition is_mappable_paddr_range :: "vm_layout \<Rightarrow> nat \<Rightarrow> nat \<Rightarrow> bool" where
  "is_mappable_paddr_range ly paddr num_pages \<longleftrightarrow>
     (let paddr_end = (paddr + num_pages * PGSIZE) mod 2 ^ 64 in
      paddr \<ge> l_straight_mapping ly \<and> paddr_end \<ge> l_straight_mapping ly \<and>
      paddr_end < PAGES_BASE_ADDR_END \<and> paddr < paddr_end)"

section \<open>Freeing areas and killing tasks\<close>

text \<open>\<open>free_page_area\<close> for the area at position \<open>k\<close>.\<close>

definition free_page_area :: "vm_layout \<Rightarrow> nat \<Rightarrow> nat \<Rightarrow> vm \<Rightarrow> vm option" where
  "free_page_area ly t k s =
     (let area = vt_page_areas (v_tasks s t) ! k in
      do {
        pfn \<leftarrow> paddr2pfn ly (pa_paddr area);
        s \<leftarrow> page_decref pfn (pa_num_pages area) s;
        Some (upd_vtask t (\<lambda>k'. k'\<lparr>vt_page_areas := take k (vt_page_areas k') @ drop (Suc k) (vt_page_areas k')\<rparr>) s)
      })"

fun area_pos :: "page_area list \<Rightarrow> nat \<Rightarrow> nat option" where
  "area_pos [] paddr = None"
| "area_pos (a # areas) paddr = (if pa_paddr a = paddr then Some 0 else map_option Suc (area_pos areas paddr))"

text \<open>An address that belongs to no area is only reported.\<close>

definition task_page_free :: "vm_layout \<Rightarrow> nat \<Rightarrow> nat \<Rightarrow> vm \<Rightarrow> vm option" where
  "task_page_free ly t paddr s =
     (case area_pos (vt_page_areas (v_tasks s t)) paddr of
        None \<Rightarrow> Some s
      | Some k \<Rightarrow> free_page_area ly t k s)"

fun free_areas_loop :: "vm_layout \<Rightarrow> nat \<Rightarrow> nat \<Rightarrow> vm \<Rightarrow> vm option" where
  "free_areas_loop ly t 0 s = Some s"
| "free_areas_loop ly t (Suc n) s = do { s \<leftarrow> free_page_area ly t 0 s; free_areas_loop ly t n s }"

definition task_page_free_all :: "vm_layout \<Rightarrow> nat \<Rightarrow> vm \<Rightarrow> vm option" where
  "task_page_free_all ly t s = free_areas_loop ly t (length (vt_page_areas (v_tasks s t))) s"

text \<open>\<^verbatim>\<open>task_kill\<close>: the watchers are told (their records are freed but stay linked), the services of
  the task disappear, its memory is released.\<close>

definition task_kill :: "vm_layout \<Rightarrow> nat \<Rightarrow> vm \<Rightarrow> vm option" where
  "task_kill ly t s =
     (let s = fold (\<lambda>w. call (Async_send w (TASK_EXITED_MSG t))) (vt_watchers (v_tasks s t)) s;
          s = s\<lparr>v_services := filter (\<lambda>sv. sv_task sv \<noteq> t) (v_services s)\<rparr>
      in do {
        s \<leftarrow> task_page_free_all ly t s;
        Some (upd_vtask t (\<lambda>k. k\<lparr>vt_in_use := False\<rparr>) (call (Task_destroy t) s))
      })"

section \<open>Allocating for tasks\<close>

definition virt_page_alloc :: "vm_layout \<Rightarrow> nat \<Rightarrow> nat \<Rightarrow> vm \<Rightarrow> (nat \<times> vm) option" where
  "virt_page_alloc ly t num_pages s =
     (let vaddr = vt_free_vaddr (v_tasks s t);
          sz = num_pages * PGSIZE mod 2 ^ 64 in
      if (vaddr + sz) mod 2 ^ 64 \<ge> l_free_vaddr_end ly
      then do { s \<leftarrow> task_kill ly t s; Some (0, s) }
      else Some (vaddr, upd_vtask t (\<lambda>k. k\<lparr>vt_free_vaddr := (vt_free_vaddr k + sz) mod 2 ^ 64\<rparr>) s))"

definition add_area :: "nat \<Rightarrow> nat \<Rightarrow> nat \<Rightarrow> nat \<Rightarrow> vm \<Rightarrow> vm" where
  "add_area t vaddr paddr num_pages s =
     upd_vtask t (\<lambda>k. k\<lparr>vt_page_areas := vt_page_areas k @
       [\<lparr>pa_vaddr = vaddr, pa_paddr = paddr, pa_num_pages = num_pages\<rparr>]\<rparr>) s"

text \<open>\<^verbatim>\<open>task_page_alloc(task, NULL, &kpage, 1)\<close> with \<^verbatim>\<open>kpage = 0\<close>, as \<open>map_page\<close> calls it: the area it
  adds has the virtual address 0.\<close>

definition kpage_alloc :: "vm_layout \<Rightarrow> nat \<Rightarrow> vm \<Rightarrow> (nat \<times> vm) option" where
  "kpage_alloc ly t s =
     do {
       (kpage, s) \<leftarrow> page_alloc ly 1 s;
       Some (kpage, add_area t 0 kpage 1 s)
     }"

text \<open>The kernel's answer to a mapping request. A successful mapping in the server's own address
  space is the page the server then reaches at that address.\<close>

definition sys_map :: "vm_env \<Rightarrow> nat \<Rightarrow> nat \<Rightarrow> nat \<Rightarrow> nat \<Rightarrow> u32 \<Rightarrow> vm \<Rightarrow> error_t \<times> vm" where
  "sys_map env t vaddr paddr kpage flags s =
     (let (err, s) = call_err env (Vm_map t vaddr paddr kpage flags) s in
      (err, if err = OK \<and> t = VM_TASK then s\<lparr>v_window := (v_window s)(vaddr \<mapsto> paddr)\<rparr> else s))"

partial_function (option) map_loop ::
  "vm_layout \<Rightarrow> vm_env \<Rightarrow> nat \<Rightarrow> nat \<Rightarrow> nat \<Rightarrow> u32 \<Rightarrow> vm \<Rightarrow> (error_t \<times> vm) option" where
  "map_loop ly env t vaddr paddr flags s =
     do {
       (kpage, s) \<leftarrow> kpage_alloc ly t s;
       let (err, s) = sys_map env t vaddr paddr kpage flags s;
       if err = ERR_TRY_AGAIN then map_loop ly env t vaddr paddr flags s
       else do { s \<leftarrow> task_page_free ly t kpage s; Some (err, s) }
     }"

text \<open>Unmapping; in the server's own address space the page is no longer reached.\<close>

definition sys_unmap :: "nat \<Rightarrow> nat \<Rightarrow> vm \<Rightarrow> vm" where
  "sys_unmap t vaddr s =
     (let s = call (Vm_unmap t vaddr) s in
      if t = VM_TASK then s\<lparr>v_window := (v_window s)(vaddr := None)\<rparr> else s)"

definition map_page ::
  "vm_layout \<Rightarrow> vm_env \<Rightarrow> nat \<Rightarrow> nat \<Rightarrow> nat \<Rightarrow> u32 \<Rightarrow> bool \<Rightarrow> vm \<Rightarrow> (error_t \<times> vm) option" where
  "map_page ly env t vaddr paddr flags overwrite s =
     map_loop ly env t vaddr paddr flags (if overwrite then sys_unmap t vaddr s else s)"

definition MAP_READWRITE :: u32 where
  [kconst]: "MAP_READWRITE = 2"

definition MAP_READONLY :: u32 where
  [kconst]: "MAP_READONLY = 1"

fun map_pages_loop ::
  "vm_layout \<Rightarrow> vm_env \<Rightarrow> nat \<Rightarrow> nat \<Rightarrow> nat \<Rightarrow> nat \<Rightarrow> vm \<Rightarrow> (error_t \<times> vm) option" where
  "map_pages_loop ly env t vaddr paddr 0 s = Some (OK, s)"
| "map_pages_loop ly env t vaddr paddr (Suc n) s =
     do {
       (err, s) \<leftarrow> map_page ly env t vaddr paddr MAP_READWRITE False s;
       if err \<noteq> OK then Some (err, s)
       else map_pages_loop ly env t (vaddr + PGSIZE) (paddr + PGSIZE) n s
     }"

text \<open>\<open>task_page_alloc\<close> with the values of \<^verbatim>\<open>*vaddr\<close> and \<^verbatim>\<open>*paddr\<close>; the results are their new values.
  \<^verbatim>\<open>vaddr\<close> is not the null pointer here.\<close>

definition task_page_alloc ::
  "vm_layout \<Rightarrow> vm_env \<Rightarrow> nat \<Rightarrow> nat \<Rightarrow> nat \<Rightarrow> nat \<Rightarrow> vm \<Rightarrow> (error_t \<times> nat \<times> nat \<times> vm) option" where
  "task_page_alloc ly env t vaddr paddr num_pages s =
     do {
       (err, paddr, s) \<leftarrow>
         (if paddr \<noteq> 0 then
            if paddr mod PGSIZE \<noteq> 0 then Some (ERR_INVALID_ARG, paddr, s)
            else if \<not> is_mappable_paddr_range ly paddr num_pages then Some (ERR_NOT_ACCEPTABLE, paddr, s)
            else do {
              (err, s) \<leftarrow> map_pages_loop ly env t vaddr paddr num_pages s;
              if err \<noteq> OK then Some (err, paddr, s)
              else do {
                pfn \<leftarrow> paddr2pfn ly paddr;
                s \<leftarrow> page_incref pfn num_pages s;
                Some (OK, paddr, s)
              }
            }
          else do {
            (paddr, s) \<leftarrow> page_alloc ly num_pages s;
            Some (OK, paddr, s)
          });
       if err \<noteq> OK then Some (err, vaddr, paddr, s)
       else do {
         (vaddr, s) \<leftarrow> (if vaddr = 0 then virt_page_alloc ly t num_pages s else Some (vaddr, s));
         if vaddr = 0 then Some (ERR_NO_MEMORY, vaddr, paddr, s)
         else Some (OK, vaddr, paddr, add_area t vaddr paddr num_pages s)
       }
     }"

text \<open>The regions the boot loader reports as available.\<close>

fun region_of :: "vm_layout \<Rightarrow> bool \<times> nat \<times> nat \<Rightarrow> ram_region option" where
  "region_of ly (available, base, len) =
     (if \<not> available \<or> (base + len) mod 2 ^ 64 < l_straight_mapping ly then None
      else if base < l_straight_mapping ly
      then Some \<lparr>rr_base = l_straight_mapping ly, rr_num_pages = (len - (l_straight_mapping ly - base)) div PGSIZE\<rparr>
      else Some \<lparr>rr_base = base, rr_num_pages = len div PGSIZE\<rparr>)"

definition page_alloc_init :: "vm_layout \<Rightarrow> (bool \<times> nat \<times> nat) list \<Rightarrow> vm \<Rightarrow> vm" where
  "page_alloc_init ly memmap s =
     s\<lparr>v_regions := List.map_filter (region_of ly) memmap, v_refs := (\<lambda>_. 0),
       v_num_unused_pages := v_num_unused_pages s + PAGES_MAX\<rparr>"

declare free_run.simps [simp del] region_loop.simps [simp del]

end
