(* ===== verification/Vm_Server.thy ===== *)
theory Vm_Server
  imports Vm_Page
begin

text \<open>
  The rest of \<^verbatim>\<open>servers/vm\<close>: boot files (\<^verbatim>\<open>bootfs.c\<close>), tasks and services (\<^verbatim>\<open>task.c\<close>), page faults
  (\<^verbatim>\<open>page_fault.c\<close>), out-of-line payloads (\<^verbatim>\<open>ool.c\<close>), shared memory (\<^verbatim>\<open>shm.c\<close>), and the handling of
  a message by the main loop (\<^verbatim>\<open>main.c\<close>).
\<close>

section \<open>Boot files\<close>

text \<open>\<^verbatim>\<open>bootfs_init\<close>: the header of the image and the table of files, 64 bytes each.\<close>

fun le_value :: "u8 list \<Rightarrow> nat" where
  "le_value [] = 0"
| "le_value (b # bs) = unat b + 256 * le_value bs"

definition img_bytes :: "nat \<Rightarrow> nat \<Rightarrow> vm \<Rightarrow> u8 list" where
  "img_bytes off n s = map (\<lambda>i. v_bootfs s (off + i)) [0..<n]"

text \<open>\<^verbatim>\<open>read_file\<close> copies from the file system image; nothing stops it at the end of the file.\<close>

definition read_file :: "bootfs_file \<Rightarrow> nat \<Rightarrow> nat \<Rightarrow> vm \<Rightarrow> u8 list" where
  "read_file f off len s = img_bytes (bf_offset f + off) len s"

definition bootfs_entry :: "nat \<Rightarrow> vm \<Rightarrow> bootfs_file" where
  "bootfs_entry off s =
     \<lparr>bf_name = img_bytes off 48 s, bf_offset = le_value (img_bytes (off + 48) 4 s),
      bf_len = le_value (img_bytes (off + 52) 4 s)\<rparr>"

definition bootfs_init :: "vm \<Rightarrow> vm" where
  "bootfs_init s =
     (let files_off = le_value (img_bytes 4 4 s); num_files = le_value (img_bytes 8 4 s) in
      s\<lparr>v_files := map (\<lambda>i. bootfs_entry (files_off + 64 * i) s) [0..<num_files]\<rparr>)"

definition bootfs_open :: "nat \<Rightarrow> vm \<Rightarrow> bootfs_file option" where
  "bootfs_open index s = (if index \<ge> length (v_files s) then None else Some (v_files s ! index))"

text \<open>Little-endian fields of the header page of an ELF file; reading outside the page is a
  fault.\<close>

definition le_field :: "u8 list \<Rightarrow> nat \<Rightarrow> nat \<Rightarrow> nat option" where
  "le_field bs off n = (if off + n \<le> length bs then Some (le_value (take n (drop off bs))) else None)"

definition e_entry :: "u8 list \<Rightarrow> nat option" where "e_entry h = le_field h 24 8"
definition e_ehsize :: "u8 list \<Rightarrow> nat option" where "e_ehsize h = le_field h 52 2"
definition e_phnum :: "u8 list \<Rightarrow> nat option" where "e_phnum h = le_field h 56 2"

text \<open>\<^verbatim>\<open>phdrs[i]\<close>: offset in the file, virtual address, size in memory.\<close>

definition phdr :: "u8 list \<Rightarrow> nat \<Rightarrow> (nat \<times> nat \<times> nat) option" where
  "phdr h i =
     do {
       start \<leftarrow> e_ehsize h;
       p_offset \<leftarrow> le_field h (start + 56 * i + 8) 8;
       p_vaddr \<leftarrow> le_field h (start + 56 * i + 16) 8;
       p_memsz \<leftarrow> le_field h (start + 56 * i + 40) 8;
       Some (p_offset, p_vaddr, p_memsz)
     }"

section \<open>Tasks and services\<close>

definition task_lookup :: "nat \<Rightarrow> vm \<Rightarrow> nat option" where
  "task_lookup tid s =
     do {
       ASSERT (0 < tid \<and> tid \<le> NUM_TASKS);
       ASSERT (vt_in_use (v_tasks s tid));
       Some tid
     }"

definition task_alloc :: "nat \<Rightarrow> vm \<Rightarrow> (nat \<times> vm) option" where
  "task_alloc pager s =
     map_option (\<lambda>t. (t, upd_vtask t (\<lambda>k. k\<lparr>vt_in_use := True, vt_pager := pager\<rparr>) s))
       (find (\<lambda>t. \<not> vt_in_use (v_tasks s t)) [1..<Suc NUM_TASKS])"

definition task_free :: "nat \<Rightarrow> vm \<Rightarrow> vm" where
  "task_free t s = upd_vtask t (\<lambda>k. k\<lparr>vt_in_use := False\<rparr>) s"

definition init_task_struct ::
  "vm_layout \<Rightarrow> nat \<Rightarrow> cbuf \<Rightarrow> (bootfs_file \<times> cbuf) option \<Rightarrow> cbuf \<Rightarrow> vm \<Rightarrow> vm option" where
  "init_task_struct ly t name file cmdline s =
     do {
       name \<leftarrow> strncpy2 (vt_name (v_tasks s t)) name 32;
       cmdline \<leftarrow> strncpy2 (vt_cmdline (v_tasks s t)) cmdline 512;
       waiting_for \<leftarrow> strncpy2 (vt_waiting_for (v_tasks s t)) [0] 32;
       Some (upd_vtask t (\<lambda>k. k\<lparr>
         vt_file := file, vt_pager := VM_TASK, vt_in_use := True, vt_free_vaddr := l_free_vaddr ly,
         vt_ool_buf := 0, vt_ool_len := 0, vt_received_ool_buf := 0, vt_received_ool_len := 0,
         vt_received_ool_from := 0, vt_ool_sender_queue := [], vt_name := name, vt_cmdline := cmdline,
         vt_waiting_for := waiting_for, vt_page_areas := [], vt_watchers := []\<rparr>) s)
     }"

text \<open>The result is a task or an error value.\<close>

definition task_spawn :: "vm_layout \<Rightarrow> vm_env \<Rightarrow> bootfs_file \<Rightarrow> cbuf \<Rightarrow> vm \<Rightarrow> ((error_t + nat) \<times> vm) option" where
  "task_spawn ly env file cmdline s =
     do {
       (t, s) \<leftarrow> task_alloc VM_TASK s;
       let header = read_file file 0 PGSIZE s;
       if take 4 header \<noteq> [0x7f, 0x45, 0x4c, 0x46] then Some (Inl ERR_NOT_ACCEPTABLE, s)
       else do {
         s \<leftarrow> init_task_struct ly t (bf_name file) (Some (file, header)) cmdline s;
         entry \<leftarrow> e_entry header;
         let (err, s) = call_err env (Task_create t (bf_name file) entry) s;
         Some (if err \<noteq> OK then Inl err else Inr t, s)
       }
     }"

text \<open>The command line is cut at its first space. \<^verbatim>\<open>cmdline\<close> points into \<^verbatim>\<open>name\<close>, which is freed
  before \<open>task_spawn\<close> reads it; the model takes the characters as they were.\<close>

fun cut_at_space :: "cbuf \<Rightarrow> (cbuf \<times> cbuf) option" where
  "cut_at_space [] = None"
| "cut_at_space (c # s) =
     (if c = 0 then Some ([0], [0])
      else if c = 0x20 then Some ([0], s)
      else map_option (\<lambda>(name, rest). (c # name, rest)) (cut_at_space s))"

fun find_file :: "bootfs_file list \<Rightarrow> cbuf \<Rightarrow> bootfs_file option option" where
  "find_file [] name = Some None"
| "find_file (f # files) name =
     do {
       r \<leftarrow> strcmp (bf_name f) name;
       if r = 0 then Some (Some f) else find_file files name
     }"

definition task_spawn_by_cmdline :: "vm_layout \<Rightarrow> vm_env \<Rightarrow> cbuf \<Rightarrow> vm \<Rightarrow> ((error_t + nat) \<times> vm) option" where
  "task_spawn_by_cmdline ly env name_with_cmdline s =
     do {
       (name, cmdline) \<leftarrow> cut_at_space name_with_cmdline;
       file \<leftarrow> find_file (v_files s) name;
       case file of
         None \<Rightarrow> Some (Inl ERR_NOT_FOUND, s)
       | Some file \<Rightarrow> task_spawn ly env file cmdline s
     }"

definition task_watch :: "nat \<Rightarrow> nat \<Rightarrow> vm \<Rightarrow> vm" where
  "task_watch watcher t s = upd_vtask t (\<lambda>k. k\<lparr>vt_watchers := vt_watchers k @ [watcher]\<rparr>) s"

definition task_unwatch :: "nat \<Rightarrow> nat \<Rightarrow> vm \<Rightarrow> vm" where
  "task_unwatch watcher t s = upd_vtask t (\<lambda>k. k\<lparr>vt_watchers := remove1 watcher (vt_watchers k)\<rparr>) s"

text \<open>The loop of \<open>service_register\<close> over the tasks that may wait for the service.\<close>

fun wake_waiters :: "nat \<Rightarrow> cbuf \<Rightarrow> nat list \<Rightarrow> vm \<Rightarrow> vm option" where
  "wake_waiters server name [] s = Some s"
| "wake_waiters server name (t # ts) s =
     do {
       r \<leftarrow> strcmp (vt_waiting_for (v_tasks s t)) name;
       if r \<noteq> 0 then wake_waiters server name ts s
       else do {
         let s = call (Ipc_reply t (DISCOVERY_LOOKUP_REPLY_MSG server)) s;
         cleared \<leftarrow> strncpy2 (vt_waiting_for (v_tasks s t)) [0] 32;
         wake_waiters server name ts (upd_vtask t (\<lambda>k. k\<lparr>vt_waiting_for := cleared\<rparr>) s)
       }
     }"

text \<open>The record of the service is fresh from \<^verbatim>\<open>malloc\<close>; what its name holds after the terminator is
  never read.\<close>

definition service_register :: "nat \<Rightarrow> cbuf \<Rightarrow> vm \<Rightarrow> vm option" where
  "service_register t name s =
     do {
       sname \<leftarrow> strncpy2 (replicate 32 0) name 32;
       let s = s\<lparr>v_services := v_services s @ [\<lparr>sv_name = sname, sv_task = t\<rparr>]\<rparr>;
       wake_waiters t name [1..<Suc NUM_TASKS] s
     }"

fun find_service :: "service list \<Rightarrow> cbuf \<Rightarrow> nat option option" where
  "find_service [] name = Some None"
| "find_service (sv # svs) name =
     do {
       r \<leftarrow> strcmp (sv_name sv) name;
       if r = 0 then Some (Some (sv_task sv)) else find_service svs name
     }"

definition service_wait :: "nat \<Rightarrow> cbuf \<Rightarrow> vm \<Rightarrow> (nat option \<times> vm) option" where
  "service_wait t name s =
     do {
       r \<leftarrow> find_service (v_services s) name;
       case r of
         Some server \<Rightarrow> Some (Some server, s)
       | None \<Rightarrow>
           do {
             w \<leftarrow> strncpy2 (vt_waiting_for (v_tasks s t)) name 32;
             Some (None, upd_vtask t (\<lambda>k. k\<lparr>vt_waiting_for := w\<rparr>) s)
           }
     }"

text \<open>The tasks a warning is printed for.\<close>

fun warned :: "nat list \<Rightarrow> vm \<Rightarrow> nat list option" where
  "warned [] s = Some []"
| "warned (t # ts) s =
     do {
       n \<leftarrow> strlen (vt_waiting_for (v_tasks s t));
       rest \<leftarrow> warned ts s;
       Some (if n > 0 then t # rest else rest)
     }"

definition service_warn_deadlocked_tasks :: "vm \<Rightarrow> nat list option" where
  "service_warn_deadlocked_tasks s = warned [1..<Suc NUM_TASKS] s"

definition task_init :: "vm_layout \<Rightarrow> vm \<Rightarrow> vm option" where
  "task_init ly s =
     do {
       let s = s\<lparr>v_tasks := (\<lambda>t. if t \<in> {1..NUM_TASKS} then (v_tasks s t)\<lparr>vt_in_use := False\<rparr> else v_tasks s t)\<rparr>;
       s \<leftarrow> init_task_struct ly VM_TASK [0x76, 0x6d, 0] None [0] s;
       Some (s\<lparr>v_services := []\<rparr>)
     }"

section \<open>Page faults\<close>

fun find_area :: "page_area list \<Rightarrow> nat \<Rightarrow> nat option" where
  "find_area [] vaddr = None"
| "find_area (a # areas) vaddr =
     (if pa_vaddr a \<le> vaddr \<and> vaddr < (pa_vaddr a + pa_num_pages a * PGSIZE) mod 2 ^ 64
      then Some (pa_paddr a + (vaddr - pa_vaddr a)) else find_area areas vaddr)"

text \<open>Allocating a page for \<open>vaddr\<close> and filling it through the server's temporary mapping. The
  result 0 is a failure.\<close>

definition fill_page :: "vm_layout \<Rightarrow> vm_env \<Rightarrow> nat \<Rightarrow> nat \<Rightarrow> u8 list \<Rightarrow> vm \<Rightarrow> (nat \<times> vm) option" where
  "fill_page ly env t vaddr contents s =
     do {
       (err, _, paddr, s) \<leftarrow> task_page_alloc ly env t vaddr 0 1 s;
       if err \<noteq> OK then Some (0, s)
       else do {
         (err, s) \<leftarrow> map_page ly env VM_TASK (v_tmp_page s) paddr MAP_READWRITE False s;
         if err \<noteq> OK then Some (0, s)
         else Some (paddr, vm_store (v_tmp_page s) contents s)
       }
     }"

text \<open>The program header whose segment contains the address. The upper bound is inclusive.\<close>

fun find_phdr :: "u8 list \<Rightarrow> nat list \<Rightarrow> nat \<Rightarrow> (nat \<times> nat) option option" where
  "find_phdr h [] vaddr = Some None"
| "find_phdr h (i # rest) vaddr =
     do {
       (p_offset, p_vaddr, p_memsz) \<leftarrow> phdr h i;
       if p_vaddr \<noteq> 0 \<and> p_vaddr \<le> vaddr \<and> vaddr \<le> (p_vaddr + p_memsz) mod 2 ^ 64
       then Some (Some (p_offset, p_vaddr))
       else find_phdr h rest vaddr
     }"

definition EXP_PF_PRESENT :: u32 where [kconst]: "EXP_PF_PRESENT = 1"
definition EXP_PF_WRITE :: u32 where [kconst]: "EXP_PF_WRITE = 2"
definition EXP_PF_USER :: u32 where [kconst]: "EXP_PF_USER = 4"

text \<open>The first page of the command line: zeroes, then the string.\<close>

definition cmdline_page :: "cbuf \<Rightarrow> u8 list option" where
  "cmdline_page cmdline = strncpy2 (replicate PGSIZE 0) cmdline PGSIZE"

definition handle_page_fault ::
  "vm_layout \<Rightarrow> vm_env \<Rightarrow> nat \<Rightarrow> nat \<Rightarrow> u32 \<Rightarrow> vm \<Rightarrow> (nat \<times> vm) option" where
  "handle_page_fault ly env t vaddr0 fault s =
     (if vaddr0 < PGSIZE then Some (0, s)
      else if fault AND EXP_PF_PRESENT \<noteq> 0 then Some (0, s)
      else
        let vaddr = vaddr0 div PGSIZE * PGSIZE in
        if vaddr = l_cmdline ly then
          do {
            page \<leftarrow> cmdline_page (vt_cmdline (v_tasks s t));
            fill_page ly env t vaddr page s
          }
        else (case find_area (vt_page_areas (v_tasks s t)) vaddr of
          Some paddr \<Rightarrow> Some (paddr, s)
        | None \<Rightarrow>
            if l_zeroed_pages ly \<le> vaddr \<and> vaddr < l_zeroed_pages_end ly
            then fill_page ly env t vaddr (replicate PGSIZE 0) s
            else (case vt_file (v_tasks s t) of
              None \<Rightarrow> Some (0, s)
            | Some (file, header) \<Rightarrow>
                do {
                  n \<leftarrow> e_phnum header;
                  r \<leftarrow> find_phdr header [0..<n] vaddr;
                  case r of
                    None \<Rightarrow> Some (0, s)
                  | Some (p_offset, p_vaddr) \<Rightarrow>
                      fill_page ly env t vaddr (read_file file ((vaddr - p_vaddr + p_offset) mod 2 ^ 64) PGSIZE s) s
                })))"

definition page_fault_init :: "vm_layout \<Rightarrow> vm \<Rightarrow> vm option" where
  "page_fault_init ly s =
     do {
       (vaddr, s) \<leftarrow> virt_page_alloc ly VM_TASK 1 s;
       Some (s\<lparr>v_tmp_page := vaddr\<rparr>)
     }"

section \<open>Out-of-line payloads\<close>

definition vaddr2paddr :: "vm_layout \<Rightarrow> vm_env \<Rightarrow> nat \<Rightarrow> nat \<Rightarrow> bool \<Rightarrow> vm \<Rightarrow> (nat \<times> vm) option" where
  "vaddr2paddr ly env t vaddr write s =
     (case find_area (vt_page_areas (v_tasks s t)) vaddr of
        Some paddr \<Rightarrow> Some (paddr, s)
      | None \<Rightarrow> handle_page_fault ly env t vaddr (EXP_PF_USER OR (if write then EXP_PF_WRITE else 0)) s)"

text \<open>Making the page of a task's buffer reachable at the address \<open>page\<close>: the pointer to use, or
  the error to return. The server's own buffers are used directly.\<close>

datatype reach = At nat | Unmapped | Map_failed error_t

definition reach_buf :: "vm_layout \<Rightarrow> vm_env \<Rightarrow> nat \<Rightarrow> nat \<Rightarrow> nat \<Rightarrow> bool \<Rightarrow> vm \<Rightarrow> (reach \<times> vm) option" where
  "reach_buf ly env t buf page write s =
     (if t = VM_TASK then Some (At buf, s)
      else do {
        (paddr, s) \<leftarrow> vaddr2paddr ly env t (buf div PGSIZE * PGSIZE) write s;
        if paddr = 0 then Some (Unmapped, s)
        else do {
          (err, s) \<leftarrow> map_page ly env VM_TASK page paddr MAP_READWRITE True s;
          if err \<noteq> OK then Some (Map_failed err, s)
          else Some (At (page + buf mod PGSIZE), s)
        }
      })"

definition copy_len :: "nat \<Rightarrow> nat \<Rightarrow> nat \<Rightarrow> nat" where
  "copy_len src_buf dst_buf remaining =
     min remaining (min (PGSIZE - src_buf mod PGSIZE) (PGSIZE - dst_buf mod PGSIZE))"

lemma copy_len_pos: "0 < remaining \<Longrightarrow> 0 < copy_len src_buf dst_buf remaining"
  by (simp add: copy_len_def PGSIZE_def)

text \<open>The copy loop; every round copies at least one byte.\<close>

function copy_loop ::
  "vm_layout \<Rightarrow> vm_env \<Rightarrow> nat \<Rightarrow> nat \<Rightarrow> nat \<Rightarrow> nat \<Rightarrow> nat \<Rightarrow> vm \<Rightarrow> (error_t \<times> vm) option" where
  "copy_loop ly env src dst src_buf dst_buf remaining s =
     (if remaining = 0 then Some (OK, s)
      else
        let n = copy_len src_buf dst_buf remaining in
        (case reach_buf ly env src src_buf (l_src_page ly) False s of
           None \<Rightarrow> None
         | Some (Unmapped, s) \<Rightarrow> map_option (Pair DONT_REPLY) (task_kill ly src s)
         | Some (Map_failed err, s) \<Rightarrow> Some (err, s)
         | Some (At src_ptr, s) \<Rightarrow>
             (case reach_buf ly env dst dst_buf (l_dst_page ly) True s of
                None \<Rightarrow> None
              | Some (Unmapped, s) \<Rightarrow> map_option (Pair ERR_UNAVAILABLE) (task_kill ly dst s)
              | Some (Map_failed err, s) \<Rightarrow> Some (err, s)
              | Some (At dst_ptr, s) \<Rightarrow>
                  copy_loop ly env src dst ((src_buf + n) mod 2 ^ 64) ((dst_buf + n) mod 2 ^ 64)
                    (remaining - n) (vm_memcpy dst_ptr src_ptr n s))))"
  by pat_completeness auto
termination
  by (relation "measure (\<lambda>(ly, env, src, dst, src_buf, dst_buf, remaining, s). remaining)")
     (simp_all add: copy_len_pos)

declare copy_loop.simps [simp del]

text \<open>\<open>handle_ool_send\<close> for the message \<open>OOL_SEND_MSG dst addr len\<close> from \<open>src\<close>: the error value and
  the identifier of the payload in the reply.\<close>

definition handle_ool_send :: "vm_layout \<Rightarrow> vm_env \<Rightarrow> nat \<Rightarrow> nat \<times> nat \<times> nat \<Rightarrow> vm \<Rightarrow> (error_t \<times> nat \<times> vm) option" where
  "handle_ool_send ly env src m s =
     (case m of (dst, addr, len) \<Rightarrow>
        do {
          src \<leftarrow> task_lookup src s;
          dst \<leftarrow> task_lookup dst s;
          if vt_ool_buf (v_tasks s dst) = 0 then
            Some (DONT_REPLY, 0,
              upd_vtask dst (\<lambda>k. k\<lparr>vt_ool_sender_queue := vt_ool_sender_queue k @ [src]\<rparr>)
                (upd_vtask src (\<lambda>k. k\<lparr>vt_ool_sender_m := m\<rparr>) s))
          else do {
            ASSERT (len \<le> vt_ool_len (v_tasks s dst));
            (err, s) \<leftarrow> copy_loop ly env src dst addr (vt_ool_buf (v_tasks s dst)) len s;
            if err \<noteq> OK then Some (err, 0, s)
            else
              let s = upd_vtask dst (\<lambda>k. k\<lparr>vt_received_ool_buf := vt_ool_buf k, vt_received_ool_len := len,
                        vt_received_ool_from := src, vt_ool_buf := 0, vt_ool_len := 0\<rparr>) s
              in Some (OK, vt_received_ool_buf (v_tasks s dst), s)
          }
        })"

definition handle_ool_recv :: "vm_layout \<Rightarrow> vm_env \<Rightarrow> nat \<Rightarrow> nat \<Rightarrow> nat \<Rightarrow> vm \<Rightarrow> (error_t \<times> vm) option" where
  "handle_ool_recv ly env t addr len s =
     do {
       t \<leftarrow> task_lookup t s;
       if vt_ool_buf (v_tasks s t) \<noteq> 0 then Some (ERR_ALREADY_EXISTS, s)
       else
         let s = upd_vtask t (\<lambda>k. k\<lparr>vt_ool_buf := addr, vt_ool_len := len\<rparr>) s in
         (case vt_ool_sender_queue (v_tasks s t) of
            [] \<Rightarrow> Some (OK, s)
          | sender # rest \<Rightarrow>
              do {
                let s = upd_vtask t (\<lambda>k. k\<lparr>vt_ool_sender_queue := rest\<rparr>) s;
                (err, pid, s) \<leftarrow> handle_ool_send ly env sender (vt_ool_sender_m (v_tasks s sender)) s;
                Some (OK,
                  if err = OK then call (Ipc_reply sender (OOL_SEND_REPLY_MSG pid)) s
                  else if err = DONT_REPLY then s
                  else call (Ipc_reply_err sender err) s)
              })
     }"

text \<open>The answer is the address the payload was received at.\<close>

definition handle_ool_verify :: "nat \<Rightarrow> nat \<Rightarrow> nat \<Rightarrow> nat \<Rightarrow> vm \<Rightarrow> (error_t \<times> nat \<times> vm) option" where
  "handle_ool_verify t src pid len s =
     do {
       t \<leftarrow> task_lookup t s;
       let k = v_tasks s t;
       if src \<noteq> vt_received_ool_from k \<or> pid \<noteq> vt_received_ool_buf k \<or> len \<noteq> vt_received_ool_len k
       then Some (ERR_INVALID_ARG, 0, s)
       else Some (OK, vt_received_ool_buf k,
         upd_vtask t (\<lambda>k. k\<lparr>vt_received_ool_buf := 0, vt_received_ool_len := 0, vt_received_ool_from := 0\<rparr>) s)
     }"

section \<open>Shared memory\<close>

definition NUM_SHARED_MEMS_MAX :: nat where
  [kconst]: "NUM_SHARED_MEMS_MAX = 32"

definition shm_check_available :: "vm \<Rightarrow> int" where
  "shm_check_available s =
     (case find (\<lambda>i. \<not> sm_inuse (v_shared_mems s ! i)) [0..<NUM_SHARED_MEMS_MAX] of None \<Rightarrow> -1 | Some i \<Rightarrow> int i)"

text \<open>\<^verbatim>\<open>vaddr\<close> is not initialised when \<open>task_page_alloc\<close> looks at it: \<open>garbage\<close> is what it holds.\<close>

definition shm_create :: "vm_layout \<Rightarrow> vm_env \<Rightarrow> nat \<Rightarrow> nat \<Rightarrow> nat \<Rightarrow> vm \<Rightarrow> (error_t \<times> int \<times> vm) option" where
  "shm_create ly env garbage t sz s =
     (let slot = shm_check_available s in
      if slot < 0 then Some (ERR_UNAVAILABLE, slot, s)
      else do {
        (err, _, paddr, s) \<leftarrow> task_page_alloc ly env t garbage 0 sz s;
        if err \<noteq> OK then Some (err, slot, s)
        else Some (OK, slot, s\<lparr>v_shared_mems := (v_shared_mems s)[nat slot :=
          \<lparr>sm_inuse = True, sm_shm_id = slot, sm_paddr = paddr, sm_len = sz\<rparr>]\<rparr>)
      })"

fun shm_lookup_loop :: "shm list \<Rightarrow> int \<Rightarrow> nat \<Rightarrow> nat option" where
  "shm_lookup_loop [] shm_id i = None"
| "shm_lookup_loop (sm # sms) shm_id i =
     (if sm_shm_id sm = shm_id then (if sm_inuse sm then Some i else None)
      else shm_lookup_loop sms shm_id (Suc i))"

definition shm_lookup :: "int \<Rightarrow> vm \<Rightarrow> nat option" where
  "shm_lookup shm_id s = shm_lookup_loop (v_shared_mems s) shm_id 0"

text \<open>Only the first page is mapped, whatever the length.\<close>

definition shm_map :: "vm_layout \<Rightarrow> vm_env \<Rightarrow> nat \<Rightarrow> int \<Rightarrow> bool \<Rightarrow> vm \<Rightarrow> (error_t \<times> nat \<times> vm) option" where
  "shm_map ly env t shm_id writable s =
     (case shm_lookup shm_id s of
        None \<Rightarrow> Some (ERR_NOT_FOUND, 0, s)
      | Some i \<Rightarrow>
          do {
            let sm = v_shared_mems s ! i;
            (vaddr, s) \<leftarrow> virt_page_alloc ly t (sm_len sm) s;
            (err, s) \<leftarrow> map_page ly env t vaddr (sm_paddr sm) (if writable then MAP_READWRITE else MAP_READONLY) True s;
            Some (err, vaddr, s)
          })"

definition shm_close :: "int \<Rightarrow> vm \<Rightarrow> vm" where
  "shm_close shm_id s =
     (case shm_lookup shm_id s of
        None \<Rightarrow> s
      | Some i \<Rightarrow> s\<lparr>v_shared_mems := (v_shared_mems s)[i := (v_shared_mems s ! i)\<lparr>sm_inuse := False\<rparr>]\<rparr>)"

section \<open>The main loop\<close>

definition KERNEL_TASK :: nat where
  [kconst]: "KERNEL_TASK = 0"

text \<open>\<^verbatim>\<open>spawn_servers\<close>: the files whose names are words of the list \<^verbatim>\<open>AUTOSTARTS\<close>.\<close>

fun skip_word :: "cbuf \<Rightarrow> cbuf option" where
  "skip_word [] = None"
| "skip_word (c # s) = (if c = 0 then Some (c # s) else if c = 0x20 then Some s else skip_word s)"

lemma skip_word_length: "skip_word s = Some r \<Longrightarrow> s \<noteq> [] \<and> (hd s \<noteq> 0 \<longrightarrow> length r < length s) \<and> length r \<le> length s"
  by (induction s arbitrary: r rule: skip_word.induct) (fastforce split: if_splits)+

function autostart_listed :: "cbuf \<Rightarrow> cbuf \<Rightarrow> bool option" where
  "autostart_listed name startups =
     do {
       ASSERT (startups \<noteq> []);
       if hd startups = 0 then Some False
       else do {
         len \<leftarrow> strlen name;
         r \<leftarrow> strncmp name startups len;
         listed \<leftarrow>
           (if r = 0 then do {
              ASSERT (len < length startups);
              Some (startups ! len = 0 \<or> startups ! len = 0x20)
            } else Some False);
         if listed then Some True
         else (case skip_word startups of None \<Rightarrow> None | Some rest \<Rightarrow> autostart_listed name rest)
       }
     }"
  by pat_completeness auto
termination
  by (relation "measure (\<lambda>(name, startups). length startups)") (auto dest: skip_word_length)

declare autostart_listed.simps [simp del]

fun spawn_loop :: "vm_layout \<Rightarrow> vm_env \<Rightarrow> cbuf \<Rightarrow> bootfs_file list \<Rightarrow> vm \<Rightarrow> vm option" where
  "spawn_loop ly env autostarts [] s = Some s"
| "spawn_loop ly env autostarts (file # files) s =
     do {
       listed \<leftarrow> autostart_listed (bf_name file) autostarts;
       if listed then do {
         (r, s) \<leftarrow> task_spawn ly env file [0] s;
         ASSERT (\<not> isl r);
         spawn_loop ly env autostarts files s
       } else spawn_loop ly env autostarts files s
     }"

definition spawn_servers :: "vm_layout \<Rightarrow> vm_env \<Rightarrow> cbuf \<Rightarrow> vm \<Rightarrow> vm option" where
  "spawn_servers ly env autostarts s = spawn_loop ly env autostarts (v_files s) s"

text \<open>\<open>ipc_call_pager\<close>, the calls of the server's own library to itself: anything but success is a
  panic.\<close>

definition ipc_call_pager :: "vm_layout \<Rightarrow> vm_env \<Rightarrow> vm_msg \<Rightarrow> vm \<Rightarrow> (vm_msg \<times> vm) option" where
  "ipc_call_pager ly env m s =
     (case m of
        OOL_RECV_MSG addr len \<Rightarrow>
          do {
            (err, s) \<leftarrow> handle_ool_recv ly env VM_TASK addr len s;
            ASSERT (err = OK);
            Some (OOL_RECV_REPLY_MSG, s)
          }
      | OOL_VERIFY_MSG src pid len \<Rightarrow>
          do {
            (err, at, s) \<leftarrow> handle_ool_verify VM_TASK src pid len s;
            ASSERT (err = OK);
            Some (OOL_VERIFY_REPLY_MSG at, s)
          }
      | OOL_SEND_MSG dst addr len \<Rightarrow>
          do {
            (err, pid, s) \<leftarrow> handle_ool_send ly env VM_TASK (dst, addr, len) s;
            ASSERT (err = OK);
            Some (OOL_SEND_REPLY_MSG pid, s)
          }
      | _ \<Rightarrow> None)"

text \<open>The answer to a request whose handler returned \<open>err\<close>.\<close>

definition answer :: "nat \<Rightarrow> error_t \<Rightarrow> vm_msg \<Rightarrow> vm \<Rightarrow> vm" where
  "answer src err m s =
     (if err = DONT_REPLY then s
      else if err = OK then call (Ipc_reply src m) s
      else call (Ipc_reply_err src err) s)"

definition answer_result :: "nat \<Rightarrow> error_t \<Rightarrow> vm_msg \<Rightarrow> vm \<Rightarrow> vm" where
  "answer_result src err m s =
     (if err \<noteq> OK then call (Ipc_reply_err src err) s else call (Ipc_reply src m) s)"

text \<open>The handlers of the requests that are more than a line in the main loop. A request that needs
  the caller and comes from the kernel, which sends none of them, would dereference a null
  pointer.\<close>

definition handle_exception :: "vm_layout \<Rightarrow> nat \<Rightarrow> nat \<Rightarrow> vm \<Rightarrow> vm option" where
  "handle_exception ly src t s =
     (if src \<noteq> KERNEL_TASK then Some s
      else do {
        t \<leftarrow> task_lookup t s;
        ASSERT (vt_pager (v_tasks s t) = VM_TASK);
        task_kill ly t s
      })"

definition handle_page_fault_msg ::
  "vm_layout \<Rightarrow> vm_env \<Rightarrow> nat \<Rightarrow> nat \<Rightarrow> nat \<Rightarrow> u32 \<Rightarrow> vm \<Rightarrow> vm option" where
  "handle_page_fault_msg ly env src t vaddr fault s =
     (if src \<noteq> KERNEL_TASK then Some s
      else do {
        t \<leftarrow> task_lookup t s;
        ASSERT (vt_pager (v_tasks s t) = VM_TASK);
        (paddr, s) \<leftarrow> handle_page_fault ly env t vaddr fault s;
        if paddr = 0 then Some (call (Ipc_reply_err src ERR_NOT_FOUND) s)
        else do {
          (err, s) \<leftarrow> map_page ly env t (vaddr div PGSIZE * PGSIZE) paddr MAP_READWRITE False s;
          ASSERT (err = OK);
          Some (call (Ipc_reply t PAGE_FAULT_REPLY_MSG) s)
        }
      })"

definition handle_vm_alloc_pages ::
  "vm_layout \<Rightarrow> vm_env \<Rightarrow> nat \<Rightarrow> nat \<Rightarrow> nat \<Rightarrow> vm \<Rightarrow> vm option" where
  "handle_vm_alloc_pages ly env src num_pages paddr s =
     do {
       t \<leftarrow> task_lookup src s;
       (err, vaddr, paddr, s) \<leftarrow> task_page_alloc ly env t 0 paddr num_pages s;
       Some (answer_result src err (VM_ALLOC_PAGES_REPLY_MSG vaddr paddr) s)
     }"

definition handle_task_alloc :: "nat \<Rightarrow> nat \<Rightarrow> vm \<Rightarrow> vm option" where
  "handle_task_alloc src pager s =
     (case task_alloc pager s of
        None \<Rightarrow> Some (call (Ipc_reply_err src ERR_NOT_FOUND) s)
      | Some (t, s) \<Rightarrow> Some (call (Ipc_reply src (TASK_ALLOC_REPLY_MSG t)) s))"

definition handle_task_free :: "nat \<Rightarrow> nat \<Rightarrow> vm \<Rightarrow> vm option" where
  "handle_task_free src t s =
     do {
       t \<leftarrow> task_lookup t s;
       if vt_pager (v_tasks s t) \<noteq> src then Some (call (Ipc_reply_err src ERR_NOT_PERMITTED) s)
       else Some (call (Ipc_reply src TASK_FREE_REPLY_MSG) (task_free t s))
     }"

definition handle_task_launch :: "vm_layout \<Rightarrow> vm_env \<Rightarrow> nat \<Rightarrow> cbuf \<Rightarrow> vm \<Rightarrow> vm option" where
  "handle_task_launch ly env src name_and_cmdline s =
     do {
       (r, s) \<leftarrow> task_spawn_by_cmdline ly env name_and_cmdline s;
       Some (case r of
         Inl err \<Rightarrow> call (Ipc_reply_err src err) s
       | Inr t \<Rightarrow> call (Ipc_reply src (TASK_LAUNCH_REPLY_MSG t)) s)
     }"

text \<open>One round of the main loop, for the message \<open>m\<close> from \<open>src\<close>. \<open>garbage\<close> is the content of the
  uninitialised variable of \<open>shm_create\<close>.\<close>

definition handle_message :: "vm_layout \<Rightarrow> vm_env \<Rightarrow> nat \<Rightarrow> nat \<Rightarrow> vm_msg \<Rightarrow> vm \<Rightarrow> vm option" where
  "handle_message ly env garbage src m s =
     do {
       caller \<leftarrow> (if src \<noteq> KERNEL_TASK then map_option Some (task_lookup src s) else Some None);
       case m of
         NOTIFICATIONS_MSG data \<Rightarrow>
           if data AND 1 \<noteq> 0 then map_option (\<lambda>_. s) (service_warn_deadlocked_tasks s) else Some s
       | ASYNC_MSG \<Rightarrow> Some (call (Async_reply src) s)
       | OOL_RECV_MSG addr len \<Rightarrow>
           do {
             (err, s) \<leftarrow> handle_ool_recv ly env src addr len s;
             Some (answer src err OOL_RECV_REPLY_MSG s)
           }
       | OOL_VERIFY_MSG from pid len \<Rightarrow>
           do {
             (err, at, s) \<leftarrow> handle_ool_verify src from pid len s;
             Some (answer src err (OOL_VERIFY_REPLY_MSG at) s)
           }
       | OOL_SEND_MSG dst addr len \<Rightarrow>
           do {
             (err, pid, s) \<leftarrow> handle_ool_send ly env src (dst, addr, len) s;
             Some (answer src err (OOL_SEND_REPLY_MSG pid) s)
           }
       | BENCHMARK_NOP_MSG value \<Rightarrow> Some (call (Ipc_reply src (BENCHMARK_NOP_REPLY_MSG (value * 7))) s)
       | BENCHMARK_NOP_WITH_OOL_MSG \<Rightarrow>
           Some (call (Ipc_reply src (BENCHMARK_NOP_WITH_OOL_REPLY_MSG
             [0x72, 0x65, 0x70, 0x6c, 0x79, 0x21, 0] 7)) s)
       | EXCEPTION_MSG t _ \<Rightarrow> handle_exception ly src t s
       | PAGE_FAULT_MSG t vaddr _ fault \<Rightarrow> handle_page_fault_msg ly env src t vaddr fault s
       | DISCOVERY_SERVE_MSG name \<Rightarrow>
           do {
             t \<leftarrow> caller;
             s \<leftarrow> service_register t name s;
             Some (call (Ipc_reply src DISCOVERY_SERVE_REPLY_MSG) s)
           }
       | DISCOVERY_LOOKUP_MSG name \<Rightarrow>
           do {
             t \<leftarrow> caller;
             (server, s) \<leftarrow> service_wait t name s;
             Some (case server of
               None \<Rightarrow> s
             | Some server \<Rightarrow> call (Ipc_reply src (DISCOVERY_LOOKUP_REPLY_MSG server)) s)
           }
       | VM_ALLOC_PAGES_MSG num_pages paddr \<Rightarrow> handle_vm_alloc_pages ly env src num_pages paddr s
       | TASK_ALLOC_MSG pager \<Rightarrow> handle_task_alloc src pager s
       | TASK_FREE_MSG t \<Rightarrow> handle_task_free src t s
       | TASK_LAUNCH_MSG name_and_cmdline \<Rightarrow> handle_task_launch ly env src name_and_cmdline s
       | TASK_WATCH_MSG t \<Rightarrow>
           do {
             t \<leftarrow> task_lookup t s;
             c \<leftarrow> caller;
             Some (call (Ipc_reply src TASK_WATCH_REPLY_MSG) (task_watch c t s))
           }
       | TASK_UNWATCH_MSG t \<Rightarrow>
           do {
             t \<leftarrow> task_lookup t s;
             c \<leftarrow> caller;
             Some (call (Ipc_reply src TASK_UNWATCH_REPLY_MSG) (task_unwatch c t s))
           }
       | SHM_CREATE_MSG sz \<Rightarrow>
           do {
             t \<leftarrow> task_lookup src s;
             (err, slot, s) \<leftarrow> shm_create ly env garbage t sz s;
             Some (answer_result src err (SHM_CREATE_REPLY_MSG slot) s)
           }
       | SHM_MAP_MSG shm_id writable \<Rightarrow>
           do {
             t \<leftarrow> task_lookup src s;
             (err, vaddr, s) \<leftarrow> shm_map ly env t shm_id writable s;
             Some (answer_result src err (SHM_MAP_REPLY_MSG vaddr) s)
           }
       | SHM_CLOSE_MSG shm_id \<Rightarrow> Some (call (Ipc_reply src SHM_CLOSE_REPLY_MSG) (shm_close shm_id s))
       | _ \<Rightarrow> Some s
     }"

text \<open>\<^verbatim>\<open>main\<close>: the initialisation, then one round for every message that arrives.\<close>

definition main_init ::
  "vm_layout \<Rightarrow> vm_env \<Rightarrow> (bool \<times> nat \<times> nat) list \<Rightarrow> cbuf \<Rightarrow> vm \<Rightarrow> vm option" where
  "main_init ly env memmap autostarts s =
     do {
       let s = page_alloc_init ly memmap (bootfs_init s);
       s \<leftarrow> task_init ly s;
       s \<leftarrow> page_fault_init ly s;
       s \<leftarrow> spawn_servers ly env autostarts s;
       Some (call (Timer_set 5000) s)
     }"

fun main_loop :: "vm_layout \<Rightarrow> vm_env \<Rightarrow> nat \<Rightarrow> (nat \<times> vm_msg) list \<Rightarrow> vm \<Rightarrow> vm option" where
  "main_loop ly env garbage [] s = Some s"
| "main_loop ly env garbage ((src, m) # ms) s =
     do {
       s \<leftarrow> handle_message ly env garbage src m s;
       main_loop ly env garbage ms s
     }"

end
