(* ===== verification/Vm_Inv.thy ===== *)
theory Vm_Inv
  imports Vm_Server
begin

text \<open>
  Accounting of physical pages in the memory server: every page that is part of some task's area
  has a reference count at least the number of those areas, so it is never handed out as free
  memory, and the counter of unused pages is the number of pages with reference count 0. The
  invariant is kept by the handling of every message.
\<close>

section \<open>The invariant\<close>

definition pfn_of :: "vm_layout \<Rightarrow> nat \<Rightarrow> nat" where
  "pfn_of ly paddr = (paddr - l_straight_mapping ly) div PGSIZE"

definition area_ok :: "vm_layout \<Rightarrow> page_area \<Rightarrow> bool" where
  "area_ok ly a \<longleftrightarrow> l_straight_mapping ly \<le> pa_paddr a \<and> pa_paddr a mod PGSIZE = 0 \<and>
     pfn_of ly (pa_paddr a) + pa_num_pages a \<le> PAGES_MAX"

definition covers :: "vm_layout \<Rightarrow> page_area \<Rightarrow> nat \<Rightarrow> bool" where
  "covers ly a p \<longleftrightarrow> pfn_of ly (pa_paddr a) \<le> p \<and> p < pfn_of ly (pa_paddr a) + pa_num_pages a"

definition cover :: "vm_layout \<Rightarrow> page_area list \<Rightarrow> nat \<Rightarrow> nat" where
  "cover ly areas p = length (filter (\<lambda>a. covers ly a p) areas)"

abbreviation areas :: "vm \<Rightarrow> nat \<Rightarrow> page_area list" where
  "areas s t \<equiv> vt_page_areas (v_tasks s t)"

text \<open>The number of areas that a page is part of.\<close>

definition users :: "vm_layout \<Rightarrow> vm \<Rightarrow> nat \<Rightarrow> nat" where
  "users ly s p = (\<Sum>t\<in>{1..NUM_TASKS}. cover ly (areas s t) p)"

definition unused :: "(nat \<Rightarrow> nat) \<Rightarrow> nat" where
  "unused refs = card {p. p < PAGES_MAX \<and> refs p = 0}"

definition layout_ok :: "vm_layout \<Rightarrow> bool" where
  "layout_ok ly \<longleftrightarrow> l_straight_mapping ly mod PGSIZE = 0 \<and> 0 < l_straight_mapping ly"

definition pages_inv :: "vm_layout \<Rightarrow> vm \<Rightarrow> bool" where
  "pages_inv ly s \<longleftrightarrow>
     (\<forall>t\<in>{1..NUM_TASKS}. \<forall>a\<in>set (areas s t). area_ok ly a) \<and>
     (\<forall>p. users ly s p \<le> v_refs s p) \<and>
     v_num_unused_pages s = unused (v_refs s)"

lemma pages_invI:
  assumes "\<And>t a. t \<in> {1..NUM_TASKS} \<Longrightarrow> a \<in> set (areas s t) \<Longrightarrow> area_ok ly a"
    and "\<And>p. users ly s p \<le> v_refs s p" and "v_num_unused_pages s = unused (v_refs s)"
  shows "pages_inv ly s"
  using assms by (simp add: pages_inv_def)

lemma pages_invD:
  assumes "pages_inv ly s"
  shows pages_inv_area: "t \<in> {1..NUM_TASKS} \<Longrightarrow> a \<in> set (areas s t) \<Longrightarrow> area_ok ly a"
    and pages_inv_users: "users ly s p \<le> v_refs s p"
    and pages_inv_unused: "v_num_unused_pages s = unused (v_refs s)"
  using assms by (auto simp: pages_inv_def)

section \<open>Reference counts\<close>

lemma unused_le: "unused refs \<le> PAGES_MAX"
proof -
  have "{p. p < PAGES_MAX \<and> refs p = 0} \<subseteq> {..<PAGES_MAX}" by auto
  from card_mono [OF _ this] show ?thesis by (simp add: unused_def)
qed

lemma unused_bump:
  assumes "p < PAGES_MAX"
  shows unused_take: "refs p = 0 \<Longrightarrow> unused refs = Suc (unused (refs(p := Suc n)))"
    and unused_release: "0 < refs p \<Longrightarrow> unused (refs(p := 0)) = Suc (unused refs)"
    and unused_keep: "0 < refs p \<Longrightarrow> 0 < n \<Longrightarrow> unused (refs(p := n)) = unused refs"
proof -
  let ?Z = "\<lambda>refs. {p. p < PAGES_MAX \<and> refs p = 0}"
  have fin: "finite (?Z r)" for r :: "nat \<Rightarrow> nat" by simp
  show "unused refs = Suc (unused (refs(p := Suc n)))" if "refs p = 0"
  proof -
    have "?Z refs = insert p (?Z (refs(p := Suc n)))" using assms that by auto
    then show ?thesis unfolding unused_def using fin [of "refs(p := Suc n)"] by simp
  qed
  show "unused (refs(p := 0)) = Suc (unused refs)" if "0 < refs p"
  proof -
    have "?Z (refs(p := 0)) = insert p (?Z refs)" using assms that by auto
    then show ?thesis unfolding unused_def using fin [of refs] that by simp
  qed
  show "unused (refs(p := n)) = unused refs" if "0 < refs p" "0 < n"
  proof -
    have "?Z (refs(p := n)) = ?Z refs" using that by auto
    then show ?thesis unfolding unused_def by simp
  qed
qed

text \<open>The reference counts after a run of pages gained or lost a reference.\<close>

definition gained :: "nat \<Rightarrow> nat \<Rightarrow> (nat \<Rightarrow> nat) \<Rightarrow> nat \<Rightarrow> nat" where
  "gained pfn n refs p = (if pfn \<le> p \<and> p < pfn + n then refs p + 1 else refs p)"

definition lost :: "nat \<Rightarrow> nat \<Rightarrow> (nat \<Rightarrow> nat) \<Rightarrow> nat \<Rightarrow> nat" where
  "lost pfn n refs p = (if pfn \<le> p \<and> p < pfn + n then refs p - 1 else refs p)"

lemma pages_max_small: "PAGES_MAX < 2 ^ 64" "PAGES_MAX < 2 ^ 32"
  by (simp_all add: PAGES_MAX_def)

lemma incref_loop_spec:
  assumes "pfn + n \<le> PAGES_MAX" "\<And>p. pfn \<le> p \<Longrightarrow> p < pfn + n \<Longrightarrow> v_refs s p + 1 < 2 ^ 32"
    and "v_num_unused_pages s = unused (v_refs s)"
  shows "incref_loop pfn n s =
    s\<lparr>v_refs := gained pfn n (v_refs s), v_num_unused_pages := unused (gained pfn n (v_refs s))\<rparr>"
  using assms
proof (induction n arbitrary: pfn s)
  case 0
  have "gained pfn 0 (v_refs s) = v_refs s" by (auto simp: gained_def)
  then show ?case using 0 by (cases s) simp
next
  case (Suc n)
  let ?refs = "(v_refs s)(pfn := v_refs s pfn + 1)"
  let ?s = "s\<lparr>v_num_unused_pages := unused ?refs, v_refs := ?refs\<rparr>"
  have p: "pfn < PAGES_MAX" using Suc.prems(1) by simp
  have u: "(if v_refs s pfn = 0 then (v_num_unused_pages s + (2 ^ 64 - 1)) mod 2 ^ 64 else v_num_unused_pages s)
      = unused ?refs"
  proof (cases "v_refs s pfn = 0")
    case True
    then have e: "unused (v_refs s) = Suc (unused ?refs)" using unused_take [OF p, of "v_refs s" 0] by simp
    have "Suc (unused ?refs) + (2 ^ 64 - 1) = unused ?refs + 2 ^ 64" by simp
    moreover have "unused ?refs < 2 ^ 64" using unused_le [of ?refs] pages_max_small(1) by linarith
    ultimately show ?thesis using True Suc.prems(3) e by simp
  next
    case False
    then show ?thesis using unused_keep [OF p, of "v_refs s" "v_refs s pfn + 1"] Suc.prems(3) by simp
  qed
  have r: "v_refs s pfn + 1 < 2 ^ 32" using Suc.prems(2) [of pfn] by simp
  have "incref_loop pfn (Suc n) s = incref_loop (Suc pfn) n ?s"
    using u r by simp
  also have "\<dots> = ?s\<lparr>v_refs := gained (Suc pfn) n ?refs, v_num_unused_pages := unused (gained (Suc pfn) n ?refs)\<rparr>"
    by (rule trans [OF Suc.IH]) (use Suc.prems(1,2) in \<open>auto simp: fun_upd_def\<close>)
  also have "gained (Suc pfn) n ?refs = gained pfn (Suc n) (v_refs s)" by (auto simp: gained_def fun_eq_iff)
  finally show ?case by (cases s) simp
qed

lemma decref_loop_spec:
  assumes "pfn + n \<le> PAGES_MAX" "\<And>p. pfn \<le> p \<Longrightarrow> p < pfn + n \<Longrightarrow> 0 < v_refs s p"
    and "v_num_unused_pages s = unused (v_refs s)"
  shows "decref_loop pfn n s =
    Some (s\<lparr>v_refs := lost pfn n (v_refs s), v_num_unused_pages := unused (lost pfn n (v_refs s))\<rparr>)"
  using assms
proof (induction n arbitrary: pfn s)
  case 0
  have "lost pfn 0 (v_refs s) = v_refs s" by (auto simp: lost_def)
  then show ?case using 0 by (cases s) simp
next
  case (Suc n)
  let ?refs = "(v_refs s)(pfn := v_refs s pfn - 1)"
  let ?s = "s\<lparr>v_num_unused_pages := unused ?refs, v_refs := ?refs\<rparr>"
  have p: "pfn < PAGES_MAX" using Suc.prems(1) by simp
  have r: "0 < v_refs s pfn" using Suc.prems(2) [of pfn] by simp
  have u: "(if v_refs s pfn = 1 then (v_num_unused_pages s + 1) mod 2 ^ 64 else v_num_unused_pages s)
      = unused ?refs"
  proof (cases "v_refs s pfn = 1")
    case True
    have "unused ((v_refs s)(pfn := 0)) \<le> PAGES_MAX" by (rule unused_le)
    then show ?thesis using True unused_release [OF p, of "v_refs s"] Suc.prems(3) pages_max_small(1) by simp
  next
    case False
    then show ?thesis using unused_keep [OF p, of "v_refs s" "v_refs s pfn - 1"] Suc.prems(3) r by simp
  qed
  have "decref_loop pfn (Suc n) s = decref_loop (Suc pfn) n ?s"
    using u r by simp
  also have "\<dots> = Some (?s\<lparr>v_refs := lost (Suc pfn) n ?refs, v_num_unused_pages := unused (lost (Suc pfn) n ?refs)\<rparr>)"
    by (rule trans [OF Suc.IH]) (use Suc.prems(1,2) in \<open>auto simp: fun_upd_def\<close>)
  also have "lost (Suc pfn) n ?refs = lost pfn (Suc n) (v_refs s)" by (auto simp: lost_def fun_eq_iff)
  finally show ?case by (cases s) simp
qed

section \<open>Allocation of pages\<close>

lemma free_run_Some:
  assumes "free_run base limit n i s = Some k"
  shows "i \<le> k \<and> (\<forall>j. i \<le> j \<and> j < k \<longrightarrow> v_refs s (base + j) = 0) \<and> (i < k \<longrightarrow> base + k \<le> limit)"
  using assms
proof (induction base limit n i s rule: free_run.induct)
  case (1 base limit n i s)
  show ?case
  proof (cases "base + i < limit \<and> base + i < PAGES_MAX \<and> v_refs s (base + i) = 0 \<and> i + 1 \<noteq> n")
    case True
    then have "free_run base limit n (i + 1) s = Some k"
      using 1(2) by (subst (asm) free_run.simps) simp
    from 1(1) [OF _ _ _ _ this] True
    have IH: "i + 1 \<le> k \<and> (\<forall>j. i + 1 \<le> j \<and> j < k \<longrightarrow> v_refs s (base + j) = 0) \<and> (i + 1 < k \<longrightarrow> base + k \<le> limit)"
      by simp
    have "v_refs s (base + j) = 0" if "i \<le> j" "j < k" for j
      using IH True that by (cases "j = i") auto
    moreover have "base + k \<le> limit" using IH True by (cases "k = i + 1") auto
    ultimately show ?thesis using IH by auto
  next
    case False
    have "k = i \<or> (k = i + 1 \<and> v_refs s (base + i) = 0 \<and> base + i < limit)"
      using 1(2) False by (subst (asm) free_run.simps) (auto split: if_splits)
    then show ?thesis by (auto simp: less_Suc_eq)
  qed
qed

lemma free_run_finds:
  assumes "\<And>j. j < n \<Longrightarrow> v_refs s (base + j) = 0" "base + n \<le> limit" "limit \<le> PAGES_MAX" "i < n"
  shows "free_run base limit n i s = Some n"
  using assms
proof (induction base limit n i s rule: free_run.induct)
  case (1 base limit n i s)
  have c: "base + i < limit" "base + i < PAGES_MAX" "v_refs s (base + i) = 0"
    using "1.prems" by auto
  show ?case
  proof (cases "i + 1 = n")
    case True
    then show ?thesis using c by (subst free_run.simps) simp
  next
    case False
    then have "free_run base limit n (i + 1) s = Some n"
      using "1.IH" "1.prems" c by simp
    then show ?thesis using c False by (subst free_run.simps) simp
  qed
qed

lemma free_run_total: "limit \<le> PAGES_MAX \<Longrightarrow> \<exists>k. free_run base limit n i s = Some k"
proof (induction base limit n i s rule: free_run.induct)
  case (1 base limit n i s)
  show ?case
    using 1(1) "1.prems" by (subst free_run.simps) auto
qed

lemma region_loop_Some:
  assumes "region_loop base limit n s = Some (Some b)"
  shows "base \<le> b \<and> b < limit \<and> (\<forall>p. b \<le> p \<and> p < b + n \<longrightarrow> v_refs s p = 0) \<and> b + n \<le> limit"
  using assms
proof (induction base limit n s rule: region_loop.induct)
  case (1 base limit n s)
  from 1(2) obtain i where l: "base < limit" and i: "free_run base limit n 0 s = Some i"
    and c: "if i = n then b = base else region_loop (base + 1) limit n s = Some (Some b)"
    by (subst (asm) region_loop.simps) (auto split: if_splits option.splits)
  show ?case
  proof (cases "i = n")
    case True
    have z: "\<forall>j. j < n \<longrightarrow> v_refs s (base + j) = 0" "0 < n \<longrightarrow> base + n \<le> limit"
      using free_run_Some [OF i] True by auto
    have "v_refs s p = 0" if "base \<le> p" "p < base + n" for p
      using z(1) [rule_format, of "p - base"] that by simp
    then show ?thesis using z(2) True c l by auto
  next
    case False
    then show ?thesis using "1.IH" [OF l i False] c by auto
  qed
qed

lemma region_loop_finds:
  assumes "base \<le> b" "\<And>p. b \<le> p \<Longrightarrow> p < b + n \<Longrightarrow> v_refs s p = 0" "b + n \<le> limit" "limit \<le> PAGES_MAX" "0 < n"
  shows "\<exists>b'. region_loop base limit n s = Some (Some b') \<and> b' \<le> b"
  using assms
proof (induction base limit n s rule: region_loop.induct)
  case (1 base limit n s)
  have l: "base < limit" using "1.prems" by simp
  obtain i where i: "free_run base limit n 0 s = Some i"
    using free_run_total [OF "1.prems"(4)] by blast
  show ?case
  proof (cases "i = n")
    case True
    then show ?thesis using i l "1.prems"(1) by (subst region_loop.simps) simp
  next
    case False
    have "base \<noteq> b"
    proof
      assume "base = b"
      then have "free_run base limit n 0 s = Some n"
        using "1.prems" by (intro free_run_finds) auto
      then show False using i False by simp
    qed
    then have "\<exists>b'. region_loop (base + 1) limit n s = Some (Some b') \<and> b' \<le> b"
      using "1.IH" [OF l i False] "1.prems" by simp
    then show ?thesis using i l False by (subst region_loop.simps) simp
  qed
qed

lemma region_loop_total: "limit \<le> PAGES_MAX \<Longrightarrow> \<exists>r. region_loop base limit n s = Some r"
proof (induction base limit n s rule: region_loop.induct)
  case (1 base limit n s)
  obtain i where i: "free_run base limit n 0 s = Some i"
    using free_run_total [OF "1.prems"] by blast
  show ?case
    using "1.IH" [OF _ i] "1.prems" i by (subst region_loop.simps) auto
qed

definition region_ok :: "vm_layout \<Rightarrow> ram_region \<Rightarrow> bool" where
  "region_ok ly r \<longleftrightarrow> l_straight_mapping ly \<le> rr_base r \<and> rr_base r mod PGSIZE = 0 \<and>
     pfn_of ly (rr_base r) + rr_num_pages r \<le> PAGES_MAX"

text \<open>A run of \<open>n\<close> free pages in a region.\<close>

definition free_in :: "vm_layout \<Rightarrow> vm \<Rightarrow> nat \<Rightarrow> ram_region \<Rightarrow> nat \<Rightarrow> bool" where
  "free_in ly s n r b \<longleftrightarrow> pfn_of ly (rr_base r) \<le> b \<and> b + n \<le> pfn_of ly (rr_base r) + rr_num_pages r \<and>
     (\<forall>p. b \<le> p \<and> p < b + n \<longrightarrow> v_refs s p = 0)"

lemma paddr2pfn_ok:
  assumes "l_straight_mapping ly \<le> paddr" "paddr mod PGSIZE = 0" "pfn_of ly paddr < 2 ^ 32"
  shows "paddr2pfn ly paddr = Some (pfn_of ly paddr)"
  using assms by (simp add: paddr2pfn_def pfn_of_def)

lemma paddr2pfn_region:
  assumes "region_ok ly r"
  shows "paddr2pfn ly (rr_base r) = Some (pfn_of ly (rr_base r))"
    and "(pfn_of ly (rr_base r) + rr_num_pages r) mod 2 ^ 32 = pfn_of ly (rr_base r) + rr_num_pages r"
proof -
  have "pfn_of ly (rr_base r) + rr_num_pages r < 2 ^ 32"
    using assms pages_max_small(2) by (simp add: region_ok_def)
  then show "paddr2pfn ly (rr_base r) = Some (pfn_of ly (rr_base r))"
      "(pfn_of ly (rr_base r) + rr_num_pages r) mod 2 ^ 32 = pfn_of ly (rr_base r) + rr_num_pages r"
    using assms by (auto simp: region_ok_def intro: paddr2pfn_ok)
qed

lemma regions_loop_free:
  assumes "regions_loop ly rs n s = Some b" "p \<in> {b..<b + n}"
  shows "v_refs s p = 0"
  using assms
  by (induction rs) (auto split: option.splits bind_splits dest: region_loop_Some)

lemma regions_loop_sound:
  assumes "regions_loop ly rs n s = Some b" "\<And>r. r \<in> set rs \<Longrightarrow> region_ok ly r"
  shows "\<exists>r\<in>set rs. free_in ly s n r b"
  using assms
proof (induction rs)
  case (Cons r rs)
  note r = paddr2pfn_region [OF Cons.prems(2) [of r, simplified]]
  from Cons.prems(1) obtain found where
    f: "region_loop (pfn_of ly (rr_base r)) (pfn_of ly (rr_base r) + rr_num_pages r) n s = Some found"
    and c: "case found of None \<Rightarrow> regions_loop ly rs n s = Some b | Some base \<Rightarrow> base = b"
    using r by (auto split: bind_splits option.splits)
  show ?case
  proof (cases found)
    case None
    then show ?thesis using c Cons by auto
  next
    case (Some base)
    then have "free_in ly s n r b" using f c region_loop_Some by (fastforce simp: free_in_def)
    then show ?thesis by auto
  qed
qed simp

lemma regions_loop_complete:
  assumes "r \<in> set rs" "free_in ly s n r b" "0 < n" "\<And>r. r \<in> set rs \<Longrightarrow> region_ok ly r"
  shows "\<exists>b. regions_loop ly rs n s = Some b"
  using assms
proof (induction rs)
  case (Cons r' rs)
  have ok: "region_ok ly r'" using Cons.prems(4) by simp
  let ?f = "pfn_of ly (rr_base r')" and ?l = "pfn_of ly (rr_base r') + rr_num_pages r'"
  have l: "?l \<le> PAGES_MAX" using ok by (simp add: region_ok_def)
  obtain found where f: "region_loop ?f ?l n s = Some found"
    using region_loop_total [OF l] by blast
  have step: "regions_loop ly (r' # rs) n s =
      (case found of None \<Rightarrow> regions_loop ly rs n s | Some base \<Rightarrow> Some base)"
    using f paddr2pfn_region [OF ok] by simp
  show ?case
  proof (cases found)
    case None
    have "r \<noteq> r'"
    proof
      assume "r = r'"
      then have "\<exists>b'. region_loop ?f ?l n s = Some (Some b') \<and> b' \<le> b"
        using Cons.prems(2,3) l by (intro region_loop_finds) (auto simp: free_in_def)
      then show False using f None by simp
    qed
    then show ?thesis using Cons None step by auto
  qed (use step in auto)
qed simp

lemma page_alloc_Some:
  assumes "page_alloc ly n s = Some (paddr, s')" "v_num_unused_pages s = unused (v_refs s)"
  obtains base where "paddr = l_straight_mapping ly + base * PGSIZE" "base + n \<le> PAGES_MAX"
    "\<And>p. base \<le> p \<Longrightarrow> p < base + n \<Longrightarrow> v_refs s p = 0"
    "s' = s\<lparr>v_refs := gained base n (v_refs s), v_num_unused_pages := unused (gained base n (v_refs s))\<rparr>"
    "regions_loop ly (v_regions s) n s = Some base"
proof -
  from assms(1) obtain base where b: "regions_loop ly (v_regions s) n s = Some base"
    and m: "base + n \<le> PAGES_MAX" and p: "paddr = l_straight_mapping ly + base * PGSIZE"
    and s': "s' = incref_loop base n s"
    by (auto simp: page_alloc_def page_incref_def split: bind_splits if_splits)
  note z = regions_loop_free [OF b]
  show ?thesis
    by (rule that [OF p m]) (use z incref_loop_spec [OF m _ assms(2)] s' b in auto)
qed

section \<open>Keeping the invariant\<close>

text \<open>The invariant with a bound on the reference counts, which are 32 bits wide.\<close>

definition vinv :: "vm_layout \<Rightarrow> nat \<Rightarrow> vm \<Rightarrow> bool" where
  "vinv ly B s \<longleftrightarrow> layout_ok ly \<and> 0 < B \<and> B + 1 < 2 ^ 32 \<and> pages_inv ly s \<and> (\<forall>p. v_refs s p \<le> B)"

lemma vinvD:
  assumes "vinv ly B s"
  shows vinv_pages: "pages_inv ly s" and vinv_refs: "v_refs s p \<le> B" and vinv_layout: "layout_ok ly"
    and vinv_bound: "0 < B" "B + 1 < 2 ^ 32"
  using assms by (auto simp: vinv_def)

lemma vinv_cong:
  assumes "\<And>t. areas s' t = areas s t" "v_refs s' = v_refs s" "v_num_unused_pages s' = v_num_unused_pages s"
  shows "vinv ly B s' = vinv ly B s"
  using assms by (simp add: vinv_def pages_inv_def users_def)

lemma vinv_call [simp]: "vinv ly B (call c s) = vinv ly B s"
  by (rule vinv_cong) simp_all

lemma vinv_update [simp]:
  "vinv ly B (s\<lparr>v_services := x1\<rparr>) = vinv ly B s"
  "vinv ly B (s\<lparr>v_shared_mems := x2\<rparr>) = vinv ly B s"
  "vinv ly B (s\<lparr>v_window := x3\<rparr>) = vinv ly B s"
  "vinv ly B (s\<lparr>v_own := x4\<rparr>) = vinv ly B s"
  "vinv ly B (s\<lparr>v_mem := x5\<rparr>) = vinv ly B s"
  "vinv ly B (s\<lparr>v_tmp_page := x6\<rparr>) = vinv ly B s"
  by (rule vinv_cong; simp)+

lemma vinv_upd_vtask:
  assumes "\<And>k. vt_page_areas (f k) = vt_page_areas k"
  shows "vinv ly B (upd_vtask t f s) = vinv ly B s"
  by (rule vinv_cong) (simp_all add: assms)

lemma users_upd:
  assumes "t \<in> {1..NUM_TASKS}" "areas s' t = xs" "\<And>t'. t' \<noteq> t \<Longrightarrow> areas s' t' = areas s t'"
  shows "users ly s' p + cover ly (areas s t) p = users ly s p + cover ly xs p"
proof -
  let ?T = "{1..NUM_TASKS} - {t}"
  have s: "users ly x p = cover ly (areas x t) p + (\<Sum>t'\<in>?T. cover ly (areas x t') p)" for x
    unfolding users_def using assms(1) by (intro sum.remove) auto
  have "(\<Sum>t'\<in>?T. cover ly (areas s' t') p) = (\<Sum>t'\<in>?T. cover ly (areas s t') p)"
    by (intro sum.cong) (use assms(3) in auto)
  then show ?thesis using s [of s] s [of s'] assms(2) by simp
qed

lemma users_ge: "t \<in> {1..NUM_TASKS} \<Longrightarrow> cover ly (areas s t) p \<le> users ly s p"
  unfolding users_def by (intro member_le_sum) auto

lemma cover_simps [simp]:
  "cover ly [] p = 0" "cover ly (xs @ ys) p = cover ly xs p + cover ly ys p"
  "cover ly (a # xs) p = (if covers ly a p then 1 else 0) + cover ly xs p"
  by (simp_all add: cover_def)

lemma pfn_of_base [simp]: "pfn_of ly (l_straight_mapping ly + base * PGSIZE) = base"
  by (simp add: pfn_of_def PGSIZE_def)

text \<open>Dropping the areas of a task, as \<open>init_task_struct\<close> does.\<close>

lemma vinv_clear:
  assumes "vinv ly B s" "t \<in> {1..NUM_TASKS}" "\<And>k. vt_page_areas (f k) = []"
  shows "vinv ly B (upd_vtask t f s)"
proof -
  let ?s = "upd_vtask t f s"
  have inv: "pages_inv ly s" using assms(1) by (rule vinv_pages)
  have "users ly ?s p \<le> v_refs s p" for p
  proof -
    have "users ly ?s p + cover ly (areas s t) p = users ly s p + cover ly [] p"
      by (rule users_upd [OF assms(2)]) (simp_all add: assms(3))
    then show ?thesis using pages_inv_users [OF inv, of p] by simp
  qed
  then have "pages_inv ly ?s"
    using inv by (intro pages_invI) (auto simp: assms(3) pages_inv_def split: if_splits)
  then show ?thesis using assms(1) by (simp add: vinv_def)
qed

text \<open>Adding an area for pages that have a reference to spare.\<close>

lemma vinv_add_area:
  assumes "vinv ly B s" "t \<in> {1..NUM_TASKS}" "paddr = l_straight_mapping ly + base * PGSIZE" "base + n \<le> PAGES_MAX"
    and "\<And>p. base \<le> p \<Longrightarrow> p < base + n \<Longrightarrow> users ly s p < v_refs s p"
  shows "vinv ly B (add_area t vaddr paddr n s)"
proof -
  let ?a = "\<lparr>pa_vaddr = vaddr, pa_paddr = paddr, pa_num_pages = n\<rparr>" and ?s = "add_area t vaddr paddr n s"
  have inv: "pages_inv ly s" and al: "l_straight_mapping ly mod PGSIZE = 0"
    using assms(1) by (auto simp: vinv_def layout_ok_def)
  have ok: "area_ok ly ?a" using assms(3,4) al by (simp add: area_ok_def)
  have "users ly ?s p \<le> v_refs s p" for p
  proof -
    have "users ly ?s p + cover ly (areas s t) p = users ly s p + cover ly (areas s t @ [?a]) p"
      by (rule users_upd [OF assms(2)]) (simp_all add: add_area_def)
    then show ?thesis using pages_inv_users [OF inv, of p] assms(5) [of p] by (auto simp: covers_def assms(3))
  qed
  then have "pages_inv ly ?s"
    using inv ok by (intro pages_invI) (auto simp: add_area_def pages_inv_def split: if_splits)
  then show ?thesis using assms(1) by (simp add: vinv_def add_area_def)
qed

text \<open>Allocated pages are free of users, and have a reference to spare.\<close>

lemma page_alloc_vinv:
  assumes "page_alloc ly n s = Some (paddr, s')" "vinv ly B s"
  obtains base where "vinv ly B s'" "paddr = l_straight_mapping ly + base * PGSIZE" "base + n \<le> PAGES_MAX"
    "\<And>p. base \<le> p \<Longrightarrow> p < base + n \<Longrightarrow> users ly s' p < v_refs s' p" "v_tasks s' = v_tasks s"
    "v_refs s' = gained base n (v_refs s)" "\<And>p. base \<le> p \<Longrightarrow> p < base + n \<Longrightarrow> v_refs s p = 0"
    "v_window s' = v_window s" "v_mem s' = v_mem s"
proof -
  have inv: "pages_inv ly s" using assms(2) by (rule vinv_pages)
  from page_alloc_Some [OF assms(1) pages_inv_unused [OF inv]]
  obtain base where b: "paddr = l_straight_mapping ly + base * PGSIZE" "base + n \<le> PAGES_MAX"
    and z: "\<And>p. base \<le> p \<Longrightarrow> p < base + n \<Longrightarrow> v_refs s p = 0"
    and s': "s' = s\<lparr>v_refs := gained base n (v_refs s), v_num_unused_pages := unused (gained base n (v_refs s))\<rparr>"
    by metis
  have us: "users ly s' p = users ly s p" for p by (simp add: users_def s')
  have "pages_inv ly s'"
  proof (rule pages_invI)
    show "users ly s' p \<le> v_refs s' p" for p
      using pages_inv_users [OF inv, of p] us [of p] by (simp add: s' gained_def)
  qed (use inv in \<open>auto simp: s' pages_inv_def\<close>)
  moreover have "v_refs s' p \<le> B" for p
    using vinv_refs [OF assms(2), of p] vinv_bound [OF assms(2)] z [of p] by (simp add: s' gained_def)
  ultimately have v: "vinv ly B s'" using assms(2) by (simp add: vinv_def)
  have sp: "users ly s' p < v_refs s' p" if "base \<le> p" "p < base + n" for p
    using pages_inv_users [OF inv, of p] us [of p] z that by (simp add: s' gained_def)
  show ?thesis by (rule that [OF v b sp _ _ z]) (simp_all add: s')
qed

lemma area_pfn:
  assumes "area_ok ly a"
  shows "paddr2pfn ly (pa_paddr a) = Some (pfn_of ly (pa_paddr a))"
  using assms pages_max_small(2) by (intro paddr2pfn_ok) (auto simp: area_ok_def)

text \<open>Freeing an area never fails an assertion: its pages have references.\<close>

lemma free_page_area_vinv:
  assumes "vinv ly B s" "t \<in> {1..NUM_TASKS}" "k < length (areas s t)"
  obtains s' where "free_page_area ly t k s = Some s'" "vinv ly B s'"
    "v_tasks s' = (v_tasks s)(t := (v_tasks s t)\<lparr>vt_page_areas := take k (areas s t) @ drop (Suc k) (areas s t)\<rparr>)"
    "v_refs s' = lost (pfn_of ly (pa_paddr (areas s t ! k))) (pa_num_pages (areas s t ! k)) (v_refs s)"
    "s' = s\<lparr>v_tasks := v_tasks s', v_refs := v_refs s', v_num_unused_pages := v_num_unused_pages s'\<rparr>"
proof -
  let ?a = "areas s t ! k" and ?xs = "take k (areas s t) @ drop (Suc k) (areas s t)"
  let ?pfn = "pfn_of ly (pa_paddr ?a)" and ?n = "pa_num_pages ?a"
  let ?refs = "lost ?pfn ?n (v_refs s)"
  let ?s0 = "s\<lparr>v_refs := ?refs, v_num_unused_pages := unused ?refs\<rparr>"
  let ?s = "upd_vtask t (\<lambda>k'. k'\<lparr>vt_page_areas := take k (vt_page_areas k') @ drop (Suc k) (vt_page_areas k')\<rparr>) ?s0"
  have inv: "pages_inv ly s" using assms(1) by (rule vinv_pages)
  have ok: "area_ok ly ?a" using pages_inv_area [OF inv assms(2)] assms(3) by simp
  have cov: "cover ly (areas s t) p = cover ly ?xs p + (if covers ly ?a p then 1 else 0)" for p
  proof -
    have "cover ly (areas s t) p = cover ly (take k (areas s t) @ ?a # drop (Suc k) (areas s t)) p"
      using id_take_nth_drop [OF assms(3)] by simp
    then show ?thesis by simp
  qed
  have pos: "0 < v_refs s p" if "?pfn \<le> p" "p < ?pfn + ?n" for p
    using pages_inv_users [OF inv, of p] users_ge [OF assms(2), of ly s p] cov [of p] that
    by (simp add: covers_def)
  have le: "?pfn + ?n \<le> PAGES_MAX" using ok by (simp add: area_ok_def)
  have e: "free_page_area ly t k s = Some ?s"
    using area_pfn [OF ok] le decref_loop_spec [OF le pos pages_inv_unused [OF inv]]
    by (simp add: free_page_area_def page_decref_def Let_def)
  have "users ly ?s p \<le> ?refs p" for p
  proof -
    have "users ly ?s p + cover ly (areas s t) p = users ly s p + cover ly ?xs p"
      by (rule users_upd [OF assms(2)]) simp_all
    then have "users ly s p = users ly ?s p + (if covers ly ?a p then 1 else 0)" using cov [of p] by simp
    then show ?thesis using pages_inv_users [OF inv, of p]
      by (cases "covers ly ?a p") (auto simp: lost_def covers_def)
  qed
  then have "pages_inv ly ?s"
    using inv by (intro pages_invI) (auto simp: pages_inv_def split: if_splits dest: in_set_takeD in_set_dropD)
  moreover have "?refs p \<le> B" for p using vinv_refs [OF assms(1), of p] by (auto simp: lost_def)
  ultimately have v: "vinv ly B ?s" using assms(1) by (simp add: vinv_def)
  show ?thesis by (rule that [OF e v]) (simp_all add: upd_vtask_def)
qed

lemma area_pos_less: "area_pos xs paddr = Some k \<Longrightarrow> k < length xs \<and> pa_paddr (xs ! k) = paddr"
  by (induction xs arbitrary: k) (auto split: if_splits)

lemma task_page_free_vinv:
  assumes "vinv ly B s" "t \<in> {1..NUM_TASKS}"
  obtains s' where "task_page_free ly t paddr s = Some s'" "vinv ly B s'"
proof (cases "area_pos (areas s t) paddr")
  case None
  then show ?thesis using that assms(1) by (simp add: task_page_free_def)
next
  case (Some k)
  from free_page_area_vinv [OF assms] area_pos_less [OF Some] Some that show ?thesis
    by (auto simp: task_page_free_def)
qed

lemma free_areas_loop_vinv:
  assumes "vinv ly B s" "t \<in> {1..NUM_TASKS}" "n = length (areas s t)"
  obtains s' where "free_areas_loop ly t n s = Some s'" "vinv ly B s'"
    "v_tasks s' = (v_tasks s)(t := (v_tasks s t)\<lparr>vt_page_areas := []\<rparr>)"
    "\<And>p. v_refs s' p + cover ly (areas s t) p = v_refs s p"
    "s' = s\<lparr>v_tasks := v_tasks s', v_refs := v_refs s', v_num_unused_pages := v_num_unused_pages s'\<rparr>"
  using assms
proof (induction n arbitrary: s thesis)
  case 0
  have "(v_tasks s t)\<lparr>vt_page_areas := []\<rparr> = v_tasks s t"
    using "0.prems"(4) by (cases "v_tasks s t") simp
  moreover have "cover ly (areas s t) p = 0" for p using "0.prems"(4) by simp
  ultimately show ?case by (intro "0.prems"(1) [of s]) (simp_all add: "0.prems"(2))
next
  case (Suc n)
  obtain a xs where ax: "areas s t = a # xs" using Suc.prems(4) by (cases "areas s t") auto
  have len: "0 < length (areas s t)" using ax by simp
  obtain s1 where s1: "free_page_area ly t 0 s = Some s1" "vinv ly B s1"
    "v_tasks s1 = (v_tasks s)(t := (v_tasks s t)\<lparr>vt_page_areas := take 0 (areas s t) @ drop (Suc 0) (areas s t)\<rparr>)"
    "v_refs s1 = lost (pfn_of ly (pa_paddr (areas s t ! 0))) (pa_num_pages (areas s t ! 0)) (v_refs s)"
    "s1 = s\<lparr>v_tasks := v_tasks s1, v_refs := v_refs s1, v_num_unused_pages := v_num_unused_pages s1\<rparr>"
    by (rule free_page_area_vinv [OF Suc.prems(2,3) len])
  have ar: "areas s1 t = xs" using s1(3) ax by simp
  have n: "n = length (areas s1 t)" using ar ax Suc.prems(4) by simp
  obtain s2 where s2: "free_areas_loop ly t n s1 = Some s2" "vinv ly B s2"
    "v_tasks s2 = (v_tasks s1)(t := (v_tasks s1 t)\<lparr>vt_page_areas := []\<rparr>)"
    "\<And>p. v_refs s2 p + cover ly (areas s1 t) p = v_refs s1 p"
    "s2 = s1\<lparr>v_tasks := v_tasks s2, v_refs := v_refs s2, v_num_unused_pages := v_num_unused_pages s2\<rparr>"
    by (rule Suc.IH [OF _ s1(2) Suc.prems(3) n]) blast
  have r: "v_refs s2 p + cover ly (areas s t) p = v_refs s p" for p
  proof -
    have "cover ly (areas s t) p \<le> v_refs s p"
      using pages_inv_users [OF vinv_pages [OF Suc.prems(2)], of p] users_ge [OF Suc.prems(3), of ly s p] by simp
    then show ?thesis using s2(4) [of p] ar ax s1(4) by (auto simp: lost_def covers_def split: if_splits)
  qed
  have f: "s2 = s\<lparr>v_tasks := v_tasks s2, v_refs := v_refs s2, v_num_unused_pages := v_num_unused_pages s2\<rparr>"
    using s2(5) s1(5) by (cases s, cases s1, cases s2) simp
  show ?case
    by (rule Suc.prems(1) [OF _ s2(2) _ r f]) (use s1(1,3) s2(1,3) in simp_all)
qed

lemma fold_call_simps [simp]:
  "v_tasks (fold (\<lambda>w. call (c w)) ws s) = v_tasks s" "v_refs (fold (\<lambda>w. call (c w)) ws s) = v_refs s"
  "v_mem (fold (\<lambda>w. call (c w)) ws s) = v_mem s" "v_window (fold (\<lambda>w. call (c w)) ws s) = v_window s"
  "vinv ly B (fold (\<lambda>w. call (c w)) ws s) = vinv ly B s"
  "v_calls (fold (\<lambda>w. call (c w)) ws s) = v_calls s @ map c ws"
  "v_services (fold (\<lambda>w. call (c w)) ws s) = v_services s"
  by (induction ws arbitrary: s) simp_all

lemma task_kill_vinv:
  assumes "vinv ly B s" "t \<in> {1..NUM_TASKS}"
  obtains s' where "task_kill ly t s = Some s'" "vinv ly B s'"
    "v_tasks s' = (v_tasks s)(t := (v_tasks s t)\<lparr>vt_page_areas := [], vt_in_use := False\<rparr>)"
    "\<And>p. v_refs s' p + cover ly (areas s t) p = v_refs s p"
    "v_calls s' = v_calls s @ map (\<lambda>w. Async_send w (TASK_EXITED_MSG t)) (vt_watchers (v_tasks s t)) @ [Task_destroy t]"
    "v_services s' = filter (\<lambda>sv. sv_task sv \<noteq> t) (v_services s)" "v_mem s' = v_mem s"
proof -
  let ?s0 = "(fold (\<lambda>w. call (Async_send w (TASK_EXITED_MSG t))) (vt_watchers (v_tasks s t)) s)"
  let ?s1 = "?s0\<lparr>v_services := filter (\<lambda>sv. sv_task sv \<noteq> t) (v_services ?s0)\<rparr>"
  have v: "vinv ly B ?s1" using assms(1) by simp
  obtain s2 where s2: "free_areas_loop ly t (length (areas ?s1 t)) ?s1 = Some s2" "vinv ly B s2"
    "v_tasks s2 = (v_tasks ?s1)(t := (v_tasks ?s1 t)\<lparr>vt_page_areas := []\<rparr>)"
    "\<And>p. v_refs s2 p + cover ly (areas ?s1 t) p = v_refs ?s1 p"
    "s2 = ?s1\<lparr>v_tasks := v_tasks s2, v_refs := v_refs s2, v_num_unused_pages := v_num_unused_pages s2\<rparr>"
    using free_areas_loop_vinv [OF v assms(2) refl] by metis
  have "v_calls s2 = v_calls ?s1" "v_services s2 = v_services ?s1" "v_mem s2 = v_mem ?s1"
    by (subst s2(5); simp)+
  then show ?thesis
    using s2(1-4) by (intro that [of "upd_vtask t (\<lambda>k. k\<lparr>vt_in_use := False\<rparr>) (call (Task_destroy t) s2)"])
      (auto simp: task_kill_def task_page_free_all_def vinv_upd_vtask)
qed

lemma vinv_mono: "vinv ly B s \<Longrightarrow> B \<le> B' \<Longrightarrow> B' + 1 < 2 ^ 32 \<Longrightarrow> vinv ly B' s"
  by (auto simp: vinv_def intro: order_trans)

lemma virt_page_alloc_vinv:
  assumes "virt_page_alloc ly t n s = Some (v, s')" "vinv ly B s" "t \<in> {1..NUM_TASKS}"
  shows "vinv ly B s'" and "v \<noteq> 0 \<Longrightarrow> v_refs s' = v_refs s \<and> (\<forall>t. areas s' t = areas s t)"
proof -
  let ?full = "(vt_free_vaddr (v_tasks s t) + n * PGSIZE mod 2 ^ 64) mod 2 ^ 64 \<ge> l_free_vaddr_end ly"
  obtain s1 where k: "task_kill ly t s = Some s1" "vinv ly B s1"
    by (rule task_kill_vinv [OF assms(2,3)])
  have "vinv ly B s' \<and> (v \<noteq> 0 \<longrightarrow> v_refs s' = v_refs s \<and> (\<forall>t. areas s' t = areas s t))"
  proof (cases ?full)
    case True
    then show ?thesis using assms(1) k by (simp add: virt_page_alloc_def Let_def)
  next
    case False
    then have "s' = upd_vtask t (\<lambda>k. k\<lparr>vt_free_vaddr := (vt_free_vaddr k + n * PGSIZE mod 2 ^ 64) mod 2 ^ 64\<rparr>) s"
      using assms(1) by (simp add: virt_page_alloc_def Let_def)
    then show ?thesis using assms(2) by (simp add: vinv_upd_vtask)
  qed
  then show "vinv ly B s'" "v \<noteq> 0 \<Longrightarrow> v_refs s' = v_refs s \<and> (\<forall>t. areas s' t = areas s t)" by auto
qed

lemma kpage_alloc_vinv:
  assumes "kpage_alloc ly t s = Some (kpage, s')" "vinv ly B s" "t \<in> {1..NUM_TASKS}"
  shows "vinv ly B s'"
proof -
  from assms(1) obtain s1 where s1: "page_alloc ly 1 s = Some (kpage, s1)" and s': "s' = add_area t 0 kpage 1 s1"
    by (auto simp: kpage_alloc_def split: bind_splits prod.splits)
  from page_alloc_vinv [OF s1 assms(2)] obtain base where
    "vinv ly B s1" "kpage = l_straight_mapping ly + base * PGSIZE" "base + 1 \<le> PAGES_MAX"
    "\<And>p. base \<le> p \<Longrightarrow> p < base + 1 \<Longrightarrow> users ly s1 p < v_refs s1 p" by blast
  then show ?thesis unfolding s' using assms(3) by (intro vinv_add_area)
qed

lemma sys_map_vinv: "sys_map env t vaddr paddr kpage flags s = (err, s') \<Longrightarrow> vinv ly B s' = vinv ly B s"
  by (auto simp: sys_map_def call_err_def Let_def split: if_splits)

lemma map_loop_vinv:
  assumes "map_loop ly env t vaddr paddr flags s = Some r" "vinv ly B s" "t \<in> {1..NUM_TASKS}"
  shows "vinv ly B (snd r)"
proof -
  have "vinv ly B s \<longrightarrow> t \<in> {1..NUM_TASKS} \<longrightarrow> vinv ly B (snd r)"
  proof (rule map_loop.raw_induct [OF _ assms(1), where P = "\<lambda>ly env t vaddr paddr flags s r.
      vinv ly B s \<longrightarrow> t \<in> {1..NUM_TASKS} \<longrightarrow> vinv ly B (snd r)"], intro impI)
    fix loop :: "vm_layout \<Rightarrow> vm_env \<Rightarrow> nat \<Rightarrow> nat \<Rightarrow> nat \<Rightarrow> u32 \<Rightarrow> vm \<Rightarrow> (error_t \<times> vm) option"
      and ly env t vaddr paddr flags s r
    assume IH: "\<And>ly env t vaddr paddr flags s r. loop ly env t vaddr paddr flags s = Some r \<Longrightarrow>
        vinv ly B s \<longrightarrow> t \<in> {1..NUM_TASKS} \<longrightarrow> vinv ly B (snd r)"
      and t: "t \<in> {1..NUM_TASKS}" and v: "vinv ly B s"
      and e: "kpage_alloc ly t s \<bind>
        (\<lambda>(kpage, s). let (err, s) = sys_map env t vaddr paddr kpage flags s in
          if err = ERR_TRY_AGAIN then loop ly env t vaddr paddr flags s
          else task_page_free ly t kpage s \<bind> (\<lambda>s. Some (err, s))) = Some r"
    from e obtain kpage s1 err s2 where s1: "kpage_alloc ly t s = Some (kpage, s1)"
      and s2: "sys_map env t vaddr paddr kpage flags s1 = (err, s2)"
      and c: "if err = ERR_TRY_AGAIN then loop ly env t vaddr paddr flags s2 = Some r
        else \<exists>s3. task_page_free ly t kpage s2 = Some s3 \<and> r = (err, s3)"
      by (auto split: bind_splits prod.splits if_splits)
    have v2: "vinv ly B s2" using kpage_alloc_vinv [OF s1 v t] sys_map_vinv [OF s2] by simp
    obtain s3 where s3: "task_page_free ly t kpage s2 = Some s3" "vinv ly B s3"
      by (rule task_page_free_vinv [OF v2 t])
    show "vinv ly B (snd r)"
      using c IH v2 t s3 by (auto split: if_splits)
  qed
  then show ?thesis using assms(2,3) by simp
qed

lemma map_page_vinv:
  assumes "map_page ly env t vaddr paddr flags ow s = Some (err, s')" "vinv ly B s" "t \<in> {1..NUM_TASKS}"
  shows "vinv ly B s'"
proof -
  have "vinv ly B (sys_unmap t vaddr s)" using assms(2) by (simp add: sys_unmap_def Let_def)
  then show ?thesis using assms map_loop_vinv by (fastforce simp: map_page_def split: if_splits)
qed

lemma map_pages_loop_vinv:
  assumes "map_pages_loop ly env t vaddr paddr n s = Some (err, s')" "vinv ly B s" "t \<in> {1..NUM_TASKS}"
  shows "vinv ly B s'"
  using assms
  by (induction n arbitrary: vaddr paddr s)
     (auto split: bind_splits prod.splits if_splits dest: map_page_vinv)

text \<open>The two ways to get pages: fresh ones, and those at a given address.\<close>

lemma take_fresh_vinv:
  assumes "page_alloc ly n s = Some (paddr, s1)" "vinv ly B s" "t \<in> {1..NUM_TASKS}"
    and "(if vaddr = 0 then virt_page_alloc ly t n s1 else Some (vaddr, s1)) = Some (v, s2)"
  shows "vinv ly B s2" and "v \<noteq> 0 \<Longrightarrow> vinv ly B (add_area t v paddr n s2)"
proof -
  from page_alloc_vinv [OF assms(1,2)] obtain base where
    b: "vinv ly B s1" "paddr = l_straight_mapping ly + base * PGSIZE" "base + n \<le> PAGES_MAX"
    "\<And>p. base \<le> p \<Longrightarrow> p < base + n \<Longrightarrow> users ly s1 p < v_refs s1 p" by blast
  show v: "vinv ly B s2"
    using assms(4) b(1) virt_page_alloc_vinv(1) [OF _ b(1) assms(3)] by (auto split: if_splits)
  assume "v \<noteq> 0"
  then have "v_refs s2 = v_refs s1 \<and> (\<forall>t. areas s2 t = areas s1 t)"
    using assms(4) virt_page_alloc_vinv(2) [OF _ b(1) assms(3)] by (auto split: if_splits)
  then have "users ly s2 p < v_refs s2 p" if "base \<le> p" "p < base + n" for p
    using b(4) that by (simp add: users_def)
  then show "vinv ly B (add_area t v paddr n s2)"
    using v assms(3) b(2,3) by (intro vinv_add_area)
qed

lemma task_page_alloc_fresh_vinv:
  assumes "task_page_alloc ly env t vaddr 0 n s = Some (err, v, p, s')" "vinv ly B s" "t \<in> {1..NUM_TASKS}"
  shows "vinv ly B s'"
proof -
  from assms(1) obtain paddr s1 v s2 where a: "page_alloc ly n s = Some (paddr, s1)"
    "(if vaddr = 0 then virt_page_alloc ly t n s1 else Some (vaddr, s1)) = Some (v, s2)"
    and s': "s' = (if v = 0 then s2 else add_area t v paddr n s2)"
    by (auto simp: task_page_alloc_def split: bind_splits prod.splits if_splits)
  show ?thesis using take_fresh_vinv [OF a(1) assms(2,3) a(2)] s' by auto
qed

text \<open>Taking a reference to pages that may be in use: the only step that raises the bound.\<close>

lemma page_incref_vinv:
  assumes "page_incref pfn n s = Some s'" "vinv ly B s" "B + 2 < 2 ^ 32"
  shows "vinv ly (B + 1) s'" and "pfn \<le> p \<Longrightarrow> p < pfn + n \<Longrightarrow> users ly s' p < v_refs s' p"
    and "pfn + n \<le> PAGES_MAX" and "\<And>t. areas s' t = areas s t"
proof -
  have inv: "pages_inv ly s" using assms(2) by (rule vinv_pages)
  show le: "pfn + n \<le> PAGES_MAX"
    using assms(1) by (auto simp: page_incref_def split: bind_splits if_splits)
  have r: "v_refs s p + 1 < 2 ^ 32" for p using vinv_refs [OF assms(2), of p] assms(3) by simp
  have s': "s' = s\<lparr>v_refs := gained pfn n (v_refs s), v_num_unused_pages := unused (gained pfn n (v_refs s))\<rparr>"
    using incref_loop_spec [OF le r pages_inv_unused [OF inv]] assms(1) le
    by (simp add: page_incref_def)
  then show ar: "areas s' t = areas s t" for t by simp
  have us: "users ly s' p = users ly s p" for p by (simp add: users_def s')
  have "pages_inv ly s'"
  proof (rule pages_invI)
    show "users ly s' p \<le> v_refs s' p" for p
      using pages_inv_users [OF inv, of p] us [of p] by (simp add: s' gained_def)
  qed (use inv in \<open>auto simp: s' pages_inv_def\<close>)
  moreover have "v_refs s' p \<le> B + 1" for p
    using vinv_refs [OF assms(2), of p] by (simp add: s' gained_def)
  ultimately show "vinv ly (B + 1) s'" using assms(2,3) by (simp add: vinv_def)
  show "users ly s' p < v_refs s' p" if "pfn \<le> p" "p < pfn + n"
    using pages_inv_users [OF inv, of p] us [of p] that by (simp add: s' gained_def)
qed

lemma mappable_pfn:
  assumes "is_mappable_paddr_range ly paddr n" "paddr mod PGSIZE = 0" "layout_ok ly"
  shows "paddr2pfn ly paddr = Some (pfn_of ly paddr)"
    and "paddr = l_straight_mapping ly + pfn_of ly paddr * PGSIZE"
proof -
  have b: "l_straight_mapping ly \<le> paddr" "paddr < PAGES_BASE_ADDR_END"
    using assms(1) by (auto simp: is_mappable_paddr_range_def Let_def)
  have d: "(paddr - l_straight_mapping ly) mod PGSIZE = 0"
    using assms(2,3) b(1) mod_eq_dvd_iff_nat [of "l_straight_mapping ly" paddr PGSIZE] by (simp add: layout_ok_def)
  have "pfn_of ly paddr \<le> paddr div PGSIZE" by (simp add: pfn_of_def div_le_mono)
  also have "\<dots> < 2 ^ 32" using b(2) by (simp add: PAGES_BASE_ADDR_END_def PAGES_MAX_def PGSIZE_def)
  finally show "paddr2pfn ly paddr = Some (pfn_of ly paddr)"
    by (intro paddr2pfn_ok [OF b(1) assms(2)])
  show "paddr = l_straight_mapping ly + pfn_of ly paddr * PGSIZE"
    using b(1) d div_mult_mod_eq [of "paddr - l_straight_mapping ly" PGSIZE] by (simp add: pfn_of_def)
qed

lemma task_page_alloc_vinv:
  assumes "task_page_alloc ly env t vaddr paddr n s = Some (err, v, p, s')" "vinv ly B s" "t \<in> {1..NUM_TASKS}"
    and "B + 2 < 2 ^ 32"
  shows "vinv ly (B + 1) s'"
proof (cases "paddr = 0")
  case True
  then show ?thesis using task_page_alloc_fresh_vinv [of ly env t vaddr n s] assms vinv_mono [of ly B s' "B + 1"] by simp
next
  case False
  consider (refused) "s' = s"
    | (map) s1 where "paddr mod PGSIZE = 0" "is_mappable_paddr_range ly paddr n" "map_pages_loop ly env t vaddr paddr n s = Some (err, s1)" "s' = s1"
    | (ok) s1 pfn s2 v s3 where "paddr mod PGSIZE = 0" "is_mappable_paddr_range ly paddr n"
      "map_pages_loop ly env t vaddr paddr n s = Some (OK, s1)"
      "paddr2pfn ly paddr = Some pfn" "page_incref pfn n s1 = Some s2"
      "(if vaddr = 0 then virt_page_alloc ly t n s2 else Some (vaddr, s2)) = Some (v, s3)"
      "s' = (if v = 0 then s3 else add_area t v paddr n s3)"
    using assms(1) False
    by (auto simp: task_page_alloc_def split: bind_splits prod.splits if_splits)
  then show ?thesis
  proof cases
    case refused
    then show ?thesis using assms(2,4) vinv_mono [of ly B s "B + 1"] by simp
  next
    case map
    then show ?thesis using map_pages_loop_vinv [OF map(3) assms(2,3)] assms(4) vinv_mono [of ly B s1 "B + 1"] by simp
  next
    case ok
    note v1 = map_pages_loop_vinv [OF ok(3) assms(2,3)]
    note p = mappable_pfn [OF ok(2,1) vinv_layout [OF assms(2)]]
    note i = page_incref_vinv [OF ok(5) v1 assms(4)]
    have v3: "vinv ly (B + 1) s3"
      using ok(6) i(1) virt_page_alloc_vinv(1) [OF _ i(1) assms(3)] by (auto split: if_splits)
    have "vinv ly (B + 1) (add_area t v paddr n s3)" if "v \<noteq> 0"
    proof (rule vinv_add_area [OF v3 assms(3) p(2)])
      have "v_refs s3 = v_refs s2 \<and> (\<forall>t. areas s3 t = areas s2 t)"
        using ok(6) that virt_page_alloc_vinv(2) [OF _ i(1) assms(3)] by (auto split: if_splits)
      then show "users ly s3 q < v_refs s3 q" if "pfn_of ly paddr \<le> q" "q < pfn_of ly paddr + n" for q
        using i(2) [of q] that ok(4) p(1) by (simp add: users_def)
    qed (use i(3) ok(4) p(1) in simp)
    then show ?thesis using v3 ok(7) by simp
  qed
qed

section \<open>The invariant across the handlers\<close>

lemma vm_write_frame [simp]:
  "v_refs (vm_write a b s) = v_refs s" "v_num_unused_pages (vm_write a b s) = v_num_unused_pages s"
  "v_tasks (vm_write a b s) = v_tasks s" "v_window (vm_write a b s) = v_window s"
  "v_regions (vm_write a b s) = v_regions s" "v_calls (vm_write a b s) = v_calls s"
  by (simp_all add: vm_write_def split: option.split)

lemma vm_store_frame [simp]:
  "v_refs (vm_store a bs s) = v_refs s" "v_num_unused_pages (vm_store a bs s) = v_num_unused_pages s"
  "v_tasks (vm_store a bs s) = v_tasks s" "v_window (vm_store a bs s) = v_window s"
  "v_regions (vm_store a bs s) = v_regions s" "v_calls (vm_store a bs s) = v_calls s"
  by (induction bs arbitrary: a s) simp_all

lemma vm_memcpy_frame [simp]:
  "v_refs (vm_memcpy d a n s) = v_refs s" "v_num_unused_pages (vm_memcpy d a n s) = v_num_unused_pages s"
  "v_tasks (vm_memcpy d a n s) = v_tasks s" "v_window (vm_memcpy d a n s) = v_window s"
  "v_regions (vm_memcpy d a n s) = v_regions s" "v_calls (vm_memcpy d a n s) = v_calls s"
  by (induction n arbitrary: d a s) simp_all

lemma vinv_copy [simp]:
  "vinv ly B (vm_store a bs s) = vinv ly B s" "vinv ly B (vm_memcpy d a n s) = vinv ly B s"
  by (rule vinv_cong; simp)+

lemma vm_task_range [simp]: "VM_TASK \<in> {1..NUM_TASKS}" "Suc 0 \<le> VM_TASK" "VM_TASK \<le> NUM_TASKS"
  by (simp_all add: VM_TASK_def NUM_TASKS_def)

lemma fill_page_vinv:
  assumes "fill_page ly env t vaddr contents s = Some (r, s')" "vinv ly B s" "t \<in> {1..NUM_TASKS}"
  shows "vinv ly B s'"
  using assms
  by (auto simp: fill_page_def split: bind_splits prod.splits if_splits
      dest!: task_page_alloc_fresh_vinv map_page_vinv)

lemma handle_page_fault_vinv:
  assumes "handle_page_fault ly env t vaddr fault s = Some (r, s')" "vinv ly B s" "t \<in> {1..NUM_TASKS}"
  shows "vinv ly B s'"
  using assms
  by (auto simp: handle_page_fault_def Let_def split: bind_splits prod.splits if_splits option.splits
      dest: fill_page_vinv)

lemma reach_buf_vinv:
  assumes "reach_buf ly env t buf page w s = Some (r, s')" "vinv ly B s" "t \<in> {1..NUM_TASKS}"
  shows "vinv ly B s'"
  using assms
  by (auto simp: reach_buf_def vaddr2paddr_def split: bind_splits prod.splits if_splits option.splits
      dest!: handle_page_fault_vinv map_page_vinv)

lemma task_kill_Some_vinv:
  assumes "task_kill ly t s = Some s'" "vinv ly B s" "t \<in> {1..NUM_TASKS}"
  shows "vinv ly B s'"
  using task_kill_vinv [OF assms(2,3)] assms(1) by fastforce

lemma copy_loop_vinv:
  assumes "copy_loop ly env src dst a b n s = Some (err, s')" "vinv ly B s"
    and t: "src \<in> {1..NUM_TASKS}" "dst \<in> {1..NUM_TASKS}"
  shows "vinv ly B s'"
  using assms
proof (induction ly env src dst a b n s rule: copy_loop.induct)
  case (1 ly env src dst a b n s)
  note t = "1.prems"(3,4)
  show ?case
  proof (cases "n = 0")
    case True
    then show ?thesis using "1.prems" by (subst (asm) copy_loop.simps) simp
  next
    case False
    from "1.prems"(1) False obtain r s1 where r: "reach_buf ly env src a (l_src_page ly) False s = Some (r, s1)"
      by (subst (asm) copy_loop.simps) (auto simp: Let_def split: option.splits)
    note v1 = reach_buf_vinv [OF r "1.prems"(2) t(1)]
    show ?thesis
    proof (cases r)
      case (At src_ptr)
      from "1.prems"(1) False r At obtain r' s2 where
        r': "reach_buf ly env dst b (l_dst_page ly) True s1 = Some (r', s2)"
        by (subst (asm) copy_loop.simps) (auto simp: Let_def split: option.splits)
      note v2 = reach_buf_vinv [OF r' v1 t(2)]
      show ?thesis
      proof (cases r')
        case (At dst_ptr)
        let ?k = "copy_len a b n"
        have "copy_loop ly env src dst ((a + ?k) mod 2 ^ 64) ((b + ?k) mod 2 ^ 64) (n - ?k)
            (vm_memcpy dst_ptr src_ptr ?k s2) = Some (err, s')"
          using "1.prems"(1) False r \<open>r = At src_ptr\<close> r' At by (subst (asm) copy_loop.simps) (simp add: Let_def)
        then show ?thesis
          using "1.IH" [OF False refl r refl \<open>r = At src_ptr\<close> r' refl At] v2 t by simp
      qed (use "1.prems"(1) False r \<open>r = At src_ptr\<close> r' v2 t in
          \<open>subst (asm) copy_loop.simps, auto simp: Let_def dest: task_kill_Some_vinv\<close>)+
    qed (use "1.prems"(1) False r v1 t in
        \<open>subst (asm) copy_loop.simps, auto simp: Let_def dest: task_kill_Some_vinv\<close>)+
  qed
qed

lemma vtask_lookup_Some: "task_lookup t s = Some t' \<Longrightarrow> t' = t \<and> t \<in> {1..NUM_TASKS} \<and> vt_in_use (v_tasks s t)"
  by (auto simp: task_lookup_def split: bind_splits if_splits)

lemma task_lookup_eq: "task_lookup t s = (if t \<in> {1..NUM_TASKS} \<and> vt_in_use (v_tasks s t) then Some t else None)"
  by (auto simp: task_lookup_def)

lemma handle_ool_send_vinv:
  assumes "handle_ool_send ly env src m s = Some (err, pid, s')" "vinv ly B s"
  shows "vinv ly B s'"
  using assms
  by (auto simp: handle_ool_send_def vinv_upd_vtask Let_def split: bind_splits prod.splits if_splits
      dest!: vtask_lookup_Some copy_loop_vinv)

lemma handle_ool_recv_vinv:
  assumes "handle_ool_recv ly env t addr len s = Some (err, s')" "vinv ly B s"
  shows "vinv ly B s'"
  using assms
  by (auto simp: handle_ool_recv_def vinv_upd_vtask Let_def split: bind_splits prod.splits if_splits list.splits
      dest!: handle_ool_send_vinv)

lemma handle_ool_verify_vinv:
  assumes "handle_ool_verify t src pid len s = Some (err, at, s')" "vinv ly B s"
  shows "vinv ly B s'"
  using assms
  by (auto simp: handle_ool_verify_def vinv_upd_vtask Let_def split: bind_splits prod.splits if_splits)

lemma shm_vinv:
  assumes "vinv ly B s" "t \<in> {1..NUM_TASKS}"
  shows "shm_create ly env g t sz s = Some (err, slot, s') \<Longrightarrow> vinv ly B s'"
    and "shm_map ly env t i w s = Some (err, vaddr, s') \<Longrightarrow> vinv ly B s'"
    and "vinv ly B (shm_close i s)"
  using assms
  by (auto simp: shm_create_def shm_map_def shm_close_def Let_def split: bind_splits prod.splits if_splits option.splits
      dest!: task_page_alloc_fresh_vinv map_page_vinv virt_page_alloc_vinv(1))

lemma find_SomeD: "find P xs = Some x \<Longrightarrow> x \<in> set xs \<and> P x"
  by (auto simp: find_Some_iff)

lemma task_alloc_vinv:
  assumes "task_alloc pager s = Some (t, s')" "vinv ly B s"
  shows "vinv ly B s'" "t \<in> {1..NUM_TASKS}"
proof -
  from assms(1) have t: "t \<in> set [1..<Suc NUM_TASKS]"
    and s': "s' = upd_vtask t (\<lambda>k. k\<lparr>vt_in_use := True, vt_pager := pager\<rparr>) s"
    by (auto simp: task_alloc_def simp del: upt_Suc dest: find_SomeD)
  show "vinv ly B s'" "t \<in> {1..NUM_TASKS}" using assms(2) t by (auto simp: s' vinv_upd_vtask)
qed

lemma init_task_struct_vinv:
  assumes "init_task_struct ly t name file cmdline s = Some s'" "vinv ly B s" "t \<in> {1..NUM_TASKS}"
  shows "vinv ly B s'"
  using assms by (auto simp: init_task_struct_def split: bind_splits intro!: vinv_clear)

lemma task_spawn_vinv:
  assumes "task_spawn ly env file cmdline s = Some (r, s')" "vinv ly B s"
  shows "vinv ly B s'"
  using assms
  by (auto simp: task_spawn_def call_err_def Let_def split: bind_splits prod.splits if_splits
      dest!: init_task_struct_vinv dest: task_alloc_vinv)

lemma task_spawn_by_cmdline_vinv:
  assumes "task_spawn_by_cmdline ly env name s = Some (r, s')" "vinv ly B s"
  shows "vinv ly B s'"
  using assms
  by (auto simp: task_spawn_by_cmdline_def split: bind_splits prod.splits option.splits dest: task_spawn_vinv)

lemma service_vinv:
  assumes "vinv ly B s"
  shows "wake_waiters server name ts s = Some s' \<Longrightarrow> vinv ly B s'"
    and "service_register t name s = Some s' \<Longrightarrow> vinv ly B s'"
    and "service_wait t name s = Some (r, s') \<Longrightarrow> vinv ly B s'"
proof -
  have w: "vinv ly B s \<Longrightarrow> wake_waiters server name ts s = Some s' \<Longrightarrow> vinv ly B s'" for ts s name server
  proof (induction ts arbitrary: s)
    case (Cons t ts)
    obtain r where r: "strcmp (vt_waiting_for (v_tasks s t)) name = Some r"
      using Cons.prems by (auto split: bind_splits)
    show ?case
    proof (cases "r = 0")
      case True
      let ?s = "call (Ipc_reply t (DISCOVERY_LOOKUP_REPLY_MSG server)) s"
      from Cons.prems(2) r True obtain w where
        "wake_waiters server name ts (upd_vtask t (\<lambda>k. k\<lparr>vt_waiting_for := w\<rparr>) ?s) = Some s'"
        by (auto simp: Let_def split: bind_splits)
      then show ?thesis by (rule Cons.IH [rotated]) (simp add: vinv_upd_vtask Cons.prems(1))
    qed (use Cons r in auto)
  qed simp
  then show "wake_waiters server name ts s = Some s' \<Longrightarrow> vinv ly B s'" using assms by blast
  show "service_register t name s = Some s' \<Longrightarrow> vinv ly B s'"
    using assms by (auto simp: service_register_def Let_def simp del: upt_Suc split: bind_splits dest!: w [rotated])
  show "service_wait t name s = Some (r, s') \<Longrightarrow> vinv ly B s'"
    using assms by (auto simp: service_wait_def vinv_upd_vtask split: bind_splits option.splits)
qed

lemma answer_vinv [simp]:
  "vinv ly B (answer src err m s) = vinv ly B s" "vinv ly B (answer_result src err m s) = vinv ly B s"
  by (simp_all add: answer_def answer_result_def)

lemma handle_page_fault_msg_vinv:
  assumes "handle_page_fault_msg ly env src t vaddr fault s = Some s'" "vinv ly B s"
  shows "vinv ly B s'"
  using assms
  by (auto simp: handle_page_fault_msg_def split: bind_splits prod.splits if_splits
      dest!: vtask_lookup_Some handle_page_fault_vinv map_page_vinv)

lemma handle_vm_alloc_pages_vinv:
  assumes "handle_vm_alloc_pages ly env src n paddr s = Some s'" "vinv ly B s" "B + 2 < 2 ^ 32"
  shows "vinv ly (B + 1) s'"
proof -
  from assms(1) obtain err v p s1 where "src \<in> {1..NUM_TASKS}"
    "task_page_alloc ly env src 0 paddr n s = Some (err, v, p, s1)"
    "s' = answer_result src err (VM_ALLOC_PAGES_REPLY_MSG v p) s1"
    by (auto simp: handle_vm_alloc_pages_def split: bind_splits prod.splits dest!: vtask_lookup_Some)
  then show ?thesis using task_page_alloc_vinv assms(2,3) by simp
qed

lemma small_handlers_vinv:
  assumes "vinv ly B s"
  shows "handle_exception ly src t s = Some s' \<Longrightarrow> vinv ly B s'"
    and "handle_task_alloc src pager s = Some s' \<Longrightarrow> vinv ly B s'"
    and "handle_task_free src t s = Some s' \<Longrightarrow> vinv ly B s'"
    and "handle_task_launch ly env src name s = Some s' \<Longrightarrow> vinv ly B s'"
    and "vinv ly B (task_watch w t s)" and "vinv ly B (task_unwatch w t s)"
proof -
  show "handle_exception ly src t s = Some s' \<Longrightarrow> vinv ly B s'"
    using assms by (auto simp: handle_exception_def split: bind_splits if_splits dest!: vtask_lookup_Some task_kill_Some_vinv)
  show "handle_task_alloc src pager s = Some s' \<Longrightarrow> vinv ly B s'"
    using assms by (auto simp: handle_task_alloc_def split: option.splits dest!: task_alloc_vinv(1))
  show "handle_task_free src t s = Some s' \<Longrightarrow> vinv ly B s'"
    using assms by (auto simp: handle_task_free_def task_free_def vinv_upd_vtask split: bind_splits if_splits)
  show "handle_task_launch ly env src name s = Some s' \<Longrightarrow> vinv ly B s'"
    using assms by (auto simp: handle_task_launch_def split: bind_splits prod.splits sum.splits dest!: task_spawn_by_cmdline_vinv)
  show "vinv ly B (task_watch w t s)" "vinv ly B (task_unwatch w t s)"
    using assms by (simp_all add: task_watch_def task_unwatch_def vinv_upd_vtask)
qed

text \<open>Every message but a request for pages keeps the bound as well.\<close>

lemma handle_message_other_vinv:
  assumes "handle_message ly env g src m s = Some s'" "vinv ly B s" "\<And>n paddr. m \<noteq> VM_ALLOC_PAGES_MSG n paddr"
  shows "vinv ly B s'"
proof (cases m)
  case (NOTIFICATIONS_MSG d)
  then show ?thesis using assms(1,2)
    by (auto simp: handle_message_def split: bind_splits prod.splits if_splits option.splits
        dest!: vtask_lookup_Some)
next
  case (OOL_RECV_MSG a n)
  then show ?thesis using assms(1,2)
    by (auto simp: handle_message_def split: bind_splits prod.splits if_splits option.splits
        dest!: vtask_lookup_Some dest: handle_ool_recv_vinv)
next
  case (OOL_VERIFY_MSG a b n)
  then show ?thesis using assms(1,2)
    by (auto simp: handle_message_def split: bind_splits prod.splits if_splits option.splits
        dest!: vtask_lookup_Some dest: handle_ool_verify_vinv)
next
  case (OOL_SEND_MSG d a n)
  then show ?thesis using assms(1,2)
    by (auto simp: handle_message_def split: bind_splits prod.splits if_splits option.splits
        dest!: vtask_lookup_Some dest: handle_ool_send_vinv)
next
  case (EXCEPTION_MSG t e)
  then show ?thesis using assms(1,2)
    by (auto simp: handle_message_def split: bind_splits prod.splits if_splits option.splits
        dest!: vtask_lookup_Some dest: small_handlers_vinv(1))
next
  case (PAGE_FAULT_MSG t v i f)
  then show ?thesis using assms(1,2)
    by (auto simp: handle_message_def split: bind_splits prod.splits if_splits option.splits
        dest!: vtask_lookup_Some dest: handle_page_fault_msg_vinv)
next
  case (DISCOVERY_SERVE_MSG n)
  then show ?thesis using assms(1,2)
    by (auto simp: handle_message_def split: bind_splits prod.splits if_splits option.splits
        dest!: vtask_lookup_Some dest: service_vinv(2))
next
  case (DISCOVERY_LOOKUP_MSG n)
  then show ?thesis using assms(1,2)
    by (auto simp: handle_message_def split: bind_splits prod.splits if_splits option.splits
        dest!: vtask_lookup_Some dest: service_vinv(3))
next
  case (TASK_ALLOC_MSG p)
  then show ?thesis using assms(1,2)
    by (auto simp: handle_message_def split: bind_splits prod.splits if_splits option.splits
        dest!: vtask_lookup_Some dest: small_handlers_vinv(2))
next
  case (TASK_FREE_MSG t)
  then show ?thesis using assms(1,2)
    by (auto simp: handle_message_def split: bind_splits prod.splits if_splits option.splits
        dest!: vtask_lookup_Some dest: small_handlers_vinv(3))
next
  case (TASK_LAUNCH_MSG n)
  then show ?thesis using assms(1,2)
    by (auto simp: handle_message_def split: bind_splits prod.splits if_splits option.splits
        dest!: vtask_lookup_Some dest: small_handlers_vinv(4))
next
  case (SHM_CREATE_MSG z)
  then show ?thesis using assms(1,2)
    by (auto simp: handle_message_def task_lookup_eq split: bind_splits prod.splits if_splits dest: shm_vinv(1))
next
  case (SHM_MAP_MSG i w)
  then show ?thesis using assms(1,2)
    by (auto simp: handle_message_def task_lookup_eq split: bind_splits prod.splits if_splits dest: shm_vinv(2))
qed (use assms in \<open>auto simp: handle_message_def small_handlers_vinv(5,6) shm_vinv(3) [OF _ vm_task_range(1)]
      split: bind_splits if_splits\<close>)

lemma handle_message_vinv:
  assumes "handle_message ly env g src m s = Some s'" "vinv ly B s" "B + 2 < 2 ^ 32"
  shows "vinv ly (B + 1) s'"
proof (cases "\<exists>n paddr. m = VM_ALLOC_PAGES_MSG n paddr")
  case True
  then obtain n paddr where "m = VM_ALLOC_PAGES_MSG n paddr" by blast
  with assms(1) have "handle_vm_alloc_pages ly env src n paddr s = Some s'"
    by (auto simp: handle_message_def split: bind_splits if_splits)
  then show ?thesis using assms(2,3) by (rule handle_vm_alloc_pages_vinv)
next
  case False
  then have "vinv ly B s'" using handle_message_other_vinv [OF assms(1,2)] by blast
  then show ?thesis using assms(3) vinv_mono [of ly B s' "B + 1"] by simp
qed

lemma main_loop_vinv:
  assumes "main_loop ly env g ms s = Some s'" "vinv ly B s" "B + length ms + 1 < 2 ^ 32"
  shows "vinv ly (B + length ms) s'"
  using assms
proof (induction ms arbitrary: s B)
  case (Cons m ms)
  obtain src msg where m: "m = (src, msg)" by (cases m)
  from Cons.prems(1) obtain s1 where s1: "handle_message ly env g src msg s = Some s1"
    and l: "main_loop ly env g ms s1 = Some s'" by (auto simp: m split: bind_splits)
  have "vinv ly (B + 1) s1" using handle_message_vinv [OF s1 Cons.prems(2)] Cons.prems(3) by simp
  from Cons.IH [OF l this] show ?case using Cons.prems(3) by simp
qed simp

text \<open>The state the program starts in: static variables are zero and no list has elements.\<close>

definition vm_zeroed :: "vm \<Rightarrow> bool" where
  "vm_zeroed s \<longleftrightarrow> v_num_unused_pages s = 0 \<and> (\<forall>t\<in>{1..NUM_TASKS}. areas s t = [])"

lemma spawn_loop_vinv:
  "spawn_loop ly env autostarts files s = Some s' \<Longrightarrow> vinv ly B s \<Longrightarrow> vinv ly B s'"
  by (induction files arbitrary: s) (auto split: bind_splits if_splits prod.splits dest!: task_spawn_vinv)

lemma main_init_vinv:
  assumes "main_init ly env memmap autostarts s = Some s'" "vm_zeroed s" "layout_ok ly"
  shows "vinv ly 1 s'"
proof -
  let ?s0 = "page_alloc_init ly memmap (bootfs_init s)"
  let ?s1 = "?s0\<lparr>v_tasks := (\<lambda>t. if t \<in> {1..NUM_TASKS} then (v_tasks ?s0 t)\<lparr>vt_in_use := False\<rparr> else v_tasks ?s0 t)\<rparr>"
  from assms(1) obtain s2 v s3 s4 where s2: "init_task_struct ly VM_TASK [0x76, 0x6d, 0] None [0] ?s1 = Some s2"
    and s3: "virt_page_alloc ly VM_TASK 1 (s2\<lparr>v_services := []\<rparr>) = Some (v, s3)"
    and s4: "spawn_loop ly env autostarts (v_files (s3\<lparr>v_tmp_page := v\<rparr>)) (s3\<lparr>v_tmp_page := v\<rparr>) = Some s4"
    and s': "s' = call (Timer_set 5000) s4"
    by (auto simp: main_init_def task_init_def page_fault_init_def spawn_servers_def Let_def split: bind_splits prod.splits)
  have "users ly ?s1 p = 0" for p
    using assms(2) by (simp add: users_def vm_zeroed_def page_alloc_init_def bootfs_init_def Let_def)
  moreover have "unused (\<lambda>_. 0) = PAGES_MAX" by (simp add: unused_def)
  ultimately have "pages_inv ly ?s1"
    using assms(2) by (intro pages_invI) (auto simp: vm_zeroed_def page_alloc_init_def bootfs_init_def Let_def)
  then have "vinv ly 1 ?s1" using assms(3) by (simp add: vinv_def page_alloc_init_def)
  from init_task_struct_vinv [OF s2 this] have "vinv ly 1 (s2\<lparr>v_services := []\<rparr>)" by simp
  from virt_page_alloc_vinv(1) [OF s3 this] have "vinv ly 1 (s3\<lparr>v_tmp_page := v\<rparr>)" by simp
  from spawn_loop_vinv [OF s4 this] show ?thesis using s' by simp
qed

end
