(* ===== verification/Vm_Props.thy ===== *)
theory Vm_Props
  imports Vm_Inv
begin

text \<open>
  Properties of the memory and task server: what becomes of physical pages, what killing a task
  does, the mapping loop, out-of-line payloads, and page faults.
\<close>

section \<open>A concrete server\<close>

definition demo_layout :: vm_layout where
  "demo_layout = \<lparr>l_cmdline = 0x2fff000, l_zeroed_pages = 0x4000000, l_zeroed_pages_end = 0x10000000,
     l_straight_mapping = 0x10000000, l_free_vaddr = 0x10000000, l_free_vaddr_end = 0xa0000000000,
     l_src_page = 0x1000000, l_dst_page = 0x1001000\<rparr>"

definition demo_task :: vm_task where
  "demo_task = \<lparr>vt_in_use = False, vt_pager = 0, vt_name = replicate 32 0, vt_cmdline = replicate 512 0,
     vt_file = None, vt_free_vaddr = 0, vt_page_areas = [], vt_ool_buf = 0, vt_ool_len = 0,
     vt_received_ool_from = 0, vt_received_ool_buf = 0, vt_received_ool_len = 0,
     vt_ool_sender_queue = [], vt_ool_sender_m = (0, 0, 0), vt_waiting_for = replicate 32 0, vt_watchers = []\<rparr>"

definition demo_vm :: vm where
  "demo_vm = \<lparr>v_refs = \<lambda>_. 0, v_num_unused_pages = 0, v_regions = [], v_tasks = \<lambda>_. demo_task, v_services = [],
     v_shared_mems = [], v_files = [], v_bootfs = \<lambda>_. 0, v_tmp_page = 0, v_mem = \<lambda>_. 0, v_window = Map.empty,
     v_own = \<lambda>_. 0, v_calls = []\<rparr>"

definition demo_env :: vm_env where
  "demo_env = (\<lambda>_. OK)"

definition demo_memmap :: "(bool \<times> nat \<times> nat) list" where
  "demo_memmap = [(True, 0x10000000, 0x10000)]"

definition demo_booted :: "vm option" where
  "demo_booted = main_init demo_layout demo_env demo_memmap [0] demo_vm"

definition demo_served :: "vm option" where
  "demo_served = demo_booted \<bind> main_loop demo_layout demo_env 0 [(1, VM_ALLOC_PAGES_MSG 2 0)]"

lemma demo_strings:
  "strncpy2 (replicate 32 0) [118, 109, 0] 32 = Some ([118, 109, 0] @ replicate 29 0)"
  "strncpy2 (replicate 512 0) [0] 512 = Some (replicate 512 0)"
  "strncpy2 (replicate 32 0) [0] 32 = Some (replicate 32 0)"
  using strncpy2_eq [of "[118, 109, 0]" "[118, 109]" 32 "replicate 32 0"]
    strncpy2_eq [of "[0]" "[]" 512 "replicate 512 0"] strncpy2_eq [of "[0]" "[]" 32 "replicate 32 0"]
  by (simp_all flip: replicate_Suc)

lemma demo_image: "bootfs_init demo_vm = demo_vm"
  by (simp add: bootfs_init_def demo_vm_def img_bytes_def eval_nat_numeral Let_def)

lemmas demo_defs = demo_layout_def demo_task_def demo_vm_def demo_env_def demo_memmap_def kconst

lemma demo_booted_eq:
  "\<exists>s. demo_booted = Some s \<and> v_refs s = (\<lambda>_. 0) \<and> v_regions s = [\<lparr>rr_base = 0x10000000, rr_num_pages = 16\<rparr>] \<and>
     vt_in_use (v_tasks s 1) \<and> vt_page_areas (v_tasks s 1) = [] \<and> vt_free_vaddr (v_tasks s 1) = 0x10001000 \<and>
     v_tmp_page s = 0x10000000"
  unfolding demo_booted_def main_init_def demo_image
  by (simp add: demo_defs page_alloc_init_def task_init_def init_task_struct_def demo_strings
      page_fault_init_def virt_page_alloc_def spawn_servers_def Let_def upd_vtask_def List.map_filter_def)

lemma incref_loop_tasks: "v_tasks (incref_loop pfn n s) = v_tasks s"
  by (induction n arbitrary: pfn s) simp_all

text \<open>Page allocation on the fresh machine: the first pages of the region.\<close>

lemma demo_page_alloc:
  assumes "v_refs s = (\<lambda>_. 0)" "v_regions s = [\<lparr>rr_base = 0x10000000, rr_num_pages = 16\<rparr>]"
  shows "page_alloc demo_layout 2 s = Some (0x10000000, incref_loop 0 2 s)"
    and "page_alloc demo_layout 1 s = Some (0x10000000, incref_loop 0 1 s)"
proof -
  have "regions_loop demo_layout (v_regions s) 2 s = Some 0" "regions_loop demo_layout (v_regions s) 1 s = Some 0"
    using assms by (simp_all add: demo_layout_def paddr2pfn_def region_loop.simps free_run.simps kconst)
  then show "page_alloc demo_layout 2 s = Some (0x10000000, incref_loop 0 2 s)"
    "page_alloc demo_layout 1 s = Some (0x10000000, incref_loop 0 1 s)"
    by (simp_all add: page_alloc_def page_incref_def demo_layout_def kconst)
qed

lemma demo_served_runs: "\<exists>s1 s. demo_booted = Some s1 \<and>
  main_loop demo_layout demo_env 0 [(1, VM_ALLOC_PAGES_MSG 2 0)] s1 = Some s"
proof -
  obtain s where s: "demo_booted = Some s" "v_refs s = (\<lambda>_. 0)"
    "v_regions s = [\<lparr>rr_base = 0x10000000, rr_num_pages = 16\<rparr>]" "vt_in_use (v_tasks s 1)"
    "vt_free_vaddr (v_tasks s 1) = 0x10001000"
    using demo_booted_eq by blast
  let ?s = "incref_loop 0 2 s"
  have t: "v_tasks ?s = v_tasks s" by (rule incref_loop_tasks)
  have v: "virt_page_alloc demo_layout 1 2 ?s =
      Some (0x10001000, upd_vtask 1 (\<lambda>k. k\<lparr>vt_free_vaddr := (vt_free_vaddr k + 8192) mod 2 ^ 64\<rparr>) ?s)"
    using s(5) t by (simp add: virt_page_alloc_def demo_layout_def PGSIZE_def Let_def)
  have p: "task_page_alloc demo_layout demo_env 1 0 0 2 s = Some (OK, 0x10001000, 0x10000000,
      add_area 1 0x10001000 0x10000000 2
        (upd_vtask 1 (\<lambda>k. k\<lparr>vt_free_vaddr := (vt_free_vaddr k + 8192) mod 2 ^ 64\<rparr>) ?s))"
    using demo_page_alloc(1) [OF s(2,3)] v by (simp add: task_page_alloc_def)
  have l: "task_lookup 1 s = Some 1" using s(4) by (simp add: task_lookup_def NUM_TASKS_def)
  have "\<exists>s'. handle_message demo_layout demo_env 0 1 (VM_ALLOC_PAGES_MSG 2 0) s = Some s'"
    using l p by (simp add: handle_message_def handle_vm_alloc_pages_def)
  then show ?thesis using s(1) by auto
qed

section \<open>Physical pages\<close>

text \<open>
  C3: Pages are never lost track of. In every state the server reaches from its start by handling
  messages, whatever the kernel answers, a page has at least as many references as there are
  areas of tasks that contain it, every area lies inside the page table, and the counter of
  unused pages is exact. So a page that is part of a task's memory is not handed out again.
\<close>

theorem vm_pages_accounted:
  assumes "vm_zeroed s0" and "layout_ok ly"
    and "main_init ly env memmap autostarts s0 = Some s1" and "main_loop ly env garbage ms s1 = Some s"
    and "length ms + 2 < 2 ^ 32"
  shows "pages_inv ly s \<and>
    (\<forall>n paddr s' p. page_alloc ly n s = Some (paddr, s') \<longrightarrow>
      pfn_of ly paddr \<le> p \<longrightarrow> p < pfn_of ly paddr + n \<longrightarrow> users ly s p = 0)"
proof -
  have "vinv ly (1 + length ms) s"
    using main_loop_vinv [OF assms(4) main_init_vinv [OF assms(3,1,2)]] assms(5) by simp
  then have inv: "pages_inv ly s" by (rule vinv_pages)
  have "users ly s p = 0" if "page_alloc ly n s = Some (paddr, s')" "pfn_of ly paddr \<le> p" "p < pfn_of ly paddr + n"
    for n paddr s' p
    using page_alloc_Some [OF that(1) pages_inv_unused [OF inv]] pages_inv_users [OF inv, of p] that(2,3)
    by (metis le_zero_eq pfn_of_base)
  then show ?thesis using inv by blast
qed

lemma demo_start: "vm_zeroed demo_vm" "layout_ok demo_layout"
  by (simp_all add: vm_zeroed_def layout_ok_def demo_defs)

lemma demo_vinv: "demo_booted = Some s \<Longrightarrow> vinv demo_layout 1 s"
  using main_init_vinv demo_start by (fastforce simp: demo_booted_def)

theorem vm_pages_accounted_witness:
  "\<exists>s1 s. main_init demo_layout demo_env demo_memmap [0] demo_vm = Some s1 \<and>
     main_loop demo_layout demo_env 0 [(1, VM_ALLOC_PAGES_MSG 2 0)] s1 = Some s \<and>
     pages_inv demo_layout s"
proof -
  obtain s1 s where s: "main_init demo_layout demo_env demo_memmap [0] demo_vm = Some s1"
    "main_loop demo_layout demo_env 0 [(1, VM_ALLOC_PAGES_MSG 2 0)] s1 = Some s"
    using demo_served_runs by (auto simp: demo_booted_def)
  from vm_pages_accounted [OF demo_start s] s show ?thesis by auto
qed

lemma unused_gained:
  assumes "b + n \<le> PAGES_MAX" "\<And>p. b \<le> p \<Longrightarrow> p < b + n \<Longrightarrow> refs p = 0"
  shows "unused refs = unused (gained b n refs) + n"
proof -
  let ?Z = "{p. p < PAGES_MAX \<and> gained b n refs p = 0}"
  have "{p. p < PAGES_MAX \<and> refs p = 0} = ?Z \<union> {b..<b + n}"
    using assms by (auto simp: gained_def split: if_splits)
  moreover have "?Z \<inter> {b..<b + n} = {}" by (auto simp: gained_def)
  ultimately show ?thesis by (simp add: unused_def card_Un_disjoint)
qed

text \<open>
  C13: Allocation is complete and exclusive. On the regions the boot loader reported, a request
  for \<open>n\<close> pages is granted exactly when some region has \<open>n\<close> consecutive pages without references
  (otherwise the server panics). The pages granted lie in one region, had no reference and have
  one afterwards; no other page changes and the counter drops by \<open>n\<close>.
\<close>

theorem page_alloc_first_fit:
  assumes "\<And>r. r \<in> set (v_regions s) \<Longrightarrow> region_ok ly r" and "v_num_unused_pages s = unused (v_refs s)" and "0 < n"
  shows "case page_alloc ly n s of
      None \<Rightarrow> \<forall>r\<in>set (v_regions s). \<forall>b. \<not> free_in ly s n r b
    | Some (paddr, s') \<Rightarrow> \<exists>r\<in>set (v_regions s). \<exists>b. paddr = l_straight_mapping ly + b * PGSIZE \<and> free_in ly s n r b \<and>
        v_refs s' = (\<lambda>p. if b \<le> p \<and> p < b + n then 1 else v_refs s p) \<and>
        v_num_unused_pages s' + n = v_num_unused_pages s"
proof (cases "page_alloc ly n s")
  case None
  have "\<nexists>b. regions_loop ly (v_regions s) n s = Some b"
  proof
    assume "\<exists>b. regions_loop ly (v_regions s) n s = Some b"
    then obtain b where b: "regions_loop ly (v_regions s) n s = Some b" by blast
    from regions_loop_sound [OF this assms(1)] have "b + n \<le> PAGES_MAX"
      using assms(1) by (fastforce simp: free_in_def region_ok_def)
    then show False using None b by (simp add: page_alloc_def page_incref_def)
  qed
  then show ?thesis using regions_loop_complete [OF _ _ assms(3,1)] None by fastforce
next
  case (Some r)
  obtain paddr s' where r: "page_alloc ly n s = Some (paddr, s')" using Some by (cases r) simp
  from page_alloc_Some [OF r assms(2)] obtain b where b: "paddr = l_straight_mapping ly + b * PGSIZE" "b + n \<le> PAGES_MAX"
    and z: "\<And>p. b \<le> p \<Longrightarrow> p < b + n \<Longrightarrow> v_refs s p = 0"
    and s': "s' = s\<lparr>v_refs := gained b n (v_refs s), v_num_unused_pages := unused (gained b n (v_refs s))\<rparr>"
    and l: "regions_loop ly (v_regions s) n s = Some b" by blast
  have g: "gained b n (v_refs s) = (\<lambda>p. if b \<le> p \<and> p < b + n then 1 else v_refs s p)"
    using z by (auto simp: gained_def fun_eq_iff)
  have "unused (gained b n (v_refs s)) + n = unused (v_refs s)"
    using unused_gained [OF b(2) z] by simp
  then show ?thesis using regions_loop_sound [OF l assms(1)] b(1) r s' g assms(2) by auto
qed

theorem page_alloc_first_fit_witness:
  "\<exists>s. demo_booted = Some s \<and> page_alloc demo_layout 2 s \<noteq> None \<and>
    (case page_alloc demo_layout 2 s of
      None \<Rightarrow> \<forall>r\<in>set (v_regions s). \<forall>b. \<not> free_in demo_layout s 2 r b
    | Some (paddr, s') \<Rightarrow> \<exists>r\<in>set (v_regions s). \<exists>b. paddr = l_straight_mapping demo_layout + b * PGSIZE \<and>
        free_in demo_layout s 2 r b \<and> v_refs s' = (\<lambda>p. if b \<le> p \<and> p < b + 2 then 1 else v_refs s p) \<and>
        v_num_unused_pages s' + 2 = v_num_unused_pages s)"
proof -
  obtain s where s: "demo_booted = Some s" "v_refs s = (\<lambda>_. 0)"
    "v_regions s = [\<lparr>rr_base = 0x10000000, rr_num_pages = 16\<rparr>]"
    using demo_booted_eq by blast
  from demo_vinv [OF s(1)] have u: "v_num_unused_pages s = unused (v_refs s)" using pages_inv_unused vinv_pages by blast
  have r: "region_ok demo_layout r" if "r \<in> set (v_regions s)" for r
    using that s(3) by (simp add: region_ok_def pfn_of_def demo_layout_def kconst)
  show ?thesis
    by (rule exI [of _ s]) (use s(1) demo_page_alloc(1) [OF s(2,3)] page_alloc_first_fit [OF r u, of 2] in simp)
qed

section \<open>Killing a task\<close>



section \<open>The mapping loop\<close>

text \<open>The pages of the regions that have no reference.\<close>

definition free_pages :: "vm_layout \<Rightarrow> vm \<Rightarrow> nat set" where
  "free_pages ly s = {p. v_refs s p = 0 \<and>
     (\<exists>r\<in>set (v_regions s). pfn_of ly (rr_base r) \<le> p \<and> p < pfn_of ly (rr_base r) + rr_num_pages r)}"

definition regions_ok :: "vm_layout \<Rightarrow> vm \<Rightarrow> bool" where
  "regions_ok ly s \<longleftrightarrow> (\<forall>r\<in>set (v_regions s). region_ok ly r)"

lemma finite_free_pages: "regions_ok ly s \<Longrightarrow> finite (free_pages ly s)"
  by (rule finite_subset [of _ "{..<PAGES_MAX}"])
     (fastforce simp: free_pages_def regions_ok_def region_ok_def)+

text \<open>While a page is free, one page can be allocated, and it is one of those.\<close>

lemma page_alloc_one:
  assumes "regions_ok ly s" "free_pages ly s \<noteq> {}" "v_num_unused_pages s = unused (v_refs s)"
  obtains base s' where "page_alloc ly 1 s = Some (l_straight_mapping ly + base * PGSIZE, s')" "base < PAGES_MAX"
    "base \<in> free_pages ly s"
    "s' = s\<lparr>v_refs := gained base 1 (v_refs s), v_num_unused_pages := unused (gained base 1 (v_refs s))\<rparr>"
proof -
  have ok: "\<And>r. r \<in> set (v_regions s) \<Longrightarrow> region_ok ly r" using assms(1) by (simp add: regions_ok_def)
  from assms(2) obtain p r where p: "v_refs s p = 0" "r \<in> set (v_regions s)"
    "pfn_of ly (rr_base r) \<le> p" "p < pfn_of ly (rr_base r) + rr_num_pages r"
    by (auto simp: free_pages_def)
  then have "free_in ly s 1 r p" by (auto simp: free_in_def less_Suc_eq)
  from regions_loop_complete [OF p(2) this zero_less_one ok] obtain base where
    b: "regions_loop ly (v_regions s) 1 s = Some base" by blast
  from regions_loop_sound [OF b ok] obtain r where r: "r \<in> set (v_regions s)" "free_in ly s 1 r base" by blast
  then have le: "base + 1 \<le> PAGES_MAX" and fr: "base \<in> free_pages ly s"
    using ok [OF r(1)] by (auto simp: free_in_def region_ok_def free_pages_def)
  then have "\<exists>s'. page_alloc ly 1 s = Some (l_straight_mapping ly + base * PGSIZE, s')"
    using b by (simp add: page_alloc_def page_incref_def)
  then obtain s' where s': "page_alloc ly 1 s = Some (l_straight_mapping ly + base * PGSIZE, s')" by blast
  from page_alloc_Some [OF s' assms(3)] obtain base' where "regions_loop ly (v_regions s) 1 s = Some base'"
    "s' = s\<lparr>v_refs := gained base' 1 (v_refs s), v_num_unused_pages := unused (gained base' 1 (v_refs s))\<rparr>" by blast
  then show ?thesis using that [OF s'] le fr b by simp
qed

lemma free_pages_gained:
  "base \<in> free_pages ly s \<Longrightarrow> v_refs s' = gained base 1 (v_refs s) \<Longrightarrow> v_regions s' = v_regions s \<Longrightarrow>
    free_pages ly s' = free_pages ly s - {base}"
  by (auto simp: free_pages_def gained_def split: if_splits)

lemma kpage_alloc_one:
  assumes "vinv ly B s" "t \<in> {1..NUM_TASKS}" "regions_ok ly s" "free_pages ly s \<noteq> {}"
  obtains base s' where "kpage_alloc ly t s = Some (l_straight_mapping ly + base * PGSIZE, s')" "vinv ly B s'"
    "s' = add_area t 0 (l_straight_mapping ly + base * PGSIZE) 1
      (s\<lparr>v_refs := gained base 1 (v_refs s), v_num_unused_pages := unused (gained base 1 (v_refs s))\<rparr>)"
    "base \<in> free_pages ly s" "free_pages ly s' = free_pages ly s - {base}"
proof -
  from page_alloc_one [OF assms(3,4) pages_inv_unused [OF vinv_pages [OF assms(1)]]]
  obtain base s1 where b: "page_alloc ly 1 s = Some (l_straight_mapping ly + base * PGSIZE, s1)"
    "base \<in> free_pages ly s"
    "s1 = s\<lparr>v_refs := gained base 1 (v_refs s), v_num_unused_pages := unused (gained base 1 (v_refs s))\<rparr>" by blast
  let ?s = "add_area t 0 (l_straight_mapping ly + base * PGSIZE) 1 s1"
  have k: "kpage_alloc ly t s = Some (l_straight_mapping ly + base * PGSIZE, ?s)"
    using b(1) by (simp add: kpage_alloc_def)
  show ?thesis
    by (rule that [OF k kpage_alloc_vinv [OF k assms(1,2)] _ b(2)])
       (use b(2,3) in \<open>simp_all add: add_area_def free_pages_gained\<close>)
qed

lemma area_pos_append:
  "area_pos (xs @ [a]) (pa_paddr a) = Some k \<Longrightarrow> (\<And>x. x \<in> set xs \<Longrightarrow> pa_paddr x \<noteq> pa_paddr a) \<Longrightarrow> k = length xs"
  by (induction xs arbitrary: k) (auto split: if_splits)

lemma area_pos_found: "a \<in> set xs \<Longrightarrow> \<exists>k. area_pos xs (pa_paddr a) = Some k"
  by (induction xs) auto





lemma demo_regions:
  assumes "v_refs s = (\<lambda>_. 0)" "v_regions s = [\<lparr>rr_base = 0x10000000, rr_num_pages = 16\<rparr>]"
  shows "regions_ok demo_layout s" "free_pages demo_layout s = {0..<16}"
  using assms by (auto simp: regions_ok_def region_ok_def free_pages_def pfn_of_def demo_layout_def kconst)



section \<open>What the server's windows show\<close>

text \<open>When the kernel grants the mapping at once, the page for page tables goes back and only the
  window and the history change.\<close>

lemma lost_gained: "lost b n (gained b n refs) = refs"
  by (auto simp: lost_def gained_def fun_eq_iff)

lemma fresh_area_pos:
  assumes "vinv ly B s" "t \<in> {1..NUM_TASKS}" "v_refs s base = 0" "\<And>a. a \<in> set (areas s t) \<Longrightarrow> 0 < pa_num_pages a"
    and "pa_paddr a = l_straight_mapping ly + base * PGSIZE"
  shows "area_pos (areas s t @ [a]) (pa_paddr a) = Some (length (areas s t))"
proof -
  have "pa_paddr x \<noteq> pa_paddr a" if x: "x \<in> set (areas s t)" for x
  proof
    assume "pa_paddr x = pa_paddr a"
    then have "covers ly x base" using assms(4) [OF x] assms(5) by (simp add: covers_def)
    then have "0 < cover ly (areas s t) base" using x by (auto simp: cover_def filter_empty_conv)
    then show False
      using users_ge [OF assms(2), of ly s base] pages_inv_users [OF vinv_pages [OF assms(1)], of base] assms(3) by simp
  qed
  then show ?thesis
    using area_pos_found [of a "areas s t @ [a]"] area_pos_append [of "areas s t" a] by auto
qed

lemma window_loop:
  assumes "vinv ly B s" "regions_ok ly s" "free_pages ly s \<noteq> {}" "\<And>h. env h = OK"
    and "\<And>a. a \<in> set (areas s VM_TASK) \<Longrightarrow> 0 < pa_num_pages a"
  shows "\<exists>h. map_loop ly env VM_TASK vaddr paddr flags s =
    Some (OK, s\<lparr>v_window := (v_window s)(vaddr \<mapsto> paddr), v_calls := h\<rparr>)"
proof -
  obtain base s1 where s1: "kpage_alloc ly VM_TASK s = Some (l_straight_mapping ly + base * PGSIZE, s1)" "vinv ly B s1"
    "s1 = add_area VM_TASK 0 (l_straight_mapping ly + base * PGSIZE) 1
      (s\<lparr>v_refs := gained base 1 (v_refs s), v_num_unused_pages := unused (gained base 1 (v_refs s))\<rparr>)"
    "base \<in> free_pages ly s" "free_pages ly s1 = free_pages ly s - {base}"
    by (rule kpage_alloc_one [OF assms(1) vm_task_range(1) assms(2,3)])
  let ?kp = "l_straight_mapping ly + base * PGSIZE" and ?n = "length (areas s VM_TASK)"
  let ?a = "\<lparr>pa_vaddr = 0, pa_paddr = ?kp, pa_num_pages = 1\<rparr>"
  let ?s2 = "s1\<lparr>v_window := (v_window s)(vaddr \<mapsto> paddr), v_calls := v_calls s @ [Vm_map VM_TASK vaddr paddr ?kp flags]\<rparr>"
  have m: "sys_map env VM_TASK vaddr paddr ?kp flags s1 = (OK, ?s2)"
    unfolding s1(3) by (simp add: sys_map_def call_err_def call_def assms(4) add_area_def upd_vtask_def Let_def)
  have ar: "areas ?s2 VM_TASK = areas s VM_TASK @ [?a]" unfolding s1(3) by (simp add: add_area_def)
  have len: "?n < length (areas ?s2 VM_TASK)" using ar by simp
  have v2: "vinv ly B ?s2" using s1(2) by (subst vinv_cong [of _ s1]) simp_all
  have z: "v_refs s base = 0" using s1(4) by (simp add: free_pages_def)
  have pos: "area_pos (areas ?s2 VM_TASK) ?kp = Some ?n"
    using fresh_area_pos [OF assms(1) vm_task_range(1) z assms(5), of ?a] ar by simp
  obtain s3 where s3: "free_page_area ly VM_TASK ?n ?s2 = Some s3" "vinv ly B s3"
    "v_tasks s3 = (v_tasks ?s2)(VM_TASK := (v_tasks ?s2 VM_TASK)\<lparr>vt_page_areas :=
       take ?n (areas ?s2 VM_TASK) @ drop (Suc ?n) (areas ?s2 VM_TASK)\<rparr>)"
    "v_refs s3 = lost (pfn_of ly (pa_paddr (areas ?s2 VM_TASK ! ?n))) (pa_num_pages (areas ?s2 VM_TASK ! ?n)) (v_refs ?s2)"
    "s3 = ?s2\<lparr>v_tasks := v_tasks s3, v_refs := v_refs s3, v_num_unused_pages := v_num_unused_pages s3\<rparr>"
    by (rule free_page_area_vinv [OF v2 vm_task_range(1) len])
  have r: "v_refs s3 = v_refs s" unfolding s3(4) ar by (simp add: s1(3) add_area_def lost_gained [of _ 1, simplified])
  have u: "v_num_unused_pages s3 = v_num_unused_pages s"
    using pages_inv_unused [OF vinv_pages [OF s3(2)]] pages_inv_unused [OF vinv_pages [OF assms(1)]] r by simp
  have tk: "v_tasks s3 = v_tasks s" unfolding s3(3) ar by (simp add: s1(3) add_area_def)
  have "s3 = s\<lparr>v_window := (v_window s)(vaddr \<mapsto> paddr), v_calls := v_calls ?s2\<rparr>"
    by (subst s3(5)) (simp add: r u tk s1(3) add_area_def upd_vtask_def)
  then show ?thesis
    using s1(1) m pos s3(1) by (subst map_loop.simps) (auto simp: task_page_free_def)
qed

lemma window_map:
  assumes "vinv ly B s" "regions_ok ly s" "free_pages ly s \<noteq> {}" "\<And>h. env h = OK"
    and "\<And>a. a \<in> set (areas s VM_TASK) \<Longrightarrow> 0 < pa_num_pages a"
  obtains h where "map_page ly env VM_TASK vaddr paddr flags overwrite s =
    Some (OK, s\<lparr>v_window := (v_window s)(vaddr \<mapsto> paddr), v_calls := h\<rparr>)"
proof -
  let ?s = "if overwrite then sys_unmap VM_TASK vaddr s else s"
  have "vinv ly B ?s" "regions_ok ly ?s" "free_pages ly ?s \<noteq> {}"
    using assms(1-3) by (simp_all add: sys_unmap_def Let_def regions_ok_def free_pages_def)
  moreover have "areas ?s VM_TASK = areas s VM_TASK" by (simp add: sys_unmap_def Let_def)
  ultimately have "\<exists>h. map_loop ly env VM_TASK vaddr paddr flags ?s =
      Some (OK, ?s\<lparr>v_window := (v_window ?s)(vaddr \<mapsto> paddr), v_calls := h\<rparr>)"
    using assms(4,5) by (intro window_loop) simp_all
  then show ?thesis using that by (auto simp: map_page_def sys_unmap_def call_def Let_def split: if_splits)
qed

lemma page_arith:
  assumes "w mod PGSIZE = 0" "off < PGSIZE"
  shows "(w + off) div PGSIZE * PGSIZE = w" "(w + off) mod PGSIZE = off"
proof -
  obtain k where "w = k * PGSIZE" using assms(1) by (metis dvd_def mod_0_imp_dvd mult.commute)
  then show "(w + off) div PGSIZE * PGSIZE = w" "(w + off) mod PGSIZE = off" using assms(2) by simp_all
qed

lemma vm_write_window:
  assumes "v_window s w = Some p" "w mod PGSIZE = 0" "off < PGSIZE"
  shows "vm_write (w + off) b s = s\<lparr>v_mem := (v_mem s)(p + off := b)\<rparr>"
  using assms(1) page_arith [OF assms(2,3)] by (simp add: vm_write_def)

lemma vm_read_window:
  assumes "v_window s w = Some p" "w mod PGSIZE = 0" "off < PGSIZE"
  shows "vm_read s (w + off) = v_mem s (p + off)"
  using assms(1) page_arith [OF assms(2,3)] by (simp add: vm_read_def)

lemma mem_same: "(\<And>q. v_mem s q = f q) \<Longrightarrow> s = s\<lparr>v_mem := f\<rparr>"
proof -
  assume "\<And>q. v_mem s q = f q"
  then have "f = v_mem s" by (simp add: fun_eq_iff)
  then show ?thesis by simp
qed

lemma vm_store_window:
  assumes "v_window s w = Some p" "w mod PGSIZE = 0" "off + length bs \<le> PGSIZE"
  shows "vm_store (w + off) bs s = s\<lparr>v_mem := (\<lambda>q. if p + off \<le> q \<and> q < p + off + length bs
    then bs ! (q - (p + off)) else v_mem s q)\<rparr>"
  using assms
proof (induction bs arbitrary: off s)
  case (Cons b bs)
  let ?s = "s\<lparr>v_mem := (v_mem s)(p + off := b)\<rparr>"
  have "vm_store (w + off) (b # bs) s = vm_store (w + Suc off) bs ?s"
    using vm_write_window [OF Cons.prems(1,2)] Cons.prems(3) by simp
  also have "\<dots> = ?s\<lparr>v_mem := (\<lambda>q. if p + Suc off \<le> q \<and> q < p + Suc off + length bs
      then bs ! (q - (p + Suc off)) else v_mem ?s q)\<rparr>"
    using Cons.prems by (intro Cons.IH) simp_all
  also have "\<dots> = s\<lparr>v_mem := (\<lambda>q. if p + off \<le> q \<and> q < p + off + length (b # bs)
      then (b # bs) ! (q - (p + off)) else v_mem s q)\<rparr>"
  proof -
    have "(if p + Suc off \<le> q \<and> q < p + Suc off + length bs then bs ! (q - (p + Suc off)) else v_mem ?s q) =
        (if p + off \<le> q \<and> q < p + off + length (b # bs) then (b # bs) ! (q - (p + off)) else v_mem s q)" for q
      by (cases "q = p + off") (auto simp: nth_Cons')
    then show ?thesis by simp
  qed
  finally show ?case .
qed (auto intro!: mem_same)

lemma vm_memcpy_window:
  assumes "v_window s ws = Some ps" "v_window s wd = Some pd" "ws mod PGSIZE = 0" "wd mod PGSIZE = 0"
    and "so + n \<le> PGSIZE" "doff + n \<le> PGSIZE"
    and "\<And>i j. i < n \<Longrightarrow> j < n \<Longrightarrow> ps + so + i \<noteq> pd + doff + j"
  shows "vm_memcpy (wd + doff) (ws + so) n s = s\<lparr>v_mem := (\<lambda>q. if pd + doff \<le> q \<and> q < pd + doff + n
    then v_mem s (ps + so + (q - (pd + doff))) else v_mem s q)\<rparr>"
  using assms
proof (induction n arbitrary: so doff s)
  case (Suc n)
  let ?s = "s\<lparr>v_mem := (v_mem s)(pd + doff := v_mem s (ps + so))\<rparr>"
  have "vm_memcpy (wd + doff) (ws + so) (Suc n) s = vm_memcpy (wd + Suc doff) (ws + Suc so) n ?s"
    using vm_write_window [OF Suc.prems(2,4)] vm_read_window [OF Suc.prems(1,3)] Suc.prems(5,6) by simp
  also have "\<dots> = ?s\<lparr>v_mem := (\<lambda>q. if pd + Suc doff \<le> q \<and> q < pd + Suc doff + n
      then v_mem ?s (ps + Suc so + (q - (pd + Suc doff))) else v_mem ?s q)\<rparr>"
  proof (rule Suc.IH)
    show "ps + Suc so + i \<noteq> pd + Suc doff + j" if "i < n" "j < n" for i j
      using Suc.prems(7) [of "Suc i" "Suc j"] that by simp
  qed (use Suc.prems in simp_all)
  also have "\<dots> = s\<lparr>v_mem := (\<lambda>q. if pd + doff \<le> q \<and> q < pd + doff + Suc n
      then v_mem s (ps + so + (q - (pd + doff))) else v_mem s q)\<rparr>"
  proof -
    have "(if pd + Suc doff \<le> q \<and> q < pd + Suc doff + n then v_mem ?s (ps + Suc so + (q - (pd + Suc doff))) else v_mem ?s q) =
        (if pd + doff \<le> q \<and> q < pd + doff + Suc n then v_mem s (ps + so + (q - (pd + doff))) else v_mem s q)" for q
    proof (cases "pd + Suc doff \<le> q \<and> q < pd + Suc doff + n")
      case True
      then have i: "Suc (q - (pd + Suc doff)) = q - (pd + doff)" "q - (pd + doff) < Suc n" by auto
      have "ps + so + (q - (pd + doff)) \<noteq> pd + doff" using Suc.prems(7) [OF i(2), of 0] by simp
      then show ?thesis using True i by (simp flip: i(1))
    next
      case False
      then show ?thesis by (cases "q = pd + doff") auto
    qed
    then show ?thesis by simp
  qed
  finally show ?case .
qed (auto intro!: mem_same)

section \<open>Page faults\<close>

text \<open>Filling a fresh page: only that page changes.\<close>

lemma fill_page_fresh:
  assumes "vinv ly B s" "t \<in> {1..NUM_TASKS}" "regions_ok ly s" "2 \<le> card (free_pages ly s)" "\<forall>h. env h = OK"
    and "\<forall>a\<in>set (areas s VM_TASK). 0 < pa_num_pages a"
    and "vaddr \<noteq> 0" "v_tmp_page s mod PGSIZE = 0" "length contents = PGSIZE"
  shows "\<exists>base s'. fill_page ly env t vaddr contents s = Some (l_straight_mapping ly + base * PGSIZE, s') \<and>
    base \<in> free_pages ly s \<and>
    v_tasks s' = (v_tasks s)(t := (v_tasks s t)\<lparr>vt_page_areas := areas s t @
      [\<lparr>pa_vaddr = vaddr, pa_paddr = l_straight_mapping ly + base * PGSIZE, pa_num_pages = 1\<rparr>]\<rparr>) \<and>
    v_mem s' = (\<lambda>q. if l_straight_mapping ly + base * PGSIZE \<le> q \<and> q < l_straight_mapping ly + base * PGSIZE + PGSIZE
      then contents ! (q - (l_straight_mapping ly + base * PGSIZE)) else v_mem s q)"
proof -
  have ne: "free_pages ly s \<noteq> {}" using assms(4) by auto
  from page_alloc_one [OF assms(3) ne pages_inv_unused [OF vinv_pages [OF assms(1)]]]
  obtain base s1 where b: "page_alloc ly 1 s = Some (l_straight_mapping ly + base * PGSIZE, s1)"
    "base \<in> free_pages ly s"
    "s1 = s\<lparr>v_refs := gained base 1 (v_refs s), v_num_unused_pages := unused (gained base 1 (v_refs s))\<rparr>" by blast
  define p where "p = l_straight_mapping ly + base * PGSIZE"
  define s2 where "s2 = add_area t vaddr p 1 s1"
  have a: "task_page_alloc ly env t vaddr 0 1 s = Some (OK, vaddr, p, s2)"
    using b(1) assms(7) by (simp add: task_page_alloc_def p_def s2_def)
  have v2: "vinv ly B s2" by (rule task_page_alloc_fresh_vinv [OF a assms(1,2)])
  have "free_pages ly s2 = free_pages ly s - {base}" using b(2,3) by (simp add: free_pages_gained s2_def add_area_def)
  moreover have "card (free_pages ly s - {base}) \<noteq> 0"
    using b(2) assms(4) finite_free_pages [OF assms(3)] by (simp add: card_Diff_singleton)
  ultimately have f2: "free_pages ly s2 \<noteq> {}" by (metis card.empty)
  have r2: "regions_ok ly s2" using assms(3) b(3) by (simp add: regions_ok_def s2_def add_area_def)
  have n2: "0 < pa_num_pages a" if "a \<in> set (areas s2 VM_TASK)" for a
    using that assms(6) b(3) by (auto simp: s2_def add_area_def split: if_splits)
  obtain h where m: "map_page ly env VM_TASK (v_tmp_page s) p MAP_READWRITE False s2 =
      Some (OK, s2\<lparr>v_window := (v_window s2)(v_tmp_page s \<mapsto> p), v_calls := h\<rparr>)"
    by (rule window_map [OF v2 r2 f2 assms(5) [rule_format] n2])
  define s3 where "s3 = s2\<lparr>v_window := (v_window s2)(v_tmp_page s \<mapsto> p), v_calls := h\<rparr>"
  have t: "v_tmp_page s2 = v_tmp_page s" "v_tmp_page s3 = v_tmp_page s"
    using b(3) by (simp_all add: s3_def s2_def add_area_def)
  have w: "v_window s3 (v_tmp_page s) = Some p" by (simp add: s3_def)
  have "fill_page ly env t vaddr contents s = Some (p, vm_store (v_tmp_page s + 0) contents s3)"
    using a m t by (simp add: fill_page_def flip: s3_def)
  also have "vm_store (v_tmp_page s + 0) contents s3 =
      s3\<lparr>v_mem := (\<lambda>q. if p + 0 \<le> q \<and> q < p + 0 + length contents then contents ! (q - (p + 0)) else v_mem s3 q)\<rparr>"
    by (rule vm_store_window [OF w assms(8)]) (simp add: assms(9))
  finally have e: "fill_page ly env t vaddr contents s = Some (p, s3\<lparr>v_mem := (\<lambda>q. if p \<le> q \<and> q < p + PGSIZE
      then contents ! (q - p) else v_mem s3 q)\<rparr>)" by (simp only: add_0_right assms(9))
  have "v_mem s3 = v_mem s" "v_tasks s3 = v_tasks s2" using b(3) by (simp_all add: s3_def s2_def add_area_def)
  moreover have "v_tasks s2 = (v_tasks s)(t := (v_tasks s t)\<lparr>vt_page_areas := areas s t @
      [\<lparr>pa_vaddr = vaddr, pa_paddr = p, pa_num_pages = 1\<rparr>]\<rparr>)"
    using b(3) by (simp add: s2_def add_area_def)
  ultimately show ?thesis using e b(2) unfolding p_def by (intro exI [of _ base] exI conjI) (assumption | simp cong: if_cong)+
qed

text \<open>
  C9: A fault in the zeroed part of a task's address space is answered with a page that nobody
  had, that now belongs to the task at the faulting address, and that is all zeroes: the task
  cannot see what an earlier owner left in it. No other byte of memory and no other task
  changes.
\<close>

theorem page_fault_zeroed:
  assumes "vinv ly B s" and "t \<in> {1..NUM_TASKS}" and "regions_ok ly s" and "2 \<le> card (free_pages ly s)"
    and "\<And>h. env h = OK" and "\<And>a. a \<in> set (vt_page_areas (v_tasks s VM_TASK)) \<Longrightarrow> 0 < pa_num_pages a"
    and "v_tmp_page s mod PGSIZE = 0" and "PGSIZE \<le> vaddr" and "fault AND EXP_PF_PRESENT = 0"
    and "page = vaddr div PGSIZE * PGSIZE" and "page \<noteq> l_cmdline ly"
    and "find_area (vt_page_areas (v_tasks s t)) page = None"
    and "l_zeroed_pages ly \<le> page" and "page < l_zeroed_pages_end ly"
  shows "\<exists>base paddr s'. handle_page_fault ly env t vaddr fault s = Some (paddr, s') \<and>
    paddr = l_straight_mapping ly + base * PGSIZE \<and> base \<in> free_pages ly s \<and> users ly s base = 0 \<and>
    v_tasks s' = (v_tasks s)(t := (v_tasks s t)\<lparr>vt_page_areas := vt_page_areas (v_tasks s t) @
      [\<lparr>pa_vaddr = page, pa_paddr = paddr, pa_num_pages = 1\<rparr>]\<rparr>) \<and>
    (\<forall>q. v_mem s' q = (if paddr \<le> q \<and> q < paddr + PGSIZE then 0 else v_mem s q))"
proof -
  have o: "\<forall>h. env h = OK" and n: "\<forall>a\<in>set (areas s VM_TASK). 0 < pa_num_pages a"
    using assms(5,6) by blast+
  have pos: "page \<noteq> 0" using assms(8,10) by (simp add: PGSIZE_def)
  have e: "handle_page_fault ly env t vaddr fault s = fill_page ly env t page (replicate PGSIZE 0) s"
    using assms(8-14) by (simp add: handle_page_fault_def Let_def)
  obtain base s' where f: "fill_page ly env t page (replicate PGSIZE 0) s = Some (l_straight_mapping ly + base * PGSIZE, s')"
    and b: "base \<in> free_pages ly s"
    and tk: "v_tasks s' = (v_tasks s)(t := (v_tasks s t)\<lparr>vt_page_areas := areas s t @
      [\<lparr>pa_vaddr = page, pa_paddr = l_straight_mapping ly + base * PGSIZE, pa_num_pages = 1\<rparr>]\<rparr>)"
    and m: "v_mem s' = (\<lambda>q. if l_straight_mapping ly + base * PGSIZE \<le> q \<and> q < l_straight_mapping ly + base * PGSIZE + PGSIZE
      then replicate PGSIZE 0 ! (q - (l_straight_mapping ly + base * PGSIZE)) else v_mem s q)"
    using fill_page_fresh [OF assms(1-4) o n pos assms(7) length_replicate] by blast
  have "users ly s base = 0"
    using pages_inv_users [OF vinv_pages [OF assms(1)], of base] b by (simp add: free_pages_def)
  then show ?thesis using e f b tk m by (intro exI [of _ base] exI conjI) (auto simp: e)
qed

theorem page_fault_zeroed_witness:
  "\<exists>s paddr s'. demo_booted = Some s \<and> handle_page_fault demo_layout demo_env 1 0x4000123 4 s = Some (paddr, s') \<and>
    v_mem s' (paddr + 5) = 0"
proof -
  obtain s where s: "demo_booted = Some s" "v_refs s = (\<lambda>_. 0)"
    "v_regions s = [\<lparr>rr_base = 0x10000000, rr_num_pages = 16\<rparr>]" "vt_page_areas (v_tasks s 1) = []" "v_tmp_page s = 0x10000000"
    using demo_booted_eq by blast
  have "\<exists>base paddr s'. handle_page_fault demo_layout demo_env 1 0x4000123 4 s = Some (paddr, s') \<and>
    paddr = l_straight_mapping demo_layout + base * PGSIZE \<and> base \<in> free_pages demo_layout s \<and> users demo_layout s base = 0 \<and>
    v_tasks s' = (v_tasks s)(1 := (v_tasks s 1)\<lparr>vt_page_areas := vt_page_areas (v_tasks s 1) @
      [\<lparr>pa_vaddr = 0x4000000, pa_paddr = paddr, pa_num_pages = 1\<rparr>]\<rparr>) \<and>
    (\<forall>q. v_mem s' q = (if paddr \<le> q \<and> q < paddr + PGSIZE then 0 else v_mem s q))"
    by (rule page_fault_zeroed [OF demo_vinv [OF s(1)] _ demo_regions(1) [OF s(2,3)]])
       (use s demo_regions(2) [OF s(2,3)] in \<open>simp_all add: demo_env_def demo_layout_def kconst\<close>)
  then obtain paddr s' where "handle_page_fault demo_layout demo_env 1 0x4000123 4 s = Some (paddr, s')"
    "\<forall>q. v_mem s' q = (if paddr \<le> q \<and> q < paddr + PGSIZE then 0 else v_mem s q)" by blast
  then show ?thesis using s(1) by (intro exI [of _ s] exI [of _ paddr] exI [of _ s']) (simp add: PGSIZE_def)
qed

section \<open>Copying payloads\<close>

text \<open>The physical address a task's areas give to a virtual address.\<close>

definition xlat :: "vm \<Rightarrow> nat \<Rightarrow> nat \<Rightarrow> nat option" where
  "xlat s t v = map_option (\<lambda>p. p + v mod PGSIZE) (find_area (vt_page_areas (v_tasks s t)) (v div PGSIZE * PGSIZE))"

lemma xlat_add:
  assumes "v mod PGSIZE + i < PGSIZE"
  shows "xlat s t (v + i) = map_option (\<lambda>p. p + i) (xlat s t v)"
proof -
  have e: "v + i = v div PGSIZE * PGSIZE + (v mod PGSIZE + i)" using div_mult_mod_eq [of v PGSIZE] by simp
  have "(v + i) div PGSIZE * PGSIZE = v div PGSIZE * PGSIZE" "(v + i) mod PGSIZE = v mod PGSIZE + i"
    by (subst e, rule page_arith; use assms in simp)+
  then show ?thesis unfolding xlat_def by (simp only: option.map_comp o_def add.assoc)
qed

lemma find_area_pos:
  assumes "vinv ly B s" "t \<in> {1..NUM_TASKS}" "find_area (areas s t) v = Some p"
  shows "p \<noteq> 0"
proof -
  have "\<exists>a\<in>set xs. pa_paddr a \<le> p" if "find_area xs v = Some p" for xs
    using that by (induction xs) (auto split: if_splits)
  then show ?thesis
    using assms(3) pages_inv_area [OF vinv_pages [OF assms(1)] assms(2)] vinv_layout [OF assms(1)]
    by (fastforce simp: area_ok_def layout_ok_def)
qed

text \<open>The situation in which payloads are copied: a free page for the kernel, a kernel that maps at
  once, and two page-aligned windows.\<close>

definition can_copy :: "vm_layout \<Rightarrow> vm_env \<Rightarrow> nat \<Rightarrow> vm \<Rightarrow> bool" where
  "can_copy ly env B s \<longleftrightarrow> vinv ly B s \<and> regions_ok ly s \<and> free_pages ly s \<noteq> {} \<and> (\<forall>h. env h = OK) \<and>
     (\<forall>a\<in>set (vt_page_areas (v_tasks s VM_TASK)). 0 < pa_num_pages a) \<and>
     l_src_page ly mod PGSIZE = 0 \<and> l_dst_page ly mod PGSIZE = 0 \<and> l_src_page ly \<noteq> l_dst_page ly"

lemma can_copy_frame [simp]:
  "can_copy ly env B (s\<lparr>v_window := w, v_calls := h\<rparr>) = can_copy ly env B s"
  "can_copy ly env B (s\<lparr>v_mem := m\<rparr>) = can_copy ly env B s"
  by (simp_all add: can_copy_def regions_ok_def free_pages_def vinv_cong [of "s\<lparr>v_window := w, v_calls := h\<rparr>" s])

lemma reach_buf_window:
  assumes "can_copy ly env B s" "t \<in> {1..NUM_TASKS}" "t \<noteq> VM_TASK" "xlat s t v = Some x"
  obtains p h where "reach_buf ly env t v page write s =
      Some (At (page + v mod PGSIZE), s\<lparr>v_window := (v_window s)(page \<mapsto> p), v_calls := h\<rparr>)"
    "x = p + v mod PGSIZE"
proof -
  note c = assms(1) [unfolded can_copy_def]
  from assms(4) obtain p where p: "find_area (areas s t) (v div PGSIZE * PGSIZE) = Some p" "x = p + v mod PGSIZE"
    by (auto simp: xlat_def)
  have "p \<noteq> 0" using c find_area_pos [OF _ assms(2) p(1)] by blast
  moreover obtain h where "map_page ly env VM_TASK page p MAP_READWRITE True s =
      Some (OK, s\<lparr>v_window := (v_window s)(page \<mapsto> p), v_calls := h\<rparr>)"
    by (rule window_map [of ly B s env]) (use c in blast)+
  ultimately show ?thesis using that [of h p] p assms(3) by (simp add: reach_buf_def vaddr2paddr_def)
qed

lemma copy_len_bounds:
  "copy_len a b n \<le> n" "a mod PGSIZE + copy_len a b n \<le> PGSIZE" "b mod PGSIZE + copy_len a b n \<le> PGSIZE"
proof -
  have "a mod PGSIZE < PGSIZE" "b mod PGSIZE < PGSIZE" by (simp_all add: PGSIZE_def)
  then show "copy_len a b n \<le> n" "a mod PGSIZE + copy_len a b n \<le> PGSIZE" "b mod PGSIZE + copy_len a b n \<le> PGSIZE"
    unfolding copy_len_def by linarith+
qed

text \<open>One round: both pages are mapped and the bytes up to the next page boundary are copied.\<close>

lemma copy_round:
  assumes "can_copy ly env B s" "src \<in> {1..NUM_TASKS}" "dst \<in> {1..NUM_TASKS}" "src \<noteq> VM_TASK" "dst \<noteq> VM_TASK"
    and "xlat s src a = Some x" "xlat s dst b = Some y" "0 < n" "k = copy_len a b n"
    and "\<And>i j. i < k \<Longrightarrow> j < k \<Longrightarrow> x + i \<noteq> y + j"
  obtains w h where "copy_loop ly env src dst a b n s =
    copy_loop ly env src dst ((a + k) mod 2 ^ 64) ((b + k) mod 2 ^ 64) (n - k)
      (s\<lparr>v_window := w, v_calls := h, v_mem := (\<lambda>q. if y \<le> q \<and> q < y + k then v_mem s (x + (q - y)) else v_mem s q)\<rparr>)"
proof -
  note c = assms(1) [unfolded can_copy_def]
  obtain ps h where r1: "reach_buf ly env src a (l_src_page ly) False s =
      Some (At (l_src_page ly + a mod PGSIZE), s\<lparr>v_window := (v_window s)(l_src_page ly \<mapsto> ps), v_calls := h\<rparr>)"
    and ps: "x = ps + a mod PGSIZE"
    by (rule reach_buf_window [OF assms(1,2,4,6)])
  define s1 where "s1 = s\<lparr>v_window := (v_window s)(l_src_page ly \<mapsto> ps), v_calls := h\<rparr>"
  have c1: "can_copy ly env B s1" and x1: "xlat s1 dst b = Some y"
    using assms(1,7) by (simp_all add: s1_def xlat_def)
  obtain pd h' where r2: "reach_buf ly env dst b (l_dst_page ly) True s1 =
      Some (At (l_dst_page ly + b mod PGSIZE), s1\<lparr>v_window := (v_window s1)(l_dst_page ly \<mapsto> pd), v_calls := h'\<rparr>)"
    and pd: "y = pd + b mod PGSIZE"
    by (rule reach_buf_window [OF c1 assms(3,5) x1])
  define s2 where "s2 = s1\<lparr>v_window := (v_window s1)(l_dst_page ly \<mapsto> pd), v_calls := h'\<rparr>"
  have w: "v_window s2 (l_src_page ly) = Some ps" "v_window s2 (l_dst_page ly) = Some pd"
    using c by (auto simp: s2_def s1_def)
  have m: "vm_memcpy (l_dst_page ly + b mod PGSIZE) (l_src_page ly + a mod PGSIZE) k s2 =
      s2\<lparr>v_mem := (\<lambda>q. if pd + b mod PGSIZE \<le> q \<and> q < pd + b mod PGSIZE + k
        then v_mem s2 (ps + a mod PGSIZE + (q - (pd + b mod PGSIZE))) else v_mem s2 q)\<rparr>"
    by (rule vm_memcpy_window [OF w]) (use c copy_len_bounds assms(9,10) ps pd in auto)
  have ms: "v_mem s2 = v_mem s" by (simp add: s2_def s1_def)
  have "copy_loop ly env src dst a b n s =
      copy_loop ly env src dst ((a + k) mod 2 ^ 64) ((b + k) mod 2 ^ 64) (n - k)
        (vm_memcpy (l_dst_page ly + b mod PGSIZE) (l_src_page ly + a mod PGSIZE) k s2)"
    using assms(8,9) r1 r2 by (subst copy_loop.simps) (simp add: Let_def flip: s1_def s2_def)
  also note m [unfolded ms, folded ps pd]
  also have "s2\<lparr>v_mem := (\<lambda>q. if y \<le> q \<and> q < y + k then v_mem s (x + (q - y)) else v_mem s q)\<rparr> =
      s\<lparr>v_window := v_window s2, v_calls := v_calls s2,
        v_mem := (\<lambda>q. if y \<le> q \<and> q < y + k then v_mem s (x + (q - y)) else v_mem s q)\<rparr>"
    by (simp add: s2_def s1_def)
  finally show ?thesis by (rule that)
qed

text \<open>The bytes of a range, by their physical addresses.\<close>

definition range_at :: "vm \<Rightarrow> nat \<Rightarrow> nat \<Rightarrow> nat \<Rightarrow> (nat \<Rightarrow> nat) \<Rightarrow> bool" where
  "range_at s t a n f \<longleftrightarrow> (\<forall>i<n. xlat s t (a + i) = Some (f i))"

lemma range_at_page:
  assumes "range_at s t a n f" "a mod PGSIZE + k \<le> PGSIZE" "k \<le> n" "i < k"
  shows "f i = f 0 + i"
proof -
  have "xlat s t (a + i) = map_option (\<lambda>p. p + i) (xlat s t a)" by (rule xlat_add) (use assms in simp)
  then show ?thesis using assms by (auto simp: range_at_def)
qed

lemma copied_bytes:
  fixes xs xd :: "nat \<Rightarrow> nat" and m m' :: "nat \<Rightarrow> u8"
  assumes "m = (\<lambda>q. if xd 0 \<le> q \<and> q < xd 0 + k then mem (xs 0 + (q - xd 0)) else mem q)"
    and "\<And>i. i < k \<Longrightarrow> xs i = xs 0 + i" "\<And>i. i < k \<Longrightarrow> xd i = xd 0 + i" "k \<le> n"
    and "inj_on xd {..<n}" "\<And>i j. i < n \<Longrightarrow> j < n \<Longrightarrow> xs i \<noteq> xd j"
    and "\<forall>i<n - k. m' (xd (k + i)) = m (xs (k + i))" "\<forall>q. q \<notin> (\<lambda>i. xd (k + i)) ` {..<n - k} \<longrightarrow> m' q = m q"
  shows "(\<forall>i<n. m' (xd i) = mem (xs i)) \<and> (\<forall>q. q \<notin> xd ` {..<n} \<longrightarrow> m' q = mem q)"
proof -
  have old: "m q = mem q" if "\<And>i. i < k \<Longrightarrow> q \<noteq> xd i" for q
  proof -
    have "\<not> (xd 0 \<le> q \<and> q < xd 0 + k)"
      using that [of "q - xd 0"] assms(3) [of "q - xd 0"] by linarith
    then show ?thesis unfolding assms(1) by meson
  qed
  have new: "m (xd i) = mem (xs i)" if "i < k" for i
    using assms(2,3) [OF that] that by (simp add: assms(1))
  have rest: "(\<lambda>i. xd (k + i)) ` {..<n - k} = xd ` {k..<n}"
    by (simp flip: image_image add: lessThan_atLeast0 image_add_atLeastLessThan assms(4))
  have "m' (xd i) = mem (xs i)" if i: "i < n" for i
  proof (cases "i < k")
    case True
    then have "xd i \<notin> xd ` {k..<n}" using assms(5) i by (auto dest!: inj_onD)
    then show ?thesis using assms(8) rest new [OF True] by simp
  next
    case False
    have "m (xs i) = mem (xs i)" by (rule old) (use assms(4,6) i in auto)
    then show ?thesis using assms(7) False i by (auto dest!: spec [of _ "i - k"])
  qed
  moreover have "m' q = mem q" if "q \<notin> xd ` {..<n}" for q
  proof -
    have "m q = mem q" by (rule old) (use that assms(4) in auto)
    moreover have "q \<notin> xd ` {k..<n}" using that by auto
    ultimately show ?thesis using assms(8) rest by simp
  qed
  ultimately show ?thesis by blast
qed

lemma copy_loop_copies:
  assumes "can_copy ly env B s" "src \<in> {1..NUM_TASKS}" "dst \<in> {1..NUM_TASKS}" "src \<noteq> VM_TASK" "dst \<noteq> VM_TASK"
    and "range_at s src a n xs" "range_at s dst b n xd" "a + n < 2 ^ 64" "b + n < 2 ^ 64"
    and "inj_on xd {..<n}" "\<And>i j. i < n \<Longrightarrow> j < n \<Longrightarrow> xs i \<noteq> xd j"
  shows "\<exists>w h m. copy_loop ly env src dst a b n s = Some (OK, s\<lparr>v_window := w, v_calls := h, v_mem := m\<rparr>) \<and>
    (\<forall>i<n. m (xd i) = v_mem s (xs i)) \<and> (\<forall>q. q \<notin> xd ` {..<n} \<longrightarrow> m q = v_mem s q)"
  using assms
proof (induction n arbitrary: a b s xs xd rule: less_induct)
  case (less n)
  show ?case
  proof (cases "n = 0")
    case True
    then show ?thesis
      by (intro exI [of _ "v_window s"] exI [of _ "v_calls s"] exI [of _ "v_mem s"]) (simp add: copy_loop.simps)
  next
    case False
    define k where "k = copy_len a b n"
    have k: "0 < k" "k \<le> n" "a mod PGSIZE + k \<le> PGSIZE" "b mod PGSIZE + k \<le> PGSIZE"
      using False copy_len_pos copy_len_bounds by (auto simp: k_def)
    have fs: "xs i = xs 0 + i" and fd: "xd i = xd 0 + i" if "i < k" for i
      using range_at_page [OF less.prems(6) k(3,2) that] range_at_page [OF less.prems(7) k(4,2) that] by auto
    have x: "xlat s src a = Some (xs 0)" "xlat s dst b = Some (xd 0)"
      using less.prems(6,7) False by (auto simp: range_at_def dest!: spec [of _ 0])
    have dj: "xs 0 + i \<noteq> xd 0 + j" if "i < k" "j < k" for i j
      using less.prems(11) [of i j] fs [OF that(1)] fd [OF that(2)] that k(2) by simp
    define m where "m = (\<lambda>q. if xd 0 \<le> q \<and> q < xd 0 + k then v_mem s (xs 0 + (q - xd 0)) else v_mem s q)"
    obtain w h where e: "copy_loop ly env src dst a b n s =
        copy_loop ly env src dst ((a + k) mod 2 ^ 64) ((b + k) mod 2 ^ 64) (n - k)
          (s\<lparr>v_window := w, v_calls := h, v_mem := m\<rparr>)"
      unfolding m_def by (rule copy_round [OF less.prems(1-5) x _ k_def dj]) (use False in simp)
    let ?s = "s\<lparr>v_window := w, v_calls := h, v_mem := m\<rparr>"
    have "\<exists>w h m'. copy_loop ly env src dst (a + k) (b + k) (n - k) ?s =
        Some (OK, ?s\<lparr>v_window := w, v_calls := h, v_mem := m'\<rparr>) \<and>
      (\<forall>i<n - k. m' (xd (k + i)) = v_mem ?s (xs (k + i))) \<and>
      (\<forall>q. q \<notin> (\<lambda>i. xd (k + i)) ` {..<n - k} \<longrightarrow> m' q = v_mem ?s q)"
    proof (rule less.IH)
      show "range_at ?s src (a + k) (n - k) (\<lambda>i. xs (k + i))" "range_at ?s dst (b + k) (n - k) (\<lambda>i. xd (k + i))"
        using less.prems(6,7) by (simp_all add: range_at_def xlat_def add.assoc)
      show "inj_on (\<lambda>i. xd (k + i)) {..<n - k}"
        by (rule inj_onI) (use less.prems(10) in \<open>auto dest!: inj_onD\<close>)
    qed (use less.prems k in simp_all)
    then obtain w' h' m' where m': "copy_loop ly env src dst (a + k) (b + k) (n - k) ?s =
        Some (OK, ?s\<lparr>v_window := w', v_calls := h', v_mem := m'\<rparr>)"
      "\<forall>i<n - k. m' (xd (k + i)) = m (xs (k + i))" "\<forall>q. q \<notin> (\<lambda>i. xd (k + i)) ` {..<n - k} \<longrightarrow> m' q = m q"
      by auto
    have mod: "(a + k) mod 2 ^ 64 = a + k" "(b + k) mod 2 ^ 64 = b + k" using less.prems(8,9) k(2) by simp_all
    have "copy_loop ly env src dst a b n s = Some (OK, s\<lparr>v_window := w', v_calls := h', v_mem := m'\<rparr>)"
      unfolding e mod m'(1) by simp
    moreover note copied_bytes [OF m_def fs fd k(2) less.prems(10,11) m'(2,3)]
    ultimately show ?thesis by blast
  qed
qed

text \<open>
  C5: A payload arrives byte for byte. When the receiver has registered a buffer that is large
  enough and both buffers are mapped, \<open>handle_ool_send\<close> copies the sender's bytes to the
  receiver's buffer, across any page boundaries, changes no other byte, and consumes the
  registration. The receiver can then verify the payload exactly once: with the sender, the
  identifier and the length it was sent with the answer is the buffer, and a second time the
  request is refused.
\<close>

theorem ool_send_delivers:
  assumes "can_copy ly env B s" and "src \<in> {2..NUM_TASKS}" and "dst \<in> {2..NUM_TASKS}"
    and "vt_in_use (v_tasks s src)" and "vt_in_use (v_tasks s dst)"
    and "vt_ool_buf (v_tasks s dst) = b" and "b \<noteq> 0" and "n \<le> vt_ool_len (v_tasks s dst)"
    and "range_at s src a n xs" and "range_at s dst b n xd" and "a + n < 2 ^ 64" and "b + n < 2 ^ 64"
    and "inj_on xd {..<n}" and "\<And>i j. i < n \<Longrightarrow> j < n \<Longrightarrow> xs i \<noteq> xd j"
  shows "\<exists>s' s''. handle_ool_send ly env src (dst, a, n) s = Some (OK, b, s') \<and>
    (\<forall>i<n. v_mem s' (xd i) = v_mem s (xs i)) \<and> (\<forall>q. q \<notin> xd ` {..<n} \<longrightarrow> v_mem s' q = v_mem s q) \<and>
    vt_ool_buf (v_tasks s' dst) = 0 \<and>
    handle_ool_verify dst src b n s' = Some (OK, b, s'') \<and>
    handle_ool_verify dst src b n s'' = Some (ERR_INVALID_ARG, 0, s'')"
proof -
  have r: "src \<in> {1..NUM_TASKS}" "dst \<in> {1..NUM_TASKS}" "src \<noteq> VM_TASK" "dst \<noteq> VM_TASK" "src \<noteq> 0"
    using assms(2,3) by (auto simp: VM_TASK_def)
  obtain w h m where c: "copy_loop ly env src dst a b n s = Some (OK, s\<lparr>v_window := w, v_calls := h, v_mem := m\<rparr>)"
    "\<forall>i<n. m (xd i) = v_mem s (xs i)" "\<forall>q. q \<notin> xd ` {..<n} \<longrightarrow> m q = v_mem s q"
    using copy_loop_copies [OF assms(1) r(1-4) assms(9-14)] by auto
  let ?s1 = "s\<lparr>v_window := w, v_calls := h, v_mem := m\<rparr>"
  let ?s' = "upd_vtask dst (\<lambda>k. k\<lparr>vt_received_ool_buf := vt_ool_buf k, vt_received_ool_len := n,
      vt_received_ool_from := src, vt_ool_buf := 0, vt_ool_len := 0\<rparr>) ?s1"
  let ?s'' = "upd_vtask dst (\<lambda>k. k\<lparr>vt_received_ool_buf := 0, vt_received_ool_len := 0, vt_received_ool_from := 0\<rparr>) ?s'"
  have "handle_ool_send ly env src (dst, a, n) s = Some (OK, b, ?s')"
    using r assms(4-8) c(1) by (simp add: handle_ool_send_def task_lookup_eq Let_def)
  moreover have "handle_ool_verify dst src b n ?s' = Some (OK, b, ?s'')"
    using r assms(5,6) by (simp add: handle_ool_verify_def task_lookup_eq Let_def)
  moreover have "handle_ool_verify dst src b n ?s'' = Some (ERR_INVALID_ARG, 0, ?s'')"
    using r assms(5) by (simp add: handle_ool_verify_def task_lookup_eq Let_def)
  ultimately show ?thesis using c(2,3) by (intro exI [of _ ?s'] exI [of _ ?s'']) simp
qed

text \<open>Two tasks with a page each, the second with a registered buffer.\<close>

definition demo_users :: vm where
  "demo_users = demo_vm\<lparr>v_regions := [\<lparr>rr_base = 0x10000000, rr_num_pages = 16\<rparr>], v_refs := gained 0 2 (\<lambda>_. 0),
     v_num_unused_pages := unused (gained 0 2 (\<lambda>_. 0)),
     v_tasks := (\<lambda>t. if t = 3 then demo_task\<lparr>vt_in_use := True, vt_ool_buf := 0x5000010, vt_ool_len := 64\<rparr>
       else demo_task\<lparr>vt_in_use := True\<rparr>),
     v_mem := (\<lambda>q. of_nat q)\<rparr>"

definition demo_ool :: vm where
  "demo_ool = add_area 3 0x5000000 0x10001000 1 (add_area 2 0x4000000 0x10000000 1 demo_users)"

lemma demo_ool_vinv: "vinv demo_layout 1 demo_ool"
proof -
  have sm: "l_straight_mapping demo_layout = 0x10000000" by (simp add: demo_layout_def)
  have u: "users demo_layout demo_users p = 0" for p by (simp add: users_def demo_users_def demo_task_def)
  have r: "v_refs demo_users p = (if p < 2 then 1 else 0)" for p by (simp add: demo_users_def gained_def)
  have "vinv demo_layout 1 demo_users"
    using demo_start(2) by (auto simp: vinv_def pages_inv_def u r) (auto simp: demo_users_def demo_task_def split: if_splits)
  then have v: "vinv demo_layout 1 (add_area 2 0x4000000 0x10000000 1 demo_users)"
    by (rule vinv_add_area [where base = 0]) (simp_all add: u r NUM_TASKS_def sm PAGES_MAX_def)
  have "users demo_layout (add_area 2 0x4000000 0x10000000 1 demo_users) 1 + cover demo_layout (areas demo_users 2) 1 =
      users demo_layout demo_users 1 +
      cover demo_layout [\<lparr>pa_vaddr = 0x4000000, pa_paddr = 0x10000000, pa_num_pages = 1\<rparr>] 1"
    by (rule users_upd) (simp_all add: NUM_TASKS_def add_area_def demo_users_def demo_task_def)
  then have "users demo_layout (add_area 2 0x4000000 0x10000000 1 demo_users) 1 = 0"
    using u by (simp add: covers_def pfn_of_def sm)
  then show ?thesis unfolding demo_ool_def
    by (intro vinv_add_area [OF v, where base = 1])
       (auto simp: NUM_TASKS_def sm PAGES_MAX_def PGSIZE_def add_area_def r less_Suc_eq)
qed

lemma demo_ool_facts:
  "can_copy demo_layout demo_env 1 demo_ool" "vt_in_use (v_tasks demo_ool 2)" "vt_in_use (v_tasks demo_ool 3)"
  "vt_ool_buf (v_tasks demo_ool 3) = 0x5000010" "vt_ool_len (v_tasks demo_ool 3) = 64"
  "range_at demo_ool 2 0x4000100 3 (\<lambda>i. 0x10000100 + i)" "range_at demo_ool 3 0x5000010 3 (\<lambda>i. 0x10001010 + i)"
proof -
  have "v_refs demo_ool 5 = 0" "v_regions demo_ool = [\<lparr>rr_base = 0x10000000, rr_num_pages = 16\<rparr>]"
    by (simp_all add: demo_ool_def demo_users_def add_area_def gained_def)
  then have "5 \<in> free_pages demo_layout demo_ool" by (simp add: free_pages_def pfn_of_def demo_layout_def)
  moreover have "areas demo_ool VM_TASK = []"
    by (simp add: demo_ool_def demo_users_def add_area_def demo_task_def VM_TASK_def)
  ultimately show "can_copy demo_layout demo_env 1 demo_ool"
    unfolding can_copy_def using demo_ool_vinv
    by (auto simp: demo_env_def regions_ok_def region_ok_def demo_ool_def demo_users_def add_area_def
        demo_layout_def pfn_of_def kconst)
  show "vt_in_use (v_tasks demo_ool 2)" "vt_in_use (v_tasks demo_ool 3)"
    "vt_ool_buf (v_tasks demo_ool 3) = 0x5000010" "vt_ool_len (v_tasks demo_ool 3) = 64"
    by (simp_all add: demo_ool_def demo_users_def add_area_def)
  have a: "areas demo_ool 2 = [\<lparr>pa_vaddr = 0x4000000, pa_paddr = 0x10000000, pa_num_pages = 1\<rparr>]"
    "areas demo_ool 3 = [\<lparr>pa_vaddr = 0x5000000, pa_paddr = 0x10001000, pa_num_pages = 1\<rparr>]"
    by (simp_all add: demo_ool_def demo_users_def add_area_def demo_task_def)
  have "\<forall>i\<in>{0, 1, 2}. xlat demo_ool 2 (0x4000100 + i) = Some (0x10000100 + i)"
    "\<forall>i\<in>{0, 1, 2}. xlat demo_ool 3 (0x5000010 + i) = Some (0x10001010 + i)"
    by (simp_all add: xlat_def a PGSIZE_def)
  moreover have "i \<in> {0, 1, 2}" if "i < 3" for i :: nat using that by auto
  ultimately show "range_at demo_ool 2 0x4000100 3 (\<lambda>i. 0x10000100 + i)" "range_at demo_ool 3 0x5000010 3 (\<lambda>i. 0x10001010 + i)"
    unfolding range_at_def by blast+
qed

theorem ool_send_delivers_witness:
  "\<exists>s'. handle_ool_send demo_layout demo_env 2 (3, 0x4000100, 3) demo_ool = Some (OK, 0x5000010, s') \<and>
    v_mem s' 0x10001012 = v_mem demo_ool 0x10000102"
proof -
  have "\<exists>s' s''. handle_ool_send demo_layout demo_env 2 (3, 0x4000100, 3) demo_ool = Some (OK, 0x5000010, s') \<and>
    (\<forall>i<3. v_mem s' (0x10001010 + i) = v_mem demo_ool (0x10000100 + i)) \<and>
    (\<forall>q. q \<notin> (\<lambda>i. 0x10001010 + i) ` {..<3} \<longrightarrow> v_mem s' q = v_mem demo_ool q) \<and>
    vt_ool_buf (v_tasks s' 3) = 0 \<and>
    handle_ool_verify 3 2 0x5000010 3 s' = Some (OK, 0x5000010, s'') \<and>
    handle_ool_verify 3 2 0x5000010 3 s'' = Some (ERR_INVALID_ARG, 0, s'')"
    by (rule ool_send_delivers [where xs = "\<lambda>i. 0x10000100 + i" and xd = "\<lambda>i. 0x10001010 + i", OF demo_ool_facts(1)])
       (simp_all add: demo_ool_facts NUM_TASKS_def)
  then obtain s' where "handle_ool_send demo_layout demo_env 2 (3, 0x4000100, 3) demo_ool = Some (OK, 0x5000010, s')"
    "\<forall>i<3. v_mem s' (0x10001010 + i) = v_mem demo_ool (0x10000100 + i)" by blast
  then show ?thesis by (auto dest!: spec [of _ 2])
qed

section \<open>What goes wrong\<close>

text \<open>
  C37: A sender can stop the server. A payload that is longer than the buffer the receiver has
  registered fails an assertion in the server itself, instead of being refused.
\<close>

theorem oversized_payload_panics:
  assumes "src \<in> {1..NUM_TASKS}" and "dst \<in> {1..NUM_TASKS}" and "vt_in_use (v_tasks s src)" and "vt_in_use (v_tasks s dst)"
    and "vt_ool_buf (v_tasks s dst) \<noteq> 0" and "vt_ool_len (v_tasks s dst) < n"
  shows "handle_message ly env garbage src (OOL_SEND_MSG dst a n) s = None"
  using assms by (simp add: handle_message_def handle_ool_send_def task_lookup_eq KERNEL_TASK_def)

theorem oversized_payload_panics_witness:
  "handle_message demo_layout demo_env 0 2 (OOL_SEND_MSG 3 0x4000100 65) demo_ool = None"
  by (rule oversized_payload_panics) (simp_all add: demo_ool_facts NUM_TASKS_def)

text \<open>
  C36: The pages a task owns for its page tables are areas at virtual address 0, so a payload
  address below the page size, which a page fault would refuse as a null pointer, is translated
  to the first of them: a task can have its page tables read and overwritten.
\<close>

theorem null_payload_reaches_page_table:
  assumes "kpage_alloc ly t s = Some (kpage, s')" and "find_area (vt_page_areas (v_tasks s t)) v = None" and "v < PGSIZE"
    and "v_num_unused_pages s = unused (v_refs s)"
  shows "vaddr2paddr ly env t v write s' = Some (kpage + v, s') \<and> handle_page_fault ly env t v fault s' = Some (0, s')"
proof -
  from assms(1) obtain s1 where s1: "page_alloc ly 1 s = Some (kpage, s1)" "s' = add_area t 0 kpage 1 s1"
    by (auto simp: kpage_alloc_def split: bind_splits prod.splits)
  from page_alloc_Some [OF s1(1) assms(4)] have "v_tasks s1 = v_tasks s" by force
  moreover have "find_area (xs @ ys) v = (case find_area xs v of None \<Rightarrow> find_area ys v | Some p \<Rightarrow> Some p)" for xs ys
    by (induction xs) auto
  ultimately have "find_area (areas s' t) v = Some (kpage + v)"
    using assms(2,3) s1(2) by (simp add: add_area_def PGSIZE_def)
  then show ?thesis using assms(3) by (simp add: vaddr2paddr_def handle_page_fault_def)
qed

theorem null_payload_reaches_page_table_witness:
  "\<exists>s kpage s'. demo_booted = Some s \<and> kpage_alloc demo_layout 1 s = Some (kpage, s') \<and>
    vaddr2paddr demo_layout demo_env 1 8 True s' = Some (kpage + 8, s')"
proof -
  obtain s where s: "demo_booted = Some s" "v_refs s = (\<lambda>_. 0)"
    "v_regions s = [\<lparr>rr_base = 0x10000000, rr_num_pages = 16\<rparr>]" "vt_page_areas (v_tasks s 1) = []"
    using demo_booted_eq by blast
  have k: "kpage_alloc demo_layout 1 s = Some (0x10000000, add_area 1 0 0x10000000 1 (incref_loop 0 1 s))"
    using demo_page_alloc(2) [OF s(2,3)] by (simp add: kpage_alloc_def)
  have "v_num_unused_pages s = unused (v_refs s)" using demo_vinv [OF s(1)] pages_inv_unused vinv_pages by blast
  with null_payload_reaches_page_table [OF k, of 8 demo_env True 0] s show ?thesis using k by (auto simp: PGSIZE_def)
qed

end
