(* ===== verification/Net_Mbuf.thy ===== *)
theory Net_Mbuf
  imports Prelude
begin

text \<open>
  Packet buffers and checksums of the network server: \<^verbatim>\<open>servers/tcpip/mbuf.c\<close>,
  \<^verbatim>\<open>servers/tcpip/checksum.h\<close>, and the byte orders of \<^verbatim>\<open>libs/common/include/endian.h\<close> on a
  little-endian machine.

  An \<^verbatim>\<open>mbuf_t\<close> is a chain of buffers, the list of them from the pointer on; a null pointer is the
  empty list. A buffer belongs to one chain at a time, so chains are values, and appending or
  prepending one gives it away. \<open>junk\<close> is what the memory \<^verbatim>\<open>malloc\<close> returns holds.
\<close>

section \<open>Byte order\<close>

definition swap16 :: "u16 \<Rightarrow> u16" where
  "swap16 x = drop_bit 8 (x AND 0xff00) OR push_bit 8 (x AND 0x00ff)"

definition swap32 :: "u32 \<Rightarrow> u32" where
  "swap32 x =
     drop_bit 24 (x AND 0xff000000) OR drop_bit 8 (x AND 0x00ff0000) OR
     push_bit 8 (x AND 0x0000ff00) OR push_bit 24 (x AND 0x000000ff)"

definition ntoh16 :: "u16 \<Rightarrow> u16" where "ntoh16 x = swap16 x"
definition ntoh32 :: "u32 \<Rightarrow> u32" where "ntoh32 x = swap32 x"
definition hton16 :: "u16 \<Rightarrow> u16" where "hton16 x = swap16 x"
definition hton32 :: "u32 \<Rightarrow> u32" where "hton32 x = swap32 x"

section \<open>Buffers\<close>

definition MBUF_MAX_LEN :: nat where
  [kconst]: "MBUF_MAX_LEN = 512"

record mbuf =
  mb_offset :: nat
  mb_offset_end :: nat
  mb_data :: "u8 list"

type_synonym mbuf_t = "mbuf list"
type_synonym junk = "nat \<Rightarrow> u8"

definition mbuf_alloc :: "junk \<Rightarrow> mbuf" where
  "mbuf_alloc junk = \<lparr>mb_offset = 0, mb_offset_end = 0, mb_data = map junk [0..<MBUF_MAX_LEN]\<rparr>"

text \<open>\<^verbatim>\<open>memcpy\<close> of \<open>bs\<close> into the data of a buffer at \<open>off\<close>; outside of the array it is a fault.\<close>

definition mb_store :: "nat \<Rightarrow> u8 list \<Rightarrow> mbuf \<Rightarrow> mbuf option" where
  "mb_store off bs m =
     (if off + length bs \<le> length (mb_data m)
      then Some (m\<lparr>mb_data := take off (mb_data m) @ bs @ drop (off + length bs) (mb_data m)\<rparr>)
      else None)"

function mbuf_new :: "junk \<Rightarrow> u8 list \<Rightarrow> mbuf_t option" where
  "mbuf_new junk p =
     (let mbuf_len = min (length p) MBUF_MAX_LEN in
      do {
        new_tail \<leftarrow> mb_store 0 (take mbuf_len p) ((mbuf_alloc junk)\<lparr>mb_offset_end := mbuf_len\<rparr>);
        if length p - mbuf_len > 0
        then do {
          rest \<leftarrow> mbuf_new junk (drop mbuf_len p);
          Some (new_tail # rest)
        }
        else Some [new_tail]
      })"
  by pat_completeness auto
termination
  by (relation "measure (\<lambda>(junk, p). length p)") (auto simp: kconst)

declare mbuf_new.simps [simp del]

text \<open>\<^verbatim>\<open>new_head->next = mbuf\<close>: whatever followed the new head is lost.\<close>

definition mbuf_prepend :: "mbuf_t \<Rightarrow> mbuf_t \<Rightarrow> mbuf_t option" where
  "mbuf_prepend m new_head = (case new_head of [] \<Rightarrow> None | b # _ \<Rightarrow> Some (b # m))"

definition mbuf_append :: "mbuf_t \<Rightarrow> mbuf_t \<Rightarrow> mbuf_t option" where
  "mbuf_append m new_tail = (if m = [] then None else Some (m @ new_tail))"

text \<open>The bytes go behind the data of the first buffer when they fit there.\<close>

definition mbuf_append_bytes :: "junk \<Rightarrow> mbuf_t \<Rightarrow> u8 list \<Rightarrow> mbuf_t option" where
  "mbuf_append_bytes junk m data =
     (case m of
        [] \<Rightarrow> None
      | b # rest \<Rightarrow>
          if length data \<le> MBUF_MAX_LEN - mb_offset_end b
          then do {
            b \<leftarrow> mb_store (mb_offset_end b) data b;
            Some (b\<lparr>mb_offset_end := mb_offset_end b + length data\<rparr> # rest)
          }
          else do {
            tail \<leftarrow> mbuf_new junk data;
            mbuf_append m tail
          })"

definition mbuf_len_one :: "mbuf \<Rightarrow> nat" where
  "mbuf_len_one m = mb_offset_end m - mb_offset m"

definition mbuf_data :: "mbuf \<Rightarrow> u8 list" where
  "mbuf_data m = drop (mb_offset m) (mb_data m)"

fun mbuf_len :: "mbuf_t \<Rightarrow> nat" where
  "mbuf_len [] = 0"
| "mbuf_len (b # rest) = mbuf_len_one b + mbuf_len rest"

text \<open>Whether the first buffer has bytes, despite the name.\<close>

definition mbuf_is_empty :: "mbuf_t \<Rightarrow> bool" where
  "mbuf_is_empty m = (case m of [] \<Rightarrow> False | b # _ \<Rightarrow> mbuf_len_one b > 0)"

text \<open>The bytes read so far are \<open>buf\<close>. A buffer without bytes is deleted when another follows.\<close>

function read_loop :: "mbuf_t \<Rightarrow> u8 list \<Rightarrow> nat \<Rightarrow> (u8 list \<times> mbuf_t) option" where
  "read_loop [] buf buf_len = None"
| "read_loop (b # rest) buf buf_len =
     (let mbuf_len = mbuf_len_one b in
      if mbuf_len = 0 \<and> rest \<noteq> [] then read_loop rest buf buf_len
      else
        let copy_len = min (buf_len - length buf) mbuf_len in
        if copy_len = 0 then Some (buf, b # rest)
        else if length (mbuf_data b) < copy_len then None
        else read_loop (b\<lparr>mb_offset := mb_offset b + copy_len\<rparr> # rest)
               (buf @ take copy_len (mbuf_data b)) buf_len)"
  by pat_completeness auto
termination
  by (relation "measures [\<lambda>(m, buf, n). length m, \<lambda>(m, buf, n). mbuf_len_one (hd m)]")
    (auto simp: mbuf_len_one_def)

declare read_loop.simps [simp del]

definition mbuf_read :: "mbuf_t \<Rightarrow> nat \<Rightarrow> (u8 list \<times> mbuf_t) option" where
  "mbuf_read m buf_len = read_loop m [] buf_len"

function discard_loop :: "mbuf_t \<Rightarrow> nat \<Rightarrow> (nat \<times> mbuf_t) option" where
  "discard_loop [] remaining = None"
| "discard_loop (b # rest) remaining =
     (let mbuf_len = mbuf_len_one b in
      if mbuf_len = 0 \<and> rest \<noteq> [] then discard_loop rest remaining
      else
        let discard_len = min remaining mbuf_len in
        if discard_len = 0 then Some (remaining, b # rest)
        else discard_loop (b\<lparr>mb_offset := mb_offset b + discard_len\<rparr> # rest) (remaining - discard_len))"
  by pat_completeness auto
termination
  by (relation "measures [\<lambda>(m, n). length m, \<lambda>(m, n). mbuf_len_one (hd m)]")
    (auto simp: mbuf_len_one_def)

declare discard_loop.simps [simp del]

definition mbuf_discard :: "mbuf_t \<Rightarrow> nat \<Rightarrow> (nat \<times> mbuf_t) option" where
  "mbuf_discard m len = map_option (\<lambda>(remaining, m). (len - remaining, m)) (discard_loop m len)"

text \<open>The copy starts at the beginning of both arrays, whatever the offset of the source.\<close>

definition mbuf_copy :: "mbuf \<Rightarrow> mbuf \<Rightarrow> mbuf option" where
  "mbuf_copy dst src =
     mb_store 0 (take (mbuf_len_one src) (mb_data src))
       (dst\<lparr>mb_offset := mb_offset src, mb_offset_end := mb_offset_end src\<rparr>)"

fun mbuf_peek :: "junk \<Rightarrow> mbuf_t \<Rightarrow> nat \<Rightarrow> mbuf_t option" where
  "mbuf_peek junk [] len = Some [mbuf_alloc junk]"
| "mbuf_peek junk (src # rest) len =
     (let mbuf_len = mbuf_len_one src in
      do {
        dst \<leftarrow> mbuf_copy (mbuf_alloc junk) src;
        if len \<le> mbuf_len
        then Some [dst\<lparr>mb_offset_end := mb_offset_end dst - (mbuf_len - len)\<rparr>]
        else do {
          tail \<leftarrow> mbuf_peek junk rest (len - mbuf_len);
          Some (dst # tail)
        }
      })"

fun mbuf_truncate :: "mbuf_t \<Rightarrow> nat \<Rightarrow> mbuf_t" where
  "mbuf_truncate [] len = []"
| "mbuf_truncate (b # rest) len =
     (if len > 0 then
        let mbuf_len = mbuf_len_one b in
        if len < mbuf_len then [b\<lparr>mb_offset_end := mb_offset_end b - (mbuf_len - len)\<rparr>]
        else b # mbuf_truncate rest (len - mbuf_len)
      else b # rest)"

text \<open>Only the first buffer of the result is reachable: the others are never linked to it.\<close>

definition mbuf_clone :: "junk \<Rightarrow> mbuf_t \<Rightarrow> mbuf_t option" where
  "mbuf_clone junk m =
     (case m of
        [] \<Rightarrow> None
      | b # _ \<Rightarrow>
          Some [(mbuf_alloc junk)\<lparr>mb_data := mb_data b, mb_offset := mb_offset b, mb_offset_end := mb_offset_end b\<rparr>])"

section \<open>Checksums\<close>

text \<open>The sum of the little-endian 16-bit words, an odd last byte counting as a word.\<close>

fun checksum_update :: "u32 \<Rightarrow> u8 list \<Rightarrow> u32" where
  "checksum_update c (a # b # data) = checksum_update (c + ucast (get16 [a, b] 0)) data"
| "checksum_update c [a] = c + ucast a"
| "checksum_update c [] = c"

definition checksum_update_uint16 :: "u32 \<Rightarrow> u16 \<Rightarrow> u32" where
  "checksum_update_uint16 c data = c + ucast data"

definition checksum_update_uint32 :: "u32 \<Rightarrow> u32 \<Rightarrow> u32" where
  "checksum_update_uint32 c data = c + (data AND 0xffff) + drop_bit 16 data"

fun checksum_update_mbuf :: "u32 \<Rightarrow> mbuf_t \<Rightarrow> u32" where
  "checksum_update_mbuf c [] = c"
| "checksum_update_mbuf c (b # rest) =
     checksum_update_mbuf (checksum_update c (take (mbuf_len_one b) (mbuf_data b))) rest"

definition checksum_finish :: "u32 \<Rightarrow> u32" where
  "checksum_finish c = (let c = drop_bit 16 c + (c AND 0xffff); c = c + drop_bit 16 c in NOT c)"


section \<open>The bytes of a chain\<close>

definition mb_ok :: "mbuf \<Rightarrow> bool" where
  "mb_ok b \<longleftrightarrow> mb_offset b \<le> mb_offset_end b \<and> mb_offset_end b \<le> MBUF_MAX_LEN \<and> length (mb_data b) = MBUF_MAX_LEN"

definition mb_bytes :: "mbuf \<Rightarrow> u8 list" where
  "mb_bytes b = take (mbuf_len_one b) (mbuf_data b)"

definition chain_ok :: "mbuf_t \<Rightarrow> bool" where
  "chain_ok m \<longleftrightarrow> m \<noteq> [] \<and> list_all mb_ok m"

definition bytes :: "mbuf_t \<Rightarrow> u8 list" where
  "bytes m = concat (map mb_bytes m)"

lemma bytes_simps [simp]:
  "bytes [] = []" "bytes (b # m) = mb_bytes b @ bytes m" "bytes (m @ m') = bytes m @ bytes m'"
  by (simp_all add: bytes_def)

lemma mb_bytes_length [simp]: "mb_ok b \<Longrightarrow> length (mb_bytes b) = mbuf_len_one b"
  by (auto simp: mb_ok_def mb_bytes_def mbuf_data_def mbuf_len_one_def)

lemma mb_bytes_eq_Nil: "mb_ok b \<Longrightarrow> mb_bytes b = [] \<longleftrightarrow> mbuf_len_one b = 0"
  using mb_bytes_length [of b] by (simp flip: length_0_conv)

lemma length_bytes: "list_all mb_ok m \<Longrightarrow> length (bytes m) = mbuf_len m"
  by (induction m) auto

lemma chain_okD: "chain_ok m \<Longrightarrow> mbuf_len m = length (bytes m)"
  by (simp add: chain_ok_def length_bytes)

lemma mbuf_len_append [simp]: "mbuf_len (m @ m') = mbuf_len m + mbuf_len m'"
  by (induction m) auto

lemma chain_ok_append [simp]: "chain_ok m \<Longrightarrow> chain_ok m' \<Longrightarrow> chain_ok (m @ m')"
  by (simp add: chain_ok_def)

lemma mb_ok_alloc [simp]: "mb_ok (mbuf_alloc junk)"
  by (simp add: mb_ok_def mbuf_alloc_def)

lemma mb_bytes_alloc [simp]: "mb_bytes (mbuf_alloc junk) = []"
  by (simp add: mb_bytes_def mbuf_alloc_def mbuf_len_one_def)

text \<open>A buffer from which \<open>n\<close> bytes have been taken.\<close>

lemma mb_advance:
  assumes "mb_ok b" "n \<le> mbuf_len_one b"
  shows "mb_ok (b\<lparr>mb_offset := mb_offset b + n\<rparr>)"
    and "mb_bytes (b\<lparr>mb_offset := mb_offset b + n\<rparr>) = drop n (mb_bytes b)"
    and "take n (mbuf_data b) = take n (mb_bytes b)"
  using assms by (auto simp: mb_ok_def mb_bytes_def mbuf_data_def mbuf_len_one_def drop_take add.commute min_def)

lemma mbuf_new_bytes: "\<exists>m. mbuf_new junk p = Some m \<and> chain_ok m \<and> bytes m = p"
proof (induction junk p rule: mbuf_new.induct)
  case (1 junk p)
  define n where "n = min (length p) MBUF_MAX_LEN"
  define b where "b = \<lparr>mb_offset = 0, mb_offset_end = n, mb_data = take n p @ drop n (map junk [0..<MBUF_MAX_LEN])\<rparr>"
  have s: "mb_store 0 (take n p) ((mbuf_alloc junk)\<lparr>mb_offset_end := n\<rparr>) = Some b"
    by (simp add: mb_store_def mbuf_alloc_def n_def b_def min_def)
  have b: "mb_ok b" "mb_bytes b = take n p"
    by (auto simp: b_def mb_ok_def mb_bytes_def mbuf_data_def mbuf_len_one_def n_def)
  show ?case
  proof (cases "length p - n > 0")
    case True
    with "1.IH" [OF n_def s] obtain m where "mbuf_new junk (drop n p) = Some m" "chain_ok m" "bytes m = drop n p"
      by auto
    with True s b show ?thesis
      by (subst mbuf_new.simps) (simp add: n_def [symmetric] chain_ok_def)
  next
    case False
    with s b show ?thesis
      by (subst mbuf_new.simps) (simp add: n_def [symmetric] chain_ok_def)
  qed
qed

lemma mbuf_newE:
  obtains m where "mbuf_new junk p = Some m" "chain_ok m" "bytes m = p"
  using mbuf_new_bytes by blast

lemma take_step: "c \<le> length xs \<Longrightarrow> c \<le> k \<Longrightarrow> take c xs @ take (k - c) (drop c xs @ ys) = take k (xs @ ys)"
  using take_add [of c "k - c" "xs @ ys"] by simp

lemma drop_step: "c \<le> length xs \<Longrightarrow> c \<le> k \<Longrightarrow> drop (k - c) (drop c xs @ ys) = drop k (xs @ ys)"
  using drop_drop [of "k - c" c "xs @ ys"] by simp

lemma read_loop_bytes:
  "chain_ok m \<Longrightarrow> length buf \<le> n \<Longrightarrow>
   \<exists>m'. read_loop m buf n = Some (buf @ take (n - length buf) (bytes m), m') \<and> chain_ok m' \<and>
     bytes m' = drop (n - length buf) (bytes m)"
proof (induction m buf n rule: read_loop.induct)
  case (2 b rest buf n)
  define c where "c = min (n - length buf) (mbuf_len_one b)"
  have ok: "mb_ok b" "list_all mb_ok rest" using "2.prems" by (auto simp: chain_ok_def)
  note adv = mb_advance [OF ok(1), of c]
  consider (skip) "mbuf_len_one b = 0" "rest \<noteq> []" | (stop) "\<not> (mbuf_len_one b = 0 \<and> rest \<noteq> [])" "c = 0"
    | (copy) "\<not> (mbuf_len_one b = 0 \<and> rest \<noteq> [])" "c > 0" by auto
  then show ?case
  proof cases
    case skip
    then show ?thesis
      using "2.IH"(1) "2.prems" ok mb_bytes_eq_Nil [OF ok(1)]
      by (simp add: read_loop.simps chain_ok_def)
  next
    case stop
    then have "n = length buf \<or> mb_bytes b = [] \<and> rest = []"
      using "2.prems" mb_bytes_eq_Nil [OF ok(1)] by (auto simp: c_def)
    with stop show ?thesis
      using "2.prems" ok by (auto simp: read_loop.simps c_def [symmetric] Let_def)
  next
    case copy
    let ?b = "b\<lparr>mb_offset := mb_offset b + c\<rparr>"
    have le: "c \<le> mbuf_len_one b" "c \<le> n - length buf" by (simp_all add: c_def)
    have len: "\<not> length (mbuf_data b) < c"
      using ok(1) le by (auto simp: mb_ok_def mbuf_data_def mbuf_len_one_def)
    have bl: "length (mb_bytes b) = mbuf_len_one b" using ok(1) by simp
    have "\<exists>m'. read_loop (?b # rest) (buf @ take c (mbuf_data b)) n =
        Some ((buf @ take c (mbuf_data b)) @ take (n - length (buf @ take c (mbuf_data b))) (bytes (?b # rest)), m') \<and>
        chain_ok m' \<and> bytes m' = drop (n - length (buf @ take c (mbuf_data b))) (bytes (?b # rest))"
      using "2.IH"(2) [OF refl copy(1) c_def _ len] copy "2.prems" ok adv(1) le by (simp add: chain_ok_def)
    moreover have "read_loop (b # rest) buf n = read_loop (?b # rest) (buf @ take c (mbuf_data b)) n"
      using copy len by (subst read_loop.simps) (auto simp: c_def [symmetric] Let_def)
    moreover have "(buf @ take c (mbuf_data b)) @ take (n - length (buf @ take c (mbuf_data b))) (bytes (?b # rest))
        = buf @ take (n - length buf) (bytes (b # rest))"
      using take_step [of c "mb_bytes b" "n - length buf" "bytes rest"] le bl adv by (simp del: take_append)
    moreover have "drop (n - length (buf @ take c (mbuf_data b))) (bytes (?b # rest)) = drop (n - length buf) (bytes (b # rest))"
      using drop_step [of c "mb_bytes b" "n - length buf" "bytes rest"] le bl adv by (simp del: drop_append)
    ultimately show ?thesis by metis
  qed
qed (simp add: chain_ok_def)

lemma mbuf_read_bytes:
  "chain_ok m \<Longrightarrow> \<exists>m'. mbuf_read m n = Some (take n (bytes m), m') \<and> chain_ok m' \<and> bytes m' = drop n (bytes m)"
  using read_loop_bytes [of m "[]" n] by (simp add: mbuf_read_def)


lemma mbuf_readE:
  assumes "chain_ok m"
  obtains m' where "mbuf_read m n = Some (take n (bytes m), m')" "chain_ok m'" "bytes m' = drop n (bytes m)"
  using mbuf_read_bytes [OF assms] by blast

lemma discard_loop_bytes:
  "chain_ok m \<Longrightarrow>
   \<exists>m'. discard_loop m n = Some (n - length (bytes m), m') \<and> chain_ok m' \<and> bytes m' = drop n (bytes m)"
proof (induction m n rule: discard_loop.induct)
  case (2 b rest n)
  define c where "c = min n (mbuf_len_one b)"
  have ok: "mb_ok b" "list_all mb_ok rest" using "2.prems" by (auto simp: chain_ok_def)
  note adv = mb_advance [OF ok(1), of c]
  have bl: "length (mb_bytes b) = mbuf_len_one b" using ok(1) by simp
  consider (skip) "mbuf_len_one b = 0" "rest \<noteq> []" | (stop) "\<not> (mbuf_len_one b = 0 \<and> rest \<noteq> [])" "c = 0"
    | (cut) "\<not> (mbuf_len_one b = 0 \<and> rest \<noteq> [])" "c > 0" by auto
  then show ?case
  proof cases
    case skip
    then show ?thesis
      using "2.IH"(1) ok mb_bytes_eq_Nil [OF ok(1)] by (simp add: discard_loop.simps chain_ok_def)
  next
    case stop
    then have "n = 0 \<or> mb_bytes b = [] \<and> rest = []"
      using mb_bytes_eq_Nil [OF ok(1)] by (auto simp: c_def)
    with stop show ?thesis
      using "2.prems" ok mb_bytes_eq_Nil [OF ok(1)] by (auto simp: discard_loop.simps c_def [symmetric] Let_def)
  next
    case cut
    let ?b = "b\<lparr>mb_offset := mb_offset b + c\<rparr>"
    have le: "c \<le> mbuf_len_one b" "c \<le> n" by (simp_all add: c_def)
    have "\<exists>m'. discard_loop (?b # rest) (n - c) = Some (n - c - length (bytes (?b # rest)), m') \<and>
        chain_ok m' \<and> bytes m' = drop (n - c) (bytes (?b # rest))"
      using "2.IH"(2) [OF refl cut(1) c_def] cut ok adv(1) le by (simp add: chain_ok_def)
    moreover have "discard_loop (b # rest) n = discard_loop (?b # rest) (n - c)"
      using cut by (subst discard_loop.simps) (auto simp: c_def [symmetric] Let_def)
    moreover have "n - c - length (bytes (?b # rest)) = n - length (bytes (b # rest))"
      using le bl adv by simp
    moreover have "drop (n - c) (bytes (?b # rest)) = drop n (bytes (b # rest))"
      using drop_step [of c "mb_bytes b" n "bytes rest"] le bl adv by (simp del: drop_append)
    ultimately show ?thesis by metis
  qed
qed (simp add: chain_ok_def)

lemma mbuf_discardE:
  assumes "chain_ok m"
  obtains m' where "mbuf_discard m n = Some (min n (length (bytes m)), m')" "chain_ok m'" "bytes m' = drop n (bytes m)"
  using discard_loop_bytes [OF assms, of n] by (auto simp: mbuf_discard_def min_def)

lemma mbuf_append_ok:
  "chain_ok m \<Longrightarrow> chain_ok m' \<Longrightarrow> mbuf_append m m' = Some (m @ m') \<and> chain_ok (m @ m')"
  by (simp add: mbuf_append_def) (simp add: chain_ok_def)

lemma mbuf_prepend_one: "mbuf_prepend m [b] = Some (b # m)"
  by (simp add: mbuf_prepend_def)

lemma mb_store_end:
  assumes "mb_ok b" "length data \<le> MBUF_MAX_LEN - mb_offset_end b"
  shows "\<exists>b'. mb_store (mb_offset_end b) data b = Some b' \<and> mb_offset_end b' = mb_offset_end b \<and>
    mb_ok (b'\<lparr>mb_offset_end := mb_offset_end b + length data\<rparr>) \<and>
    mb_bytes (b'\<lparr>mb_offset_end := mb_offset_end b + length data\<rparr>) = mb_bytes b @ data"
  using assms
  by (auto simp: mb_store_def mb_ok_def mb_bytes_def mbuf_data_def mbuf_len_one_def drop_take Let_def)

text \<open>Bytes that fit into the first buffer are inserted behind its bytes, whatever follows.\<close>

lemma mbuf_append_bytesE:
  assumes "chain_ok (b # rest)"
  obtains m' where "mbuf_append_bytes junk (b # rest) data = Some m'" "chain_ok m'"
    "bytes m' = (if length data \<le> MBUF_MAX_LEN - mb_offset_end b
       then mb_bytes b @ data @ bytes rest else mb_bytes b @ bytes rest @ data)"
proof (cases "length data \<le> MBUF_MAX_LEN - mb_offset_end b")
  case True
  with mb_store_end [of b data] assms that show thesis
    by (fastforce simp: mbuf_append_bytes_def chain_ok_def)
next
  case False
  obtain t where "mbuf_new junk data = Some t" "chain_ok t" "bytes t = data" by (rule mbuf_newE)
  with False assms that mbuf_append_ok [of "b # rest" t] show thesis
    by (simp add: mbuf_append_bytes_def)
qed

text \<open>A chain of one buffer, as one that was made from a short header.\<close>

lemma mbuf_append_bytes_one:
  assumes "mb_ok b"
  obtains m' where "mbuf_append_bytes junk [b] data = Some m'" "chain_ok m'" "bytes m' = mb_bytes b @ data"
proof -
  have "chain_ok [b]" using assms by (simp add: chain_ok_def)
  then obtain m' where "mbuf_append_bytes junk [b] data = Some m'" "chain_ok m'"
    "bytes m' = (if length data \<le> MBUF_MAX_LEN - mb_offset_end b then mb_bytes b @ data @ bytes [] else mb_bytes b @ bytes [] @ data)"
    by (rule mbuf_append_bytesE)
  with that show thesis by simp
qed

lemma mb_shorten:
  assumes "mb_ok b" "n \<le> mbuf_len_one b"
  shows "mb_ok (b\<lparr>mb_offset_end := mb_offset_end b - (mbuf_len_one b - n)\<rparr>)"
    and "mb_bytes (b\<lparr>mb_offset_end := mb_offset_end b - (mbuf_len_one b - n)\<rparr>) = take n (mb_bytes b)"
  using assms by (auto simp: mb_ok_def mb_bytes_def mbuf_len_one_def mbuf_data_def)

lemma mbuf_truncate_bytes:
  "list_all mb_ok m \<Longrightarrow> list_all mb_ok (mbuf_truncate m n) \<and> (mbuf_truncate m n = [] \<longleftrightarrow> m = []) \<and>
   (\<exists>r. bytes m = bytes (mbuf_truncate m n) @ r) \<and>
   (length (bytes m) \<le> n \<longrightarrow> bytes (mbuf_truncate m n) = bytes m)"
proof (induction m arbitrary: n)
  case (Cons b m)
  consider "n = 0" | (cut) "0 < n" "n < mbuf_len_one b" | (next_one) "0 < n" "mbuf_len_one b \<le> n" by linarith
  then show ?case
  proof cases
    case cut
    have "\<exists>r. mb_bytes b @ bytes m = take n (mb_bytes b) @ r"
      by (rule exI [of _ "drop n (mb_bytes b) @ bytes m"]) simp
    then show ?thesis
      using cut mb_shorten [of b n] Cons.prems by (simp add: Let_def)
  next
    case next_one
    then show ?thesis using Cons.IH [of "n - mbuf_len_one b"] Cons.prems by auto
  qed (use Cons.prems in auto)
qed simp

text \<open>The check the callers make after shortening a chain is exact.\<close>

lemma mbuf_truncate_exact:
  assumes "chain_ok m" "mbuf_len (mbuf_truncate m n) = n"
  shows "chain_ok (mbuf_truncate m n) \<and> bytes (mbuf_truncate m n) = take n (bytes m)"
proof -
  let ?t = "mbuf_truncate m n"
  from assms(1) mbuf_truncate_bytes [of m n] obtain r where t: "chain_ok ?t" "bytes m = bytes ?t @ r"
    by (auto simp: chain_ok_def)
  with assms(2) chain_okD [of ?t] have "length (bytes ?t) = n" by simp
  with t show ?thesis by simp
qed

text \<open>A copy has the right length; it has the right bytes when nothing has been taken from the
  buffers.\<close>

lemma mbuf_copyE:
  assumes "mb_ok b"
  obtains d where "mbuf_copy (mbuf_alloc junk) b = Some d" "mb_ok d" "mbuf_len_one d = mbuf_len_one b"
    "mb_offset b = 0 \<Longrightarrow> mb_bytes d = mb_bytes b"
proof
  let ?d = "\<lparr>mb_offset = mb_offset b, mb_offset_end = mb_offset_end b,
    mb_data = take (mbuf_len_one b) (mb_data b) @ drop (mbuf_len_one b) (map junk [0..<MBUF_MAX_LEN])\<rparr>"
  have le: "mbuf_len_one b \<le> MBUF_MAX_LEN" "length (mb_data b) = MBUF_MAX_LEN"
    using assms by (auto simp: mb_ok_def mbuf_len_one_def)
  then show "mbuf_copy (mbuf_alloc junk) b = Some ?d"
    by (simp add: mbuf_copy_def mb_store_def mbuf_alloc_def min_absorb2)
  show "mb_ok ?d" using assms le by (simp add: mb_ok_def min_absorb2)
  show "mbuf_len_one ?d = mbuf_len_one b" by (simp add: mbuf_len_one_def)
  show "mb_bytes ?d = mb_bytes b" if "mb_offset b = 0"
    using that le by (simp add: mb_bytes_def mbuf_data_def mbuf_len_one_def)
qed

lemma mbuf_peek_bytes:
  "list_all mb_ok m \<Longrightarrow>
   \<exists>m'. mbuf_peek junk m n = Some m' \<and> chain_ok m' \<and> length (bytes m') = min n (length (bytes m)) \<and>
     (list_all (\<lambda>b. mb_offset b = 0) m \<longrightarrow> bytes m' = take n (bytes m))"
proof (induction m arbitrary: n)
  case (Cons b rest)
  obtain d where c: "mbuf_copy (mbuf_alloc junk) b = Some d" and d: "mb_ok d" "mbuf_len_one d = mbuf_len_one b"
    "mb_offset b = 0 \<Longrightarrow> mb_bytes d = mb_bytes b"
    using mbuf_copyE [of b junk] Cons.prems by auto
  show ?case
  proof (cases "n \<le> mbuf_len_one b")
    case True
    then show ?thesis
      using c d mb_shorten [of d n] Cons.prems by (auto simp: Let_def chain_ok_def)
  next
    case False
    then show ?thesis
      using Cons.IH [of "n - mbuf_len_one b"] c d Cons.prems by (auto simp: Let_def chain_ok_def)
  qed
qed (simp add: chain_ok_def)

lemma mbuf_peekE:
  assumes "chain_ok m"
  obtains m' where "mbuf_peek junk m n = Some m'" "chain_ok m'" "length (bytes m') = min n (length (bytes m))"
  using mbuf_peek_bytes [of m junk n] assms by (auto simp: chain_ok_def)


text \<open>Reading and discarding never lengthen a chain, well-formed or not.\<close>

lemma mbuf_read_dec: "mbuf_read m n = Some (b, m') \<Longrightarrow> mbuf_len m' + length b \<le> mbuf_len m"
proof -
  have "read_loop m buf n = Some (b, m') \<Longrightarrow> mbuf_len m' + length b \<le> mbuf_len m + length buf" for buf
  proof (induction m buf n rule: read_loop.induct)
    case (2 c rest buf n)
    let ?k = "min (n - length buf) (mbuf_len_one c)"
    have l: "mbuf_len_one (c\<lparr>mb_offset := mb_offset c + ?k\<rparr>) + ?k = mbuf_len_one c"
      by (auto simp: mbuf_len_one_def)
    consider (skip) "mbuf_len_one c = 0" "rest \<noteq> []" | (stop) "\<not> (mbuf_len_one c = 0 \<and> rest \<noteq> [])" "?k = 0"
      | (copy) "\<not> (mbuf_len_one c = 0 \<and> rest \<noteq> [])" "?k \<noteq> 0" by metis
    then show ?case
    proof cases
      case skip
      then show ?thesis using "2.IH"(1) "2.prems" by (simp add: read_loop.simps)
    next
      case stop
      then show ?thesis using "2.prems" by (subst (asm) read_loop.simps) (auto simp: Let_def)
    next
      case copy
      then have "\<not> length (mbuf_data c) < ?k"
        and r: "read_loop (c\<lparr>mb_offset := mb_offset c + ?k\<rparr> # rest) (buf @ take ?k (mbuf_data c)) n = Some (b, m')"
        using "2.prems" by (subst (asm) read_loop.simps, simp add: Let_def split: if_splits)+
      with "2.IH"(2) [OF refl copy(1) refl copy(2)] l show ?thesis by simp
    qed
  qed (simp add: read_loop.simps)
  then show "mbuf_read m n = Some (b, m') \<Longrightarrow> ?thesis" by (fastforce simp: mbuf_read_def)
qed


lemma mbuf_discard_dec: "mbuf_discard m n = Some (k, m') \<Longrightarrow> mbuf_len m' \<le> mbuf_len m"
proof -
  have "discard_loop m n = Some (k, m') \<Longrightarrow> mbuf_len m' \<le> mbuf_len m" for k
  proof (induction m n rule: discard_loop.induct)
    case (2 c rest n)
    let ?k = "min n (mbuf_len_one c)"
    have l: "mbuf_len_one (c\<lparr>mb_offset := mb_offset c + ?k\<rparr>) + ?k = mbuf_len_one c"
      by (auto simp: mbuf_len_one_def)
    consider (skip) "mbuf_len_one c = 0" "rest \<noteq> []" | (stop) "\<not> (mbuf_len_one c = 0 \<and> rest \<noteq> [])" "?k = 0"
      | (cut) "\<not> (mbuf_len_one c = 0 \<and> rest \<noteq> [])" "?k \<noteq> 0" by metis
    then show ?case
    proof cases
      case skip
      then show ?thesis using "2.IH"(1) "2.prems" by (simp add: discard_loop.simps)
    next
      case stop
      then show ?thesis using "2.prems" by (subst (asm) discard_loop.simps) (auto simp: Let_def)
    next
      case cut
      then have "discard_loop (c\<lparr>mb_offset := mb_offset c + ?k\<rparr> # rest) (n - ?k) = Some (k, m')"
        using "2.prems" by (subst (asm) discard_loop.simps, simp add: Let_def split: if_splits)
      with "2.IH"(2) [OF refl cut(1) refl cut(2)] l show ?thesis by simp
    qed
  qed (simp add: discard_loop.simps)
  then show "mbuf_discard m n = Some (k, m') \<Longrightarrow> ?thesis" by (auto simp: mbuf_discard_def)
qed

section \<open>Byte streams\<close>

text \<open>What a reader of a byte stream relies on: appending adds at the end, reading takes from the
  front, and neither fails.\<close>

datatype 'q fifo_op = Put 'q | Get nat

fun run_fifo ::
  "('q \<Rightarrow> 'q \<Rightarrow> 'q option) \<Rightarrow> ('q \<Rightarrow> nat \<Rightarrow> (u8 list \<times> 'q) option) \<Rightarrow> 'q fifo_op list \<Rightarrow> 'q \<Rightarrow> (u8 list \<times> 'q) option" where
  "run_fifo put get [] q = Some ([], q)"
| "run_fifo put get (Put p # ops) q =
     do {
       q \<leftarrow> put q p;
       run_fifo put get ops q
     }"
| "run_fifo put get (Get n # ops) q =
     do {
       (b, q) \<leftarrow> get q n;
       (rest, q) \<leftarrow> run_fifo put get ops q;
       Some (b @ rest, q)
     }"

fun puts :: "'q fifo_op list \<Rightarrow> 'q list" where
  "puts [] = []"
| "puts (Put p # ops) = p # puts ops"
| "puts (Get n # ops) = puts ops"

locale byte_fifo =
  fixes ok :: "'q \<Rightarrow> bool"
    and content :: "'q \<Rightarrow> u8 list"
    and put :: "'q \<Rightarrow> 'q \<Rightarrow> 'q option"
    and get :: "'q \<Rightarrow> nat \<Rightarrow> (u8 list \<times> 'q) option"
  assumes put_ok: "ok q \<Longrightarrow> ok p \<Longrightarrow> \<exists>r. put q p = Some r \<and> ok r \<and> content r = content q @ content p"
    and get_ok: "ok q \<Longrightarrow> \<exists>r. get q n = Some (take n (content q), r) \<and> ok r \<and> content r = drop n (content q)"
begin

lemma stream:
  "ok q \<Longrightarrow> list_all ok (puts ops) \<Longrightarrow>
   \<exists>out r. run_fifo put get ops q = Some (out, r) \<and> ok r \<and> out @ content r = content q @ concat (map content (puts ops))"
proof (induction ops arbitrary: q)
  case (Cons x ops)
  show ?case
  proof (cases x)
    case (Put p)
    with Cons.prems put_ok [of q p] obtain r where r: "put q p = Some r" "ok r" "content r = content q @ content p" by auto
    with Cons.IH [of r] Cons.prems Put show ?thesis by auto
  next
    case (Get n)
    with Cons.prems get_ok [of q n] obtain r where r: "get q n = Some (take n (content q), r)" "ok r"
      "content r = drop n (content q)" by auto
    with Cons.IH [of r] Cons.prems Get obtain out t where
      t: "run_fifo put get ops r = Some (out, t)" "ok t" "out @ content t = drop n (content q) @ concat (map content (puts ops))"
      by auto
    then have "take n (content q) @ out @ content t = content q @ concat (map content (puts ops))"
      by (simp flip: append_assoc)
    with r t Get show ?thesis by simp
  qed
qed simp

end

interpretation mbuf_fifo: byte_fifo chain_ok bytes mbuf_append mbuf_read
proof
  show "\<exists>r. mbuf_append q p = Some r \<and> chain_ok r \<and> bytes r = bytes q @ bytes p" if "chain_ok q" "chain_ok p" for q p
    using mbuf_append_ok [OF that] by simp
  show "\<exists>r. mbuf_read q n = Some (take n (bytes q), r) \<and> chain_ok r \<and> bytes r = drop n (bytes q)" if "chain_ok q" for q n
    using mbuf_read_bytes [OF that] .
qed

text \<open>
  C18: A chain is a byte stream: for any sequence of appended chains and of reads of any length, the
  bytes read, followed by those still in the chain, are the bytes that were in it followed by those
  appended, in order; no read fails and none depends on how the bytes are split into buffers.
\<close>

theorem mbuf_stream:
  assumes "chain_ok m" "list_all chain_ok (puts ops)"
  shows "\<exists>out r. run_fifo mbuf_append mbuf_read ops m = Some (out, r) \<and> chain_ok r \<and>
    out @ bytes r = bytes m @ concat (map bytes (puts ops))"
  using mbuf_fifo.stream [OF assms] .

definition demo_buf :: "u8 list \<Rightarrow> mbuf" where
  "demo_buf bs = \<lparr>mb_offset = 0, mb_offset_end = length bs, mb_data = bs @ replicate (MBUF_MAX_LEN - length bs) 0\<rparr>"

lemma demo_buf: "length bs \<le> MBUF_MAX_LEN \<Longrightarrow> mb_ok (demo_buf bs) \<and> mb_bytes (demo_buf bs) = bs"
  by (simp add: demo_buf_def mb_ok_def mb_bytes_def mbuf_len_one_def mbuf_data_def)

theorem mbuf_stream_witness:
  "\<exists>out r. run_fifo mbuf_append mbuf_read [Get 1, Put [demo_buf [3]], Get 2] [demo_buf [1, 2]] = Some (out, r) \<and>
     out @ bytes r = [1, 2, 3]"
proof -
  have d: "mb_ok (demo_buf [1, 2])" "mb_bytes (demo_buf [1, 2]) = [1, 2]" "mb_ok (demo_buf [3])" "mb_bytes (demo_buf [3]) = [3]"
    using demo_buf [of "[1, 2]"] demo_buf [of "[3]"] by (simp_all add: kconst)
  then have "chain_ok [demo_buf [1, 2]]" "list_all chain_ok (puts [Get 1, Put [demo_buf [3]], Get 2])"
    by (simp_all add: chain_ok_def)
  from mbuf_stream [OF this] d show ?thesis by auto
qed

text \<open>
  Bytes appended to a chain can end up in the middle of it: when the first buffer has room, they
  are put there, before the bytes of the buffers that follow.
\<close>

theorem mbuf_append_bytes_reorders:
  assumes "chain_ok (b # rest)" "0 < length data" "length data \<le> MBUF_MAX_LEN - mb_offset_end b"
  shows "\<exists>m. mbuf_append_bytes junk (b # rest) data = Some m \<and> bytes m = mb_bytes b @ data @ bytes rest"
  using assms(3) by (auto intro: mbuf_append_bytesE [OF assms(1), of junk data])

text \<open>The copy of a buffer from which bytes have been taken holds what the fresh memory held.\<close>

lemma mbuf_peek_junk:
  assumes "mb_ok b" "mbuf_len_one b \<le> mb_offset b"
  shows "\<exists>m. mbuf_peek junk [b] (mbuf_len_one b) = Some m \<and> bytes m = map junk [mb_offset b..<mb_offset_end b]"
proof -
  have le: "mb_offset_end b = mb_offset b + mbuf_len_one b" "mb_offset_end b \<le> MBUF_MAX_LEN" "length (mb_data b) = MBUF_MAX_LEN"
    using assms(1) by (auto simp: mb_ok_def mbuf_len_one_def)
  have "take (mbuf_len_one b) (drop (mb_offset b) (take (mbuf_len_one b) (mb_data b) @ drop (mbuf_len_one b) (map junk [0..<MBUF_MAX_LEN])))
      = map junk [mb_offset b..<mb_offset_end b]"
    using assms(2) le by (auto simp: list_eq_iff_nth_eq nth_append)
  with le show ?thesis
    by (auto simp: mbuf_copy_def mb_store_def mbuf_alloc_def Let_def mb_bytes_def mbuf_data_def mbuf_len_one_def)
qed

end
