(* ===== verification/Net_State.thy ===== *)
theory Net_State
  imports Net_Mbuf C_String Handle
begin

text \<open>
  The state of the network server, \<^verbatim>\<open>servers/tcpip\<close>, and the formats of its packets.

  Pointers into the static tables of devices and sockets are indices. An intrusive list is the
  sequence of its elements. A client object never changes after it was made, so the pointer to it
  is its value. A freed chain of a closed socket is \<open>None\<close>, and using it is a fault. Messages
  are values with their payloads. \<^verbatim>\<open>malloc\<close> does not fail (it stops the program when memory runs
  out) and what it returns holds \<open>ne_junk\<close>.
\<close>

section \<open>Addresses\<close>

definition MACADDR_LEN :: nat where [kconst]: "MACADDR_LEN = 6"
definition MACADDR_BROADCAST :: "u8 list" where [kconst]: "MACADDR_BROADCAST = [0xff, 0xff, 0xff, 0xff, 0xff, 0xff]"
definition IPV4_ADDR_BROADCAST :: u32 where [kconst]: "IPV4_ADDR_BROADCAST = 0xffffffff"
definition IPV4_ADDR_UNSPECIFIED :: u32 where [kconst]: "IPV4_ADDR_UNSPECIFIED = 0"
definition IPV4_PROTO_ICMP :: u8 where [kconst]: "IPV4_PROTO_ICMP = 0x01"
definition IPV4_PROTO_TCP :: u8 where [kconst]: "IPV4_PROTO_TCP = 0x06"
definition IPV4_PROTO_UDP :: u8 where [kconst]: "IPV4_PROTO_UDP = 0x11"
definition ETHER_TYPE_IPV4 :: u16 where [kconst]: "ETHER_TYPE_IPV4 = 0x0800"
definition ETHER_TYPE_ARP :: u16 where [kconst]: "ETHER_TYPE_ARP = 0x0806"

datatype ip_type = IP_TYPE_V4

record ipaddr_t =
  ip_type :: ip_type
  v4 :: u32

record endpoint_t =
  ep_addr :: ipaddr_t
  ep_port :: u16

definition ipv4 :: "u32 \<Rightarrow> ipaddr_t" where
  "ipv4 a = \<lparr>ip_type = IP_TYPE_V4, v4 = a\<rparr>"

definition ipaddr_is_unspecified :: "ipaddr_t \<Rightarrow> bool" where
  "ipaddr_is_unspecified a = (case ip_type a of IP_TYPE_V4 \<Rightarrow> v4 a = IPV4_ADDR_UNSPECIFIED)"

definition ipaddr_equals :: "ipaddr_t \<Rightarrow> ipaddr_t \<Rightarrow> bool" where
  "ipaddr_equals a b = (if ip_type a = IP_TYPE_V4 \<and> ip_type b = IP_TYPE_V4 then v4 a = v4 b else False)"

definition ipaddr_equals_in_netmask :: "ipaddr_t \<Rightarrow> ipaddr_t \<Rightarrow> ipaddr_t \<Rightarrow> bool" where
  "ipaddr_equals_in_netmask a b netmask =
     (if ip_type a = IP_TYPE_V4 \<and> ip_type b = IP_TYPE_V4 \<and> ip_type netmask = IP_TYPE_V4
      then v4 a AND v4 netmask = v4 b AND v4 netmask else False)"

section \<open>Packets\<close>

text \<open>The packed headers, as records of integers in memory and as bytes.\<close>

record ethernet_header =
  eth_dst :: "u8 list"
  eth_src :: "u8 list"
  eth_type :: u16

definition ethernet_bytes :: "ethernet_header \<Rightarrow> u8 list" where
  "ethernet_bytes h = eth_dst h @ eth_src h @ le16 (eth_type h)"

definition ethernet_of :: "u8 list \<Rightarrow> ethernet_header" where
  "ethernet_of b = \<lparr>eth_dst = take 6 b, eth_src = take 6 (drop 6 b), eth_type = get16 b 12\<rparr>"

record arp_packet =
  arp_hw_type :: u16
  arp_proto_type :: u16
  arp_hw_size :: u8
  arp_proto_size :: u8
  arp_opcode :: u16
  arp_sender :: "u8 list"
  arp_sender_addr :: u32
  arp_target :: "u8 list"
  arp_target_addr :: u32

definition arp_bytes :: "arp_packet \<Rightarrow> u8 list" where
  "arp_bytes p =
     le16 (arp_hw_type p) @ le16 (arp_proto_type p) @ [arp_hw_size p, arp_proto_size p] @
     le16 (arp_opcode p) @ arp_sender p @ le32 (arp_sender_addr p) @ arp_target p @ le32 (arp_target_addr p)"

definition arp_of :: "u8 list \<Rightarrow> arp_packet" where
  "arp_of b =
     \<lparr>arp_hw_type = get16 b 0, arp_proto_type = get16 b 2, arp_hw_size = b ! 4, arp_proto_size = b ! 5,
      arp_opcode = get16 b 6, arp_sender = take 6 (drop 8 b), arp_sender_addr = get32 b 14,
      arp_target = take 6 (drop 18 b), arp_target_addr = get32 b 24\<rparr>"

record ipv4_header =
  ip_ver_ihl :: u8
  ip_dscp_ecn :: u8
  ip_len :: u16
  ip_id :: u16
  ip_flags_frag_off :: u16
  ip_ttl :: u8
  ip_proto :: u8
  ip_checksum :: u16
  ip_src_addr :: u32
  ip_dst_addr :: u32

definition ipv4_bytes :: "ipv4_header \<Rightarrow> u8 list" where
  "ipv4_bytes h =
     [ip_ver_ihl h, ip_dscp_ecn h] @ le16 (ip_len h) @ le16 (ip_id h) @ le16 (ip_flags_frag_off h) @
     [ip_ttl h, ip_proto h] @ le16 (ip_checksum h) @ le32 (ip_src_addr h) @ le32 (ip_dst_addr h)"

definition ipv4_of :: "u8 list \<Rightarrow> ipv4_header" where
  "ipv4_of b =
     \<lparr>ip_ver_ihl = b ! 0, ip_dscp_ecn = b ! 1, ip_len = get16 b 2, ip_id = get16 b 4, ip_flags_frag_off = get16 b 6,
      ip_ttl = b ! 8, ip_proto = b ! 9, ip_checksum = get16 b 10, ip_src_addr = get32 b 12, ip_dst_addr = get32 b 16\<rparr>"

record icmp_header =
  icmp_type :: u8
  icmp_code :: u8
  icmp_checksum :: u16
  icmp_id :: u16
  icmp_seq_no :: u16

definition icmp_bytes :: "icmp_header \<Rightarrow> u8 list" where
  "icmp_bytes h = [icmp_type h, icmp_code h] @ le16 (icmp_checksum h) @ le16 (icmp_id h) @ le16 (icmp_seq_no h)"

record udp_header =
  udp_src_port :: u16
  udp_dst_port :: u16
  udp_len :: u16
  udp_checksum :: u16

definition udp_bytes :: "udp_header \<Rightarrow> u8 list" where
  "udp_bytes h = le16 (udp_src_port h) @ le16 (udp_dst_port h) @ le16 (udp_len h) @ le16 (udp_checksum h)"

definition udp_of :: "u8 list \<Rightarrow> udp_header" where
  "udp_of b = \<lparr>udp_src_port = get16 b 0, udp_dst_port = get16 b 2, udp_len = get16 b 4, udp_checksum = get16 b 6\<rparr>"

record tcp_header =
  th_src_port :: u16
  th_dst_port :: u16
  th_seqno :: u32
  th_ackno :: u32
  th_off_and_ns :: u8
  th_flags :: u8
  th_win_size :: u16
  th_checksum :: u16
  th_urgent :: u16

definition tcp_bytes :: "tcp_header \<Rightarrow> u8 list" where
  "tcp_bytes h =
     le16 (th_src_port h) @ le16 (th_dst_port h) @ le32 (th_seqno h) @ le32 (th_ackno h) @
     [th_off_and_ns h, th_flags h] @ le16 (th_win_size h) @ le16 (th_checksum h) @ le16 (th_urgent h)"

definition tcp_of :: "u8 list \<Rightarrow> tcp_header" where
  "tcp_of b =
     \<lparr>th_src_port = get16 b 0, th_dst_port = get16 b 2, th_seqno = get32 b 4, th_ackno = get32 b 8,
      th_off_and_ns = b ! 12, th_flags = b ! 13, th_win_size = get16 b 14, th_checksum = get16 b 16,
      th_urgent = get16 b 18\<rparr>"

definition ETH_HDR_LEN :: nat where [kconst]: "ETH_HDR_LEN = 14"
definition ARP_LEN :: nat where [kconst]: "ARP_LEN = 28"
definition IPV4_HDR_LEN :: nat where [kconst]: "IPV4_HDR_LEN = 20"
definition ICMP_HDR_LEN :: nat where [kconst]: "ICMP_HDR_LEN = 8"
definition UDP_HDR_LEN :: nat where [kconst]: "UDP_HDR_LEN = 8"
definition TCP_HDR_LEN :: nat where [kconst]: "TCP_HDR_LEN = 20"
definition DHCP_HDR_LEN :: nat where [kconst]: "DHCP_HDR_LEN = 240"
definition DNS_HDR_LEN :: nat where [kconst]: "DNS_HDR_LEN = 12"


section \<open>Devices\<close>

definition ARP_ENTRIES_MAX :: nat where [kconst]: "ARP_ENTRIES_MAX = 128"
definition DEVICES_MAX :: nat where [kconst]: "DEVICES_MAX = 8"
definition DEVICE_NAME_LEN :: nat where [kconst]: "DEVICE_NAME_LEN = 8"
definition MSEC_MAX :: int where [kconst]: "MSEC_MAX = 2147483647"

text \<open>\<^verbatim>\<open>msec_t\<close> is a signed 32-bit integer; overflow is undefined.\<close>

definition msec_add :: "int \<Rightarrow> int \<Rightarrow> int option" where
  "msec_add a b = (if a + b \<le> MSEC_MAX then Some (a + b) else None)"

record arp_queue_entry =
  aq_dst :: u32
  aq_type :: u16
  aq_payload :: mbuf_t

record arp_entry =
  ae_in_use :: bool
  ae_resolved :: bool
  ae_ipaddr :: u32
  ae_macaddr :: "u8 list"
  ae_queue :: "arp_queue_entry list"
  ae_time_accessed :: int

type_synonym arp_table = "nat \<Rightarrow> arp_entry"

record device =
  dv_in_use :: bool
  dv_name :: cbuf
  dv_arg :: nat
  dv_dhcp_enabled :: bool
  dv_dhcp_leased :: bool
  dv_macaddr :: "u8 list"
  dv_ipaddr :: ipaddr_t
  dv_gateway :: ipaddr_t
  dv_netmask :: ipaddr_t
  dv_arp_table :: arp_table

section \<open>Sockets\<close>

datatype tcp_state =
    TCP_STATE_LISTEN
  | TCP_STATE_SYN_SENT
  | TCP_STATE_SYN_RECVED
  | TCP_STATE_ESTABLISHED
  | TCP_STATE_FIN_WAIT1
  | TCP_STATE_FIN_WAIT2
  | TCP_STATE_CLOSING
  | TCP_STATE_TIME_WAIT
  | TCP_STATE_CLOSE_WAIT
  | TCP_STATE_LAST_ACK
  | TCP_STATE_CLOSED

definition TCP_PEND_ACK :: u32 where [kconst]: "TCP_PEND_ACK = 1"
definition TCP_PEND_FIN :: u32 where [kconst]: "TCP_PEND_FIN = 2"
definition TCP_PEND_SYN :: u32 where [kconst]: "TCP_PEND_SYN = 4"
definition TCP_FIN :: u8 where [kconst]: "TCP_FIN = 1"
definition TCP_SYN :: u8 where [kconst]: "TCP_SYN = 2"
definition TCP_RST :: u8 where [kconst]: "TCP_RST = 4"
definition TCP_PSH :: u8 where [kconst]: "TCP_PSH = 8"
definition TCP_ACK :: u8 where [kconst]: "TCP_ACK = 16"
definition TCP_SOCKETS_MAX :: nat where [kconst]: "TCP_SOCKETS_MAX = 512"
definition TCP_RXT_INITIAL_TIMEOUT :: int where [kconst]: "TCP_RXT_INITIAL_TIMEOUT = 500"
definition TCP_RXT_MAX_TIMEOUT :: int where [kconst]: "TCP_RXT_MAX_TIMEOUT = 5000"
definition TCP_RX_BUF_SIZE :: nat where [kconst]: "TCP_RX_BUF_SIZE = 8192"
definition UDP_SOCKETS_MAX :: nat where [kconst]: "UDP_SOCKETS_MAX = 512"

record client =
  cl_task :: task_t
  cl_handle :: int
  cl_sock :: nat

record tcp_socket =
  sk_in_use :: bool
  sk_state :: tcp_state
  sk_pendings :: u32
  sk_next_seqno :: u32
  sk_last_seqno :: u32
  sk_last_ack :: u32
  sk_local_winsize :: u32
  sk_remote_winsize :: u32
  sk_local :: endpoint_t
  sk_remote :: endpoint_t
  sk_rx_buf :: "mbuf_t option"
  sk_tx_buf :: "mbuf_t option"
  sk_backlog :: nat
  sk_num_retransmits :: u32
  sk_retransmit_at :: int
  sk_listen_sock :: "nat option"
  sk_backlog_socks :: "nat list"
  sk_client :: "client option"

record udp_datagram =
  dg_addr :: ipaddr_t
  dg_port :: u16
  dg_payload :: mbuf_t
  dg_device :: "nat option"

record udp_socket =
  us_in_use :: bool
  us_local :: endpoint_t
  us_rx :: "udp_datagram list"
  us_tx :: "udp_datagram list"

section \<open>The server\<close>

datatype net_msg =
    NOTIFICATIONS_MSG u8
  | ASYNC_MSG
  | TCPIP_CONNECT_MSG u32 u16
  | TCPIP_CONNECT_REPLY_MSG int
  | TCPIP_LISTEN_MSG u16 int
  | TCPIP_LISTEN_REPLY_MSG int
  | TCPIP_ACCEPT_MSG int
  | TCPIP_ACCEPT_REPLY_MSG int
  | TCPIP_READ_MSG int nat
  | TCPIP_READ_REPLY_MSG "u8 list"
  | TCPIP_WRITE_MSG int "u8 list"
  | TCPIP_CLOSE_MSG int
  | TCPIP_REGISTER_DEVICE_MSG "u8 list"
  | TCPIP_REGISTER_DEVICE_REPLY_MSG
  | TCPIP_DNS_RESOLVE_MSG cbuf
  | TCPIP_DNS_RESOLVE_REPLY_MSG u32
  | TCPIP_NEW_CLIENT_MSG int
  | TCPIP_RECEIVED_MSG int
  | NET_RX_MSG "u8 list"
  | NET_TX_MSG "u8 list"
  | TASK_EXITED_MSG task_t
  | UNKNOWN_MSG

datatype net_call =
    Async_send task_t net_msg
  | Async_recv task_t
  | Async_reply task_t
  | Ipc_reply task_t net_msg
  | Ipc_send_noblock task_t net_msg
  | Ipc_send_err task_t error_t
  | Ipc_serve
  | Timer_set int

text \<open>What the rest of the system answers, as functions of the calls made so far, and the contents
  of fresh memory.\<close>

record net_env =
  ne_err :: "net_call list \<Rightarrow> error_t"
  ne_recv :: "net_call list \<Rightarrow> net_msg"
  ne_junk :: junk

datatype event =
    TCP_NEW_CLIENT "nat option"
  | TCP_RECEIVED nat
  | DNS_GOT_ANSWER u16 u32

record driver =
  dr_tid :: task_t
  dr_device :: nat
  dr_last_dhcp_discover :: int
  dr_dhcp_discover_retires :: int

record dns_request =
  dq_id :: u16
  dq_task :: task_t

record net =
  n_devices :: "nat \<Rightarrow> device"
  n_tcp :: "nat \<Rightarrow> tcp_socket"
  n_tcp_active :: "nat list"
  n_udp :: "nat \<Rightarrow> udp_socket"
  n_udp_active :: "nat list"
  n_dhcp_sock :: "nat option"
  n_dns_sock :: "nat option"
  n_dns_server_ipaddr :: ipaddr_t
  n_next_driver_id :: nat
  n_drivers :: "driver list"
  n_dns_requests :: "dns_request list"
  n_next_dns_query_id :: u16
  n_uptime :: int
  n_tcp_discarded :: nat
  n_tcp_dropped :: nat
  n_handles :: "client handles"
  n_calls :: "net_call list"

definition net_call :: "net_call \<Rightarrow> net \<Rightarrow> net" where
  "net_call c s = s\<lparr>n_calls := n_calls s @ [c]\<rparr>"

definition upd_dev :: "nat \<Rightarrow> (device \<Rightarrow> device) \<Rightarrow> net \<Rightarrow> net" where
  "upd_dev d f s = s\<lparr>n_devices := (n_devices s)(d := f (n_devices s d))\<rparr>"

definition upd_tcp :: "nat \<Rightarrow> (tcp_socket \<Rightarrow> tcp_socket) \<Rightarrow> net \<Rightarrow> net" where
  "upd_tcp i f s = s\<lparr>n_tcp := (n_tcp s)(i := f (n_tcp s i))\<rparr>"

definition upd_udp :: "nat \<Rightarrow> (udp_socket \<Rightarrow> udp_socket) \<Rightarrow> net \<Rightarrow> net" where
  "upd_udp i f s = s\<lparr>n_udp := (n_udp s)(i := f (n_udp s i))\<rparr>"

definition sys_uptime :: "net \<Rightarrow> int" where
  "sys_uptime s = n_uptime s"

lemma net_call_simps [simp]:
  "n_devices (net_call c s) = n_devices s" "n_tcp (net_call c s) = n_tcp s"
  "n_tcp_active (net_call c s) = n_tcp_active s" "n_udp (net_call c s) = n_udp s"
  "n_udp_active (net_call c s) = n_udp_active s" "n_dhcp_sock (net_call c s) = n_dhcp_sock s"
  "n_dns_sock (net_call c s) = n_dns_sock s" "n_dns_server_ipaddr (net_call c s) = n_dns_server_ipaddr s"
  "n_next_driver_id (net_call c s) = n_next_driver_id s" "n_drivers (net_call c s) = n_drivers s"
  "n_dns_requests (net_call c s) = n_dns_requests s" "n_next_dns_query_id (net_call c s) = n_next_dns_query_id s"
  "n_uptime (net_call c s) = n_uptime s" "n_tcp_discarded (net_call c s) = n_tcp_discarded s"
  "n_tcp_dropped (net_call c s) = n_tcp_dropped s" "n_handles (net_call c s) = n_handles s"
  "n_calls (net_call c s) = n_calls s @ [c]"
  by (simp_all add: net_call_def)

lemma upd_dev_simps [simp]:
  "n_devices (upd_dev d f s) = (n_devices s)(d := f (n_devices s d))" "n_tcp (upd_dev d f s) = n_tcp s"
  "n_tcp_active (upd_dev d f s) = n_tcp_active s" "n_udp (upd_dev d f s) = n_udp s"
  "n_udp_active (upd_dev d f s) = n_udp_active s" "n_dhcp_sock (upd_dev d f s) = n_dhcp_sock s"
  "n_dns_sock (upd_dev d f s) = n_dns_sock s" "n_dns_server_ipaddr (upd_dev d f s) = n_dns_server_ipaddr s"
  "n_next_driver_id (upd_dev d f s) = n_next_driver_id s" "n_drivers (upd_dev d f s) = n_drivers s"
  "n_dns_requests (upd_dev d f s) = n_dns_requests s" "n_next_dns_query_id (upd_dev d f s) = n_next_dns_query_id s"
  "n_uptime (upd_dev d f s) = n_uptime s" "n_tcp_discarded (upd_dev d f s) = n_tcp_discarded s"
  "n_tcp_dropped (upd_dev d f s) = n_tcp_dropped s" "n_handles (upd_dev d f s) = n_handles s"
  "n_calls (upd_dev d f s) = n_calls s"
  by (simp_all add: upd_dev_def)

lemma upd_tcp_simps [simp]:
  "n_devices (upd_tcp i f s) = n_devices s" "n_tcp (upd_tcp i f s) = (n_tcp s)(i := f (n_tcp s i))"
  "n_tcp_active (upd_tcp i f s) = n_tcp_active s" "n_udp (upd_tcp i f s) = n_udp s"
  "n_udp_active (upd_tcp i f s) = n_udp_active s" "n_dhcp_sock (upd_tcp i f s) = n_dhcp_sock s"
  "n_dns_sock (upd_tcp i f s) = n_dns_sock s" "n_dns_server_ipaddr (upd_tcp i f s) = n_dns_server_ipaddr s"
  "n_next_driver_id (upd_tcp i f s) = n_next_driver_id s" "n_drivers (upd_tcp i f s) = n_drivers s"
  "n_dns_requests (upd_tcp i f s) = n_dns_requests s" "n_next_dns_query_id (upd_tcp i f s) = n_next_dns_query_id s"
  "n_uptime (upd_tcp i f s) = n_uptime s" "n_tcp_discarded (upd_tcp i f s) = n_tcp_discarded s"
  "n_tcp_dropped (upd_tcp i f s) = n_tcp_dropped s" "n_handles (upd_tcp i f s) = n_handles s"
  "n_calls (upd_tcp i f s) = n_calls s"
  by (simp_all add: upd_tcp_def)

lemma upd_udp_simps [simp]:
  "n_devices (upd_udp i f s) = n_devices s" "n_tcp (upd_udp i f s) = n_tcp s"
  "n_tcp_active (upd_udp i f s) = n_tcp_active s" "n_udp (upd_udp i f s) = (n_udp s)(i := f (n_udp s i))"
  "n_udp_active (upd_udp i f s) = n_udp_active s" "n_dhcp_sock (upd_udp i f s) = n_dhcp_sock s"
  "n_dns_sock (upd_udp i f s) = n_dns_sock s" "n_dns_server_ipaddr (upd_udp i f s) = n_dns_server_ipaddr s"
  "n_next_driver_id (upd_udp i f s) = n_next_driver_id s" "n_drivers (upd_udp i f s) = n_drivers s"
  "n_dns_requests (upd_udp i f s) = n_dns_requests s" "n_next_dns_query_id (upd_udp i f s) = n_next_dns_query_id s"
  "n_uptime (upd_udp i f s) = n_uptime s" "n_tcp_discarded (upd_udp i f s) = n_tcp_discarded s"
  "n_tcp_dropped (upd_udp i f s) = n_tcp_dropped s" "n_handles (upd_udp i f s) = n_handles s"
  "n_calls (upd_udp i f s) = n_calls s"
  by (simp_all add: upd_udp_def)

end
