(* ===== verification/Net_Link.thy ===== *)
theory Net_Link
  imports Net_State
begin

text \<open>
  Devices, address resolution and the outgoing path of the network server: \<^verbatim>\<open>device.c\<close>, \<^verbatim>\<open>arp.c\<close>,
  \<^verbatim>\<open>ethernet.c\<close>, the transmitting half of \<^verbatim>\<open>ipv4.c\<close>, \<^verbatim>\<open>icmp.c\<close>, and \<open>transmit\<close> of \<^verbatim>\<open>main.c\<close>, through
  which packets leave. The function pointers of a device are always \<open>ethernet_transmit\<close> and
  \<open>transmit\<close>.
\<close>

section \<open>Devices\<close>

definition device_lookup :: "ipaddr_t \<Rightarrow> net \<Rightarrow> nat option" where
  "device_lookup dst s =
     (case find (\<lambda>i. dv_in_use (n_devices s i) \<and>
          ipaddr_equals_in_netmask (dv_ipaddr (n_devices s i)) dst (dv_netmask (n_devices s i))) [0..<DEVICES_MAX] of
        Some i \<Rightarrow> Some i
      | None \<Rightarrow> find (\<lambda>i. dv_in_use (n_devices s i) \<and> \<not> ipaddr_is_unspecified (dv_gateway (n_devices s i))) [0..<DEVICES_MAX])"

definition device_dst_is_gateway :: "nat \<Rightarrow> ipaddr_t \<Rightarrow> net \<Rightarrow> bool" where
  "device_dst_is_gateway d dst s =
     (\<not> ipaddr_equals_in_netmask (dv_ipaddr (n_devices s d)) dst (dv_netmask (n_devices s d)))"

definition arp_init :: "arp_table \<Rightarrow> arp_table" where
  "arp_init arp = (\<lambda>i. if i < ARP_ENTRIES_MAX then (arp i)\<lparr>ae_in_use := False\<rparr> else arp i)"

definition device_new :: "cbuf \<Rightarrow> nat \<Rightarrow> net \<Rightarrow> (nat option \<times> net) option" where
  "device_new name arg s =
     (case find (\<lambda>i. \<not> dv_in_use (n_devices s i)) [0..<DEVICES_MAX] of
        None \<Rightarrow> Some (None, s)
      | Some d \<Rightarrow>
          do {
            new_name \<leftarrow> strncpy2 (dv_name (n_devices s d)) name DEVICE_NAME_LEN;
            Some (Some d, upd_dev d (\<lambda>v. v\<lparr>
              dv_in_use := True, dv_arg := arg, dv_dhcp_enabled := False, dv_dhcp_leased := False,
              dv_macaddr := replicate MACADDR_LEN 0, dv_ipaddr := ipv4 0, dv_netmask := ipv4 0, dv_gateway := ipv4 0,
              dv_name := new_name, dv_arp_table := arp_init (dv_arp_table v)\<rparr>) s)
          })"

definition device_set_macaddr :: "nat \<Rightarrow> u8 list \<Rightarrow> net \<Rightarrow> net" where
  "device_set_macaddr d macaddr s = upd_dev d (\<lambda>v. v\<lparr>dv_macaddr := macaddr\<rparr>) s"

definition device_set_ip_addrs :: "nat \<Rightarrow> ipaddr_t \<Rightarrow> ipaddr_t \<Rightarrow> ipaddr_t \<Rightarrow> net \<Rightarrow> net" where
  "device_set_ip_addrs d ipaddr netmask gateway s =
     upd_dev d (\<lambda>v. v\<lparr>dv_ipaddr := ipaddr, dv_netmask := netmask, dv_gateway := gateway\<rparr>) s"

definition device_init :: "net \<Rightarrow> net" where
  "device_init s =
     s\<lparr>n_devices := (\<lambda>i. if i < DEVICES_MAX then (n_devices s i)\<lparr>dv_in_use := False\<rparr> else n_devices s i)\<rparr>"

section \<open>The table of resolved addresses\<close>

definition ARP_OP_REQUEST :: u16 where [kconst]: "ARP_OP_REQUEST = 1"
definition ARP_OP_REPLY :: u16 where [kconst]: "ARP_OP_REPLY = 2"

text \<open>The search of \<open>alloc_entry\<close>: the first unused entry, and the oldest one seen before it.\<close>

fun arp_alloc_loop :: "arp_table \<Rightarrow> nat list \<Rightarrow> nat option \<Rightarrow> int \<Rightarrow> nat option \<times> nat option" where
  "arp_alloc_loop arp [] oldest oldest_time = (None, oldest)"
| "arp_alloc_loop arp (i # rest) oldest oldest_time =
     (let (oldest, oldest_time) =
            (if ae_time_accessed (arp i) < oldest_time then (Some i, ae_time_accessed (arp i)) else (oldest, oldest_time))
      in if \<not> ae_in_use (arp i) then (Some i, oldest) else arp_alloc_loop arp rest oldest oldest_time)"

definition alloc_entry :: "arp_table \<Rightarrow> (nat \<times> arp_table) option" where
  "alloc_entry arp =
     (let (e, oldest) = arp_alloc_loop arp [0..<ARP_ENTRIES_MAX] None MSEC_MAX in
      do {
        e \<leftarrow> (case e of Some e \<Rightarrow> Some e | None \<Rightarrow> oldest);
        Some (e, arp(e := (arp e)\<lparr>ae_in_use := True, ae_queue := []\<rparr>))
      })"

definition arp_lookup :: "arp_table \<Rightarrow> u32 \<Rightarrow> nat option" where
  "arp_lookup arp ipaddr = find (\<lambda>i. ae_in_use (arp i) \<and> ae_ipaddr (arp i) = ipaddr) [0..<ARP_ENTRIES_MAX]"

abbreviation arp_of_dev :: "nat \<Rightarrow> net \<Rightarrow> arp_table" where
  "arp_of_dev d s \<equiv> dv_arp_table (n_devices s d)"

definition set_arp :: "nat \<Rightarrow> arp_table \<Rightarrow> net \<Rightarrow> net" where
  "set_arp d arp s = upd_dev d (\<lambda>v. v\<lparr>dv_arp_table := arp\<rparr>) s"

definition arp_resolve :: "nat \<Rightarrow> u32 \<Rightarrow> net \<Rightarrow> (u8 list option \<times> net) option" where
  "arp_resolve d ipaddr s =
     do {
       ASSERT (ipaddr \<noteq> IPV4_ADDR_UNSPECIFIED);
       if ipaddr = IPV4_ADDR_BROADCAST then Some (Some MACADDR_BROADCAST, s)
       else
         let arp = arp_of_dev d s in
         case arp_lookup arp ipaddr of
           None \<Rightarrow> Some (None, s)
         | Some e \<Rightarrow>
             if \<not> ae_resolved (arp e) then Some (None, s)
             else Some (Some (ae_macaddr (arp e)),
               set_arp d (arp(e := (arp e)\<lparr>ae_time_accessed := sys_uptime s\<rparr>)) s)
     }"

definition arp_enqueue :: "nat \<Rightarrow> u16 \<Rightarrow> u32 \<Rightarrow> mbuf_t \<Rightarrow> net \<Rightarrow> net option" where
  "arp_enqueue d type dst payload s =
     (let arp = arp_of_dev d s; found = arp_lookup arp dst in
      do {
        ASSERT (case found of None \<Rightarrow> True | Some e \<Rightarrow> \<not> ae_resolved (arp e));
        (e, arp) \<leftarrow>
          (case found of
             Some e \<Rightarrow> Some (e, arp)
           | None \<Rightarrow>
               do {
                 (e, arp) \<leftarrow> alloc_entry arp;
                 Some (e, arp(e := (arp e)\<lparr>ae_resolved := False, ae_ipaddr := dst, ae_time_accessed := sys_uptime s\<rparr>))
               });
        let qe = \<lparr>aq_dst = dst, aq_type = type, aq_payload = payload\<rparr>;
        Some (set_arp d (arp(e := (arp e)\<lparr>ae_queue := ae_queue (arp e) @ [qe]\<rparr>)) s)
      })"

section \<open>Sending frames\<close>

text \<open>\<open>transmit\<close> of \<^verbatim>\<open>main.c\<close>: the frame goes to the driver task of the device.\<close>

definition transmit :: "nat \<Rightarrow> mbuf_t \<Rightarrow> net \<Rightarrow> net option" where
  "transmit d pkt s =
     (let len = mbuf_len pkt; driver = dv_arg (n_devices s d) in
      do {
        ASSERT (len \<le> 2048);
        (payload, pkt) \<leftarrow> mbuf_read pkt len;
        if driver < length (n_drivers s)
        then Some (net_call (Async_send (dr_tid (n_drivers s ! driver)) (NET_TX_MSG payload)) s)
        else None
      })"

lemma arp_resolve_broadcast [simp]: "arp_resolve d IPV4_ADDR_BROADCAST s = Some (Some MACADDR_BROADCAST, s)"
  by (simp add: arp_resolve_def kconst)

function ethernet_transmit :: "net_env \<Rightarrow> nat \<Rightarrow> u16 \<Rightarrow> ipaddr_t \<Rightarrow> mbuf_t \<Rightarrow> net \<Rightarrow> net option"
  and arp_request :: "net_env \<Rightarrow> nat \<Rightarrow> u32 \<Rightarrow> net \<Rightarrow> net option"
  and arp_transmit :: "net_env \<Rightarrow> nat \<Rightarrow> u16 \<Rightarrow> u32 \<Rightarrow> u8 list \<Rightarrow> net \<Rightarrow> net option" where
  "ethernet_transmit env d type dst payload s =
     (let next_router =
            (if v4 dst \<noteq> IPV4_ADDR_BROADCAST \<and> device_dst_is_gateway d dst s
             then v4 (dv_gateway (n_devices s d)) else v4 dst) in
      do {
        ASSERT (ip_type dst = IP_TYPE_V4);
        (dst_macaddr, s) \<leftarrow> arp_resolve d next_router s;
        case dst_macaddr of
          None \<Rightarrow>
            do {
              s \<leftarrow> arp_enqueue d type next_router payload s;
              arp_request env d next_router s
            }
        | Some dst_macaddr \<Rightarrow>
            let header = \<lparr>eth_dst = dst_macaddr, eth_src = dv_macaddr (n_devices s d), eth_type = hton16 type\<rparr> in
            do {
              pkt \<leftarrow> mbuf_new (ne_junk env) (ethernet_bytes header);
              pkt \<leftarrow> mbuf_prepend payload pkt;
              transmit d pkt s
            }
      })"
| "arp_request env d addr s = arp_transmit env d ARP_OP_REQUEST addr MACADDR_BROADCAST s"
| "arp_transmit env d opc target_addr target s =
     do {
       ASSERT (ip_type (dv_ipaddr (n_devices s d)) = IP_TYPE_V4);
       let p = \<lparr>arp_hw_type = hton16 1, arp_proto_type = hton16 0x0800, arp_hw_size = of_nat MACADDR_LEN, arp_proto_size = 4,
         arp_opcode = hton16 opc, arp_sender = dv_macaddr (n_devices s d),
         arp_sender_addr = hton32 (v4 (dv_ipaddr (n_devices s d))), arp_target = target, arp_target_addr = hton32 target_addr\<rparr>;
       m \<leftarrow> mbuf_new (ne_junk env) (arp_bytes p);
       ethernet_transmit env d ETHER_TYPE_ARP (ipv4 IPV4_ADDR_BROADCAST) m s
     }"
  by pat_completeness auto

termination
  by (relation "measure (\<lambda>x. case x of
        Inl (env, d, type, dst, payload, s) \<Rightarrow> if v4 dst = IPV4_ADDR_BROADCAST then 0 else 3
      | Inr (Inl (env, d, addr, s)) \<Rightarrow> 2
      | Inr (Inr (env, d, opc, target_addr, target, s)) \<Rightarrow> (1::nat))")
    (auto simp: ipv4_def split: if_splits)

declare ethernet_transmit.simps [simp del] arp_request.simps [simp del] arp_transmit.simps [simp del]

text \<open>The packets that waited for the address are sent and unlinked one by one; the loop has the
  next one before it sends one. An entry that changes under the loop would break the list.\<close>

fun flush_queue :: "net_env \<Rightarrow> nat \<Rightarrow> nat \<Rightarrow> arp_queue_entry list \<Rightarrow> net \<Rightarrow> net option" where
  "flush_queue env d e [] s = Some s"
| "flush_queue env d e (qe # rest) s =
     do {
       s \<leftarrow> ethernet_transmit env d (aq_type qe) (ipv4 (aq_dst qe)) (aq_payload qe) s;
       ASSERT (ae_queue (arp_of_dev d s e) = qe # rest);
       flush_queue env d e rest (set_arp d ((arp_of_dev d s)(e := (arp_of_dev d s e)\<lparr>ae_queue := rest\<rparr>)) s)
     }"

definition arp_register_macaddr :: "net_env \<Rightarrow> nat \<Rightarrow> u32 \<Rightarrow> u8 list \<Rightarrow> net \<Rightarrow> net option" where
  "arp_register_macaddr env d ipaddr macaddr s =
     do {
       (e, arp) \<leftarrow> (case arp_lookup (arp_of_dev d s) ipaddr of
          Some e \<Rightarrow> Some (e, arp_of_dev d s)
        | None \<Rightarrow> alloc_entry (arp_of_dev d s));
       let arp = arp(e := (arp e)\<lparr>ae_resolved := True, ae_ipaddr := ipaddr, ae_time_accessed := sys_uptime s, ae_macaddr := macaddr\<rparr>);
       flush_queue env d e (ae_queue (arp e)) (set_arp d arp s)
     }"

definition arp_receive :: "net_env \<Rightarrow> nat \<Rightarrow> mbuf_t \<Rightarrow> net \<Rightarrow> net option" where
  "arp_receive env d pkt s =
     do {
       (b, pkt) \<leftarrow> mbuf_read pkt ARP_LEN;
       if length b \<noteq> ARP_LEN then Some s
       else
         let p = arp_of b; opcode = ntoh16 (arp_opcode p); sender_addr = ntoh32 (arp_sender_addr p);
             target_addr = ntoh32 (arp_target_addr p) in
         if opcode = ARP_OP_REQUEST then
           if ip_type (dv_ipaddr (n_devices s d)) \<noteq> IP_TYPE_V4 then Some s
           else if v4 (dv_ipaddr (n_devices s d)) \<noteq> target_addr then Some s
           else arp_transmit env d ARP_OP_REPLY sender_addr (arp_sender p) s
         else if opcode = ARP_OP_REPLY then arp_register_macaddr env d sender_addr (arp_sender p) s
         else Some s
     }"

section \<open>Sending datagrams\<close>

definition DEFAULT_TTL :: u8 where [kconst]: "DEFAULT_TTL = 32"

definition ipv4_transmit :: "net_env \<Rightarrow> u32 \<Rightarrow> u8 \<Rightarrow> mbuf_t \<Rightarrow> net \<Rightarrow> net option" where
  "ipv4_transmit env dst proto payload s =
     (case device_lookup (ipv4 dst) s of
        None \<Rightarrow> Some s
      | Some d \<Rightarrow>
          let header = \<lparr>ip_ver_ihl = 0x45, ip_dscp_ecn = 0, ip_len = hton16 (of_nat (IPV4_HDR_LEN + mbuf_len payload)), ip_id = 0,
                ip_flags_frag_off = 0, ip_ttl = DEFAULT_TTL, ip_proto = proto, ip_checksum = 0,
                ip_src_addr = hton32 (v4 (dv_ipaddr (n_devices s d))), ip_dst_addr = hton32 dst\<rparr>;
              checksum = checksum_update 0 (ipv4_bytes header);
              header = header\<lparr>ip_checksum := ucast (checksum_finish checksum)\<rparr> in
          do {
            pkt \<leftarrow> mbuf_new (ne_junk env) (ipv4_bytes header);
            pkt \<leftarrow> mbuf_prepend payload pkt;
            ethernet_transmit env d ETHER_TYPE_IPV4 (ipv4 dst) pkt s
          })"

definition ICMP_TYPE_ECHO_REQUEST :: u8 where [kconst]: "ICMP_TYPE_ECHO_REQUEST = 0x08"

text \<open>\<open>seq_no\<close> is what the uninitialised field of the header holds.\<close>

definition icmp_send_echo_request :: "net_env \<Rightarrow> u16 \<Rightarrow> ipaddr_t \<Rightarrow> net \<Rightarrow> net option" where
  "icmp_send_echo_request env seq_no dst s =
     (let header = \<lparr>icmp_type = ICMP_TYPE_ECHO_REQUEST, icmp_code = 0, icmp_checksum = 0, icmp_id = 0, icmp_seq_no = seq_no\<rparr> in
      case device_lookup dst s of
        None \<Rightarrow> Some s
      | Some d \<Rightarrow>
          let payload = [0x21, 0x40, 0x23, 0x24];
              checksum = checksum_update (checksum_update 0 (icmp_bytes header)) payload;
              header = header\<lparr>icmp_checksum := ucast (checksum_finish checksum)\<rparr> in
          do {
            pkt \<leftarrow> mbuf_new (ne_junk env) (icmp_bytes header);
            pkt \<leftarrow> mbuf_append_bytes (ne_junk env) pkt payload;
            ipv4_transmit env (v4 dst) IPV4_PROTO_ICMP pkt s
          })"

text \<open>A received message is only traced.\<close>

definition icmp_receive :: "ipaddr_t \<Rightarrow> ipaddr_t \<Rightarrow> mbuf_t \<Rightarrow> net \<Rightarrow> net option" where
  "icmp_receive dst src pkt s =
     do {
       (b, pkt) \<leftarrow> mbuf_read pkt ICMP_HDR_LEN;
       Some s
     }"

end
