(* ===== verification/Net_Udp.thy ===== *)
theory Net_Udp
  imports Net_Link Malloc
begin

text \<open>
  Datagrams and their two users in the network server: \<^verbatim>\<open>udp.c\<close>, \<^verbatim>\<open>dhcp.c\<close> and \<^verbatim>\<open>dns.c\<close>, with the
  events of \<^verbatim>\<open>main.c\<close> that report what was received to clients.
\<close>

section \<open>Datagram sockets\<close>

definition udp_lookup :: "u16 \<Rightarrow> net \<Rightarrow> nat option" where
  "udp_lookup dst_port s = find (\<lambda>i. ep_port (us_local (n_udp s i)) = dst_port) (n_udp_active s)"

definition udp_new :: "net \<Rightarrow> nat option \<times> net" where
  "udp_new s =
     (case find (\<lambda>i. \<not> us_in_use (n_udp s i)) [0..<UDP_SOCKETS_MAX] of
        None \<Rightarrow> (None, s)
      | Some i \<Rightarrow> (Some i, upd_udp i (\<lambda>k. k\<lparr>
          us_in_use := True, us_local := \<lparr>ep_addr = ipv4 0, ep_port = 0\<rparr>, us_rx := [], us_tx := []\<rparr>) s))"

definition udp_close :: "nat \<Rightarrow> net \<Rightarrow> net" where
  "udp_close i s =
     upd_udp i (\<lambda>k. k\<lparr>us_in_use := False\<rparr>) (s\<lparr>n_udp_active := filter (\<lambda>j. j \<noteq> i) (n_udp_active s)\<rparr>)"

definition udp_bind :: "nat \<Rightarrow> ipaddr_t \<Rightarrow> u16 \<Rightarrow> net \<Rightarrow> net option" where
  "udp_bind i addr port s =
     do {
       let s = upd_udp i (\<lambda>k. k\<lparr>us_local := \<lparr>ep_addr = addr, ep_port = port\<rparr>\<rparr>) s;
       ASSERT (i \<notin> set (n_udp_active s));
       Some (s\<lparr>n_udp_active := n_udp_active s @ [i]\<rparr>)
     }"

definition udp_sendto_mbuf :: "nat \<Rightarrow> ipaddr_t \<Rightarrow> u16 \<Rightarrow> mbuf_t \<Rightarrow> net \<Rightarrow> net" where
  "udp_sendto_mbuf i dst dst_port payload s =
     upd_udp i (\<lambda>k. k\<lparr>us_tx := us_tx k @ [\<lparr>dg_addr = dst, dg_port = dst_port, dg_payload = payload, dg_device = None\<rparr>]\<rparr>) s"

definition udp_sendto :: "net_env \<Rightarrow> nat \<Rightarrow> ipaddr_t \<Rightarrow> u16 \<Rightarrow> u8 list \<Rightarrow> net \<Rightarrow> net option" where
  "udp_sendto env i dst dst_port data s =
     do {
       m \<leftarrow> mbuf_new (ne_junk env) data;
       Some (udp_sendto_mbuf i dst dst_port m s)
     }"

text \<open>The datagram, with its payload, device, source address and port, or nothing.\<close>

definition udp_recv_mbuf :: "nat \<Rightarrow> net \<Rightarrow> udp_datagram option \<times> net" where
  "udp_recv_mbuf i s =
     (case us_rx (n_udp s i) of
        [] \<Rightarrow> (None, s)
      | dg # rest \<Rightarrow> (Some dg, upd_udp i (\<lambda>k. k\<lparr>us_rx := rest\<rparr>) s))"

definition udp_recv :: "nat \<Rightarrow> nat \<Rightarrow> net \<Rightarrow> ((nat \<times> u8 list) \<times> net) option" where
  "udp_recv i buf_len s =
     (case udp_recv_mbuf i s of
        (None, s) \<Rightarrow> Some ((0, []), s)
      | (Some dg, s) \<Rightarrow>
          do {
            let len = mbuf_len (dg_payload dg);
            (buf, payload) \<leftarrow> mbuf_read (dg_payload dg) buf_len;
            Some ((len, buf), s)
          })"

text \<open>The port kept with a received datagram is its destination port.\<close>

definition udp_receive :: "nat \<Rightarrow> ipaddr_t \<Rightarrow> mbuf_t \<Rightarrow> net \<Rightarrow> net option" where
  "udp_receive d src pkt s =
     do {
       (b, pkt) \<leftarrow> mbuf_read pkt UDP_HDR_LEN;
       if length b \<noteq> UDP_HDR_LEN then Some s
       else
         let dst_port = ntoh16 (udp_dst_port (udp_of b)) in
         case udp_lookup dst_port s of
           None \<Rightarrow> Some s
         | Some i \<Rightarrow> Some (upd_udp i (\<lambda>k. k\<lparr>us_rx := us_rx k @
             [\<lparr>dg_addr = src, dg_port = dst_port, dg_payload = pkt, dg_device = Some d\<rparr>]\<rparr>) s)
     }"

definition udp_transmit :: "net_env \<Rightarrow> nat \<Rightarrow> net \<Rightarrow> net option" where
  "udp_transmit env i s =
     (case us_tx (n_udp s i) of
        [] \<Rightarrow> Some s
      | dg # rest \<Rightarrow>
          let s = upd_udp i (\<lambda>k. k\<lparr>us_tx := rest\<rparr>) s;
              total_len = UDP_HDR_LEN + mbuf_len (dg_payload dg);
              header = \<lparr>udp_src_port = hton16 (ep_port (us_local (n_udp s i))), udp_dst_port = hton16 (dg_port dg),
                udp_len = hton16 (of_nat total_len), udp_checksum = 0\<rparr> in
          (case device_lookup (dg_addr dg) s of
            None \<Rightarrow> Some s
          | Some d \<Rightarrow>
              let checksum = checksum_update_mbuf 0 (dg_payload dg);
                  checksum = checksum_update checksum (udp_bytes header);
                  checksum = checksum_update_uint32 checksum (hton32 (v4 (dg_addr dg)));
                  checksum = checksum_update_uint32 checksum (hton32 (v4 (dv_ipaddr (n_devices s d))));
                  checksum = checksum_update_uint16 checksum (hton16 (of_nat total_len));
                  checksum = checksum_update_uint16 checksum (hton16 (ucast IPV4_PROTO_UDP));
                  header = header\<lparr>udp_checksum := ucast (checksum_finish checksum)\<rparr> in
              do {
                pkt \<leftarrow> mbuf_new (ne_junk env) (udp_bytes header);
                pkt \<leftarrow> mbuf_prepend (dg_payload dg) pkt;
                ipv4_transmit env (v4 (dg_addr dg)) IPV4_PROTO_UDP pkt s
              }))"

definition udp_init :: "net \<Rightarrow> net" where
  "udp_init s =
     s\<lparr>n_udp_active := [],
       n_udp := (\<lambda>i. if i < UDP_SOCKETS_MAX then (n_udp s i)\<lparr>us_in_use := False\<rparr> else n_udp s i)\<rparr>"

section \<open>Address configuration\<close>

definition DHCP_MAGIC :: u32 where [kconst]: "DHCP_MAGIC = 0x63825363"
definition DHCP_OPTION_NETMASK :: u8 where [kconst]: "DHCP_OPTION_NETMASK = 1"
definition DHCP_OPTION_ROUTER :: u8 where [kconst]: "DHCP_OPTION_ROUTER = 3"
definition DHCP_OPTION_DNS :: u8 where [kconst]: "DHCP_OPTION_DNS = 6"
definition DHCP_OPTION_REQUESTED_ADDR :: u8 where [kconst]: "DHCP_OPTION_REQUESTED_ADDR = 50"
definition DHCP_OPTION_DHCP_TYPE :: u8 where [kconst]: "DHCP_OPTION_DHCP_TYPE = 53"
definition DHCP_OPTION_PARAM_LIST :: u8 where [kconst]: "DHCP_OPTION_PARAM_LIST = 55"
definition DHCP_OPTION_END :: u8 where [kconst]: "DHCP_OPTION_END = 255"
definition DHCP_TYPE_DISCOVER :: u8 where [kconst]: "DHCP_TYPE_DISCOVER = 1"
definition DHCP_TYPE_OFFER :: u8 where [kconst]: "DHCP_TYPE_OFFER = 2"
definition DHCP_TYPE_REQUEST :: u8 where [kconst]: "DHCP_TYPE_REQUEST = 3"
definition DHCP_TYPE_ACK :: u8 where [kconst]: "DHCP_TYPE_ACK = 5"

text \<open>The fixed part of a request from the hardware address \<open>mac\<close>.\<close>

definition dhcp_header_bytes :: "u8 list \<Rightarrow> u8 list" where
  "dhcp_header_bytes mac =
     [1, 1, of_nat MACADDR_LEN, 0] @ le32 (hton32 0x1234abcd) @ le16 0 @ le16 (hton16 0x8000) @
     le32 0 @ le32 0 @ le32 0 @ le32 0 @ mac @ replicate 202 0 @ le32 (hton32 DHCP_MAGIC)"

text \<open>A sequence of \<open>mbuf_append_bytes\<close>.\<close>

fun append_all :: "junk \<Rightarrow> u8 list list \<Rightarrow> mbuf_t \<Rightarrow> mbuf_t option" where
  "append_all junk [] m = Some m"
| "append_all junk (bs # rest) m =
     do {
       m \<leftarrow> mbuf_append_bytes junk m bs;
       append_all junk rest m
     }"

definition dhcp_transmit :: "net_env \<Rightarrow> nat \<Rightarrow> u8 \<Rightarrow> u32 \<Rightarrow> net \<Rightarrow> net option" where
  "dhcp_transmit env d type requested_addr s =
     (let junk = ne_junk env in
      do {
        m \<leftarrow> mbuf_new junk (dhcp_header_bytes (dv_macaddr (n_devices s d)));
        m \<leftarrow> append_all junk [[DHCP_OPTION_DHCP_TYPE, 1], [type]] m;
        m \<leftarrow> (if requested_addr \<noteq> IPV4_ADDR_UNSPECIFIED
              then append_all junk [[DHCP_OPTION_REQUESTED_ADDR, 4], le32 (hton32 requested_addr)] m
              else Some m);
        m \<leftarrow> append_all junk [[DHCP_OPTION_PARAM_LIST, 2], [DHCP_OPTION_NETMASK, DHCP_OPTION_ROUTER]] m;
        m \<leftarrow> append_all junk [[DHCP_OPTION_END]] m;
        let padding_len = 4 - mbuf_len m mod 4 + 8;
        m \<leftarrow> append_all junk (replicate padding_len [DHCP_OPTION_END]) m;
        udp_sock \<leftarrow> n_dhcp_sock s;
        udp_transmit env udp_sock (udp_sendto_mbuf udp_sock (ipv4 IPV4_ADDR_BROADCAST) 67 m s)
      })"

definition device_enable_dhcp :: "net_env \<Rightarrow> nat \<Rightarrow> net \<Rightarrow> net option" where
  "device_enable_dhcp env d s =
     dhcp_transmit env d DHCP_TYPE_DISCOVER IPV4_ADDR_UNSPECIFIED
       (upd_dev d (\<lambda>v. v\<lparr>dv_dhcp_enabled := True, dv_dhcp_leased := False\<rparr>) s)"

record dhcp_options =
  do_type :: u8
  do_gateway :: u32
  do_netmask :: u32
  do_dns_server :: u32

text \<open>One option: \<open>None\<close> inside is the early return on a wrong length.\<close>

definition dhcp_option :: "u8 \<Rightarrow> u8 \<Rightarrow> mbuf_t \<Rightarrow> dhcp_options \<Rightarrow> (mbuf_t \<times> dhcp_options) option option" where
  "dhcp_option option_type option_len payload opts =
     (if option_type = DHCP_OPTION_DHCP_TYPE then
        if option_len \<noteq> 1 then Some None
        else do {
          (b, payload) \<leftarrow> mbuf_read payload 1;
          Some (Some (payload, if length b \<noteq> 1 then opts else opts\<lparr>do_type := b ! 0\<rparr>))
        }
      else if option_type = DHCP_OPTION_NETMASK then
        if option_len \<noteq> 4 then Some None
        else do {
          (b, payload) \<leftarrow> mbuf_read payload 4;
          Some (Some (payload, if length b \<noteq> 4 then opts else opts\<lparr>do_netmask := ntoh32 (get32 b 0)\<rparr>))
        }
      else if option_type = DHCP_OPTION_ROUTER then
        if option_len \<noteq> 4 then Some None
        else do {
          (b, payload) \<leftarrow> mbuf_read payload 4;
          Some (Some (payload, if length b \<noteq> 4 then opts else opts\<lparr>do_gateway := ntoh32 (get32 b 0)\<rparr>))
        }
      else if option_type = DHCP_OPTION_DNS then
        if option_len \<noteq> 4 then Some None
        else do {
          (b, payload) \<leftarrow> mbuf_read payload 4;
          Some (Some (payload, if length b \<noteq> 4 then opts else opts\<lparr>do_dns_server := ntoh32 (get32 b 0)\<rparr>))
        }
      else do {
        (n, payload) \<leftarrow> mbuf_discard payload (unat option_len);
        Some (Some (payload, opts))
      })"

lemma dhcp_option_dec:
  "dhcp_option ty n payload opts = Some (Some (payload', opts')) \<Longrightarrow> mbuf_len payload' \<le> mbuf_len payload"
  by (auto simp: dhcp_option_def bind_Some_eq split: if_splits dest: mbuf_discard_dec dest!: mbuf_read_dec)

function dhcp_options_loop :: "mbuf_t \<Rightarrow> dhcp_options \<Rightarrow> dhcp_options option option" where
  "dhcp_options_loop payload opts =
     (if \<not> mbuf_is_empty payload then Some (Some opts)
      else (case mbuf_read payload 1 of
        None \<Rightarrow> None
      | Some (b, payload) \<Rightarrow>
          if length b \<noteq> 1 then Some (Some opts)
          else if b ! 0 = DHCP_OPTION_END then Some (Some opts)
          else (case mbuf_read payload 1 of
            None \<Rightarrow> None
          | Some (c, payload) \<Rightarrow>
              if length c \<noteq> 1 then Some (Some opts)
              else (case dhcp_option (b ! 0) (c ! 0) payload opts of
                None \<Rightarrow> None
              | Some None \<Rightarrow> Some None
              | Some (Some (payload, opts)) \<Rightarrow> dhcp_options_loop payload opts))))"
  by pat_completeness auto
termination
  by (relation "measure (\<lambda>(payload, opts). mbuf_len payload)")
    (auto dest!: mbuf_read_dec dhcp_option_dec)

declare dhcp_options_loop.simps [simp del]

definition dns_set_name_server :: "ipaddr_t \<Rightarrow> net \<Rightarrow> net" where
  "dns_set_name_server ipaddr s = s\<lparr>n_dns_server_ipaddr := ipaddr\<rparr>"

definition dhcp_process :: "net_env \<Rightarrow> nat \<Rightarrow> mbuf_t \<Rightarrow> net \<Rightarrow> net option" where
  "dhcp_process env d payload s =
     do {
       (b, payload) \<leftarrow> mbuf_read payload DHCP_HDR_LEN;
       if length b \<noteq> DHCP_HDR_LEN then Some s
       else do {
         let your_ipaddr = ntoh32 (get32 b 16);
         r \<leftarrow> dhcp_options_loop payload \<lparr>do_type = 0, do_gateway = IPV4_ADDR_UNSPECIFIED,
           do_netmask = IPV4_ADDR_UNSPECIFIED, do_dns_server = IPV4_ADDR_UNSPECIFIED\<rparr>;
         case r of
           None \<Rightarrow> Some s
         | Some opts \<Rightarrow>
             if do_type opts = DHCP_TYPE_OFFER then dhcp_transmit env d DHCP_TYPE_REQUEST your_ipaddr s
             else if do_type opts = DHCP_TYPE_ACK then
               if do_netmask opts = IPV4_ADDR_UNSPECIFIED \<or> do_gateway opts = IPV4_ADDR_UNSPECIFIED \<or>
                  do_dns_server opts = IPV4_ADDR_UNSPECIFIED then Some s
               else Some (dns_set_name_server (ipv4 (do_dns_server opts))
                 (device_set_ip_addrs d (ipv4 your_ipaddr) (ipv4 (do_netmask opts)) (ipv4 (do_gateway opts))
                   (upd_dev d (\<lambda>v. v\<lparr>dv_dhcp_leased := True\<rparr>) s)))
             else Some s
       }
     }"

partial_function (option) dhcp_receive :: "net_env \<Rightarrow> net \<Rightarrow> net option" where
  "dhcp_receive env s =
     (case n_dhcp_sock s of
        None \<Rightarrow> None
      | Some udp_sock \<Rightarrow>
          (case udp_recv_mbuf udp_sock s of
             (None, s) \<Rightarrow> Some s
           | (Some dg, s) \<Rightarrow>
               (case dg_device dg of
                  None \<Rightarrow> None
                | Some d \<Rightarrow>
                    (case dhcp_process env d (dg_payload dg) s of
                       None \<Rightarrow> None
                     | Some s \<Rightarrow> dhcp_receive env s))))"

definition dhcp_init :: "net \<Rightarrow> net option" where
  "dhcp_init s =
     do {
       let (i, s) = udp_new s;
       i \<leftarrow> i;
       udp_bind i (ipv4 IPV4_ADDR_UNSPECIFIED) 68 (s\<lparr>n_dhcp_sock := Some i\<rparr>)
     }"

section \<open>Reporting to clients\<close>

definition sys_process_event :: "event \<Rightarrow> net \<Rightarrow> net option" where
  "sys_process_event e s =
     (case e of
        TCP_NEW_CLIENT sock \<Rightarrow>
          do {
            sock \<leftarrow> sock;
            c \<leftarrow> sk_client (n_tcp s sock);
            Some (net_call (Async_send (cl_task c) (TCPIP_NEW_CLIENT_MSG (cl_handle c))) s)
          }
      | TCP_RECEIVED sock \<Rightarrow>
          (case sk_client (n_tcp s sock) of
             None \<Rightarrow> Some s
           | Some c \<Rightarrow> Some (net_call (Async_send (cl_task c) (TCPIP_RECEIVED_MSG (cl_handle c))) s))
      | DNS_GOT_ANSWER qid addr \<Rightarrow>
          Some (s\<lparr>
            n_calls := n_calls s @ map (\<lambda>req. Ipc_reply (dq_task req) (TCPIP_DNS_RESOLVE_REPLY_MSG addr))
              (filter (\<lambda>req. dq_id req = qid) (n_dns_requests s)),
            n_dns_requests := filter (\<lambda>req. dq_id req \<noteq> qid) (n_dns_requests s)\<rparr>))"

section \<open>Names\<close>

definition DNS_QTYPE_A :: u16 where [kconst]: "DNS_QTYPE_A = 0x0001"

text \<open>\<^verbatim>\<open>strdup\<close>: the block \<^verbatim>\<open>malloc\<close> returns for the copy, as far as it may be read.\<close>

definition strdup_block :: "junk \<Rightarrow> cbuf \<Rightarrow> u8 list option" where
  "strdup_block junk s =
     do {
       n \<leftarrow> strlen s;
       let sz = (n + 1 + 15) div 16 * 16;
       let capacity = (case get_bin_idx_from_size sz of Some i \<Rightarrow> 2 ^ i | None \<Rightarrow> sz);
       Some (take n s @ [0] @ map junk [n + 1..<capacity])
     }"

text \<open>The loop over the labels of a name. The pointer is moved past the end of each label, also
  when that is the terminator of the string. \<open>None\<close> inside is \<open>ERR_INVALID_ARG\<close>.\<close>

function dns_labels :: "junk \<Rightarrow> u8 list \<Rightarrow> mbuf_t \<Rightarrow> mbuf_t option option" where
  "dns_labels junk s m =
     (case s of
        [] \<Rightarrow> None
      | c # _ \<Rightarrow>
          if c = 0 then Some (Some m)
          else
            let label = takeWhile (\<lambda>c. c \<noteq> 0x2e \<and> c \<noteq> 0) s; rest = dropWhile (\<lambda>c. c \<noteq> 0x2e \<and> c \<noteq> 0) s in
            if rest = [] then None
            else if length label > 63 then Some None
            else (case append_all junk [[of_nat (length label)], label] m of
              None \<Rightarrow> None
            | Some m \<Rightarrow> dns_labels junk (tl rest) m))"
  by pat_completeness auto
termination
proof (relation "measure (\<lambda>(junk, s, m). length s)")
  fix s c label rest and m :: mbuf_t and junk :: junk and m' :: mbuf_t
  assume "rest = dropWhile (\<lambda>c. c \<noteq> 0x2e \<and> c \<noteq> (0::u8)) s" "rest \<noteq> []"
  then have "length rest \<le> length s" "0 < length rest"
    using length_dropWhile_le [of "\<lambda>c. c \<noteq> 0x2e \<and> c \<noteq> 0" s] by simp_all
  then show "((junk, tl rest, m'), junk, s, m) \<in> measure (\<lambda>(junk, s, m). length s)"
    by (cases rest) auto
qed auto

declare dns_labels.simps [simp del]

definition dns_query :: "net_env \<Rightarrow> u16 \<Rightarrow> cbuf \<Rightarrow> net \<Rightarrow> (error_t \<times> net) option" where
  "dns_query env qid hostname s =
     (let junk = ne_junk env in
      do {
        name \<leftarrow> strdup_block junk hostname;
        m \<leftarrow> mbuf_new junk (le16 (hton16 qid) @ le16 (hton16 0x0100) @ le16 (hton16 1) @ le16 0 @ le16 0 @ le16 0);
        r \<leftarrow> dns_labels junk name m;
        case r of
          None \<Rightarrow> Some (ERR_INVALID_ARG, s)
        | Some m \<Rightarrow>
            do {
              m \<leftarrow> append_all junk [[0], le16 (hton16 DNS_QTYPE_A), le16 (hton16 0x0001)] m;
              udp_sock \<leftarrow> n_dns_sock s;
              s \<leftarrow> udp_transmit env udp_sock (udp_sendto_mbuf udp_sock (n_dns_server_ipaddr s) 53 m s);
              Some (OK, s)
            }
      })"

function skip_labels :: "mbuf_t \<Rightarrow> mbuf_t option" where
  "skip_labels payload =
     (case mbuf_read payload 1 of
        None \<Rightarrow> None
      | Some (b, payload) \<Rightarrow>
          if length b \<noteq> 1 then Some payload
          else if b ! 0 AND 0xc0 \<noteq> 0 then map_option snd (mbuf_discard payload 1)
          else (case mbuf_discard payload (unat (b ! 0)) of
            None \<Rightarrow> None
          | Some (n, payload) \<Rightarrow> if b ! 0 > 0 then skip_labels payload else Some payload))"
  by pat_completeness auto
termination
  by (relation "measure mbuf_len") (auto dest!: mbuf_read_dec mbuf_discard_dec)

declare skip_labels.simps [simp del]

text \<open>\<open>None\<close> inside is the early return of \<open>dns_process\<close> on a short message.\<close>

fun skip_queries :: "nat \<Rightarrow> mbuf_t \<Rightarrow> mbuf_t option option" where
  "skip_queries 0 payload = Some (Some payload)"
| "skip_queries (Suc n) payload =
     do {
       payload \<leftarrow> skip_labels payload;
       (b, payload) \<leftarrow> mbuf_read payload 4;
       if length b \<noteq> 4 then Some None else skip_queries n payload
     }"

fun dns_answers :: "nat \<Rightarrow> u16 \<Rightarrow> mbuf_t \<Rightarrow> net \<Rightarrow> net option" where
  "dns_answers 0 qid payload s = Some s"
| "dns_answers (Suc n) qid payload s =
     do {
       payload \<leftarrow> skip_labels payload;
       (b, payload) \<leftarrow> mbuf_read payload 10;
       if length b \<noteq> 10 then Some s
       else if ntoh16 (get16 b 0) \<noteq> DNS_QTYPE_A then
         do {
           (k, payload) \<leftarrow> mbuf_discard payload (unat (ntoh16 (get16 b 8)));
           dns_answers n qid payload s
         }
       else do {
         (data, payload) \<leftarrow> mbuf_read payload 4;
         if length data \<noteq> 4 then Some s
         else do {
           s \<leftarrow> sys_process_event (DNS_GOT_ANSWER qid (ntoh32 (get32 data 0))) s;
           dns_answers n qid payload s
         }
       }
     }"

definition dns_process :: "mbuf_t \<Rightarrow> net \<Rightarrow> net option" where
  "dns_process payload s =
     do {
       (b, payload) \<leftarrow> mbuf_read payload DNS_HDR_LEN;
       if length b \<noteq> DNS_HDR_LEN then Some s
       else do {
         r \<leftarrow> skip_queries (unat (ntoh16 (get16 b 4))) payload;
         case r of
           None \<Rightarrow> Some s
         | Some payload \<Rightarrow> dns_answers (unat (ntoh16 (get16 b 6))) (ntoh16 (get16 b 0)) payload s
       }
     }"

partial_function (option) dns_receive :: "net \<Rightarrow> net option" where
  "dns_receive s =
     (case n_dns_sock s of
        None \<Rightarrow> None
      | Some udp_sock \<Rightarrow>
          (case udp_recv_mbuf udp_sock s of
             (None, s) \<Rightarrow> Some s
           | (Some dg, s) \<Rightarrow>
               if \<not> ipaddr_equals (dg_addr dg) (n_dns_server_ipaddr s) then dns_receive s
               else (case dns_process (dg_payload dg) s of
                       None \<Rightarrow> None
                     | Some s \<Rightarrow> dns_receive s)))"

definition dns_init :: "net \<Rightarrow> net option" where
  "dns_init s =
     do {
       let (i, s) = udp_new s;
       i \<leftarrow> i;
       udp_bind i (ipv4 IPV4_ADDR_UNSPECIFIED) 3535 (s\<lparr>n_dns_sock := Some i\<rparr>)
     }"

end
