(* ===== verification/Net_Tcp.thy ===== *)
theory Net_Tcp
  imports Net_Udp
begin

text \<open>
  Connections, \<^verbatim>\<open>servers/tcpip/tcp.c\<close>. A socket that is closed has no buffers any more. A slot of the
  socket table that is reused while it is still linked in the backlog of a listening socket would
  break that list, so it is a fault here.
\<close>

definition tcp_set_pendings :: "nat \<Rightarrow> u32 \<Rightarrow> net \<Rightarrow> net" where
  "tcp_set_pendings i pendings s = upd_tcp i (\<lambda>k. k\<lparr>sk_pendings := sk_pendings k OR pendings\<rparr>) s"

definition tcp_clear_pendings :: "nat \<Rightarrow> net \<Rightarrow> u32 \<times> net" where
  "tcp_clear_pendings i s = (sk_pendings (n_tcp s i), upd_tcp i (\<lambda>k. k\<lparr>sk_pendings := 0\<rparr>) s)"

definition local_matches :: "tcp_socket \<Rightarrow> endpoint_t \<Rightarrow> bool" where
  "local_matches k ep \<longleftrightarrow>
     (ipaddr_is_unspecified (ep_addr (sk_local k)) \<or> ipaddr_equals (ep_addr (sk_local k)) (ep_addr ep)) \<and>
     ep_port (sk_local k) = ep_port ep"

definition tcp_lookup_local :: "endpoint_t \<Rightarrow> net \<Rightarrow> nat option" where
  "tcp_lookup_local ep s =
     find (\<lambda>i. local_matches (n_tcp s i) ep \<and> ipaddr_is_unspecified (ep_addr (sk_remote (n_tcp s i)))) (n_tcp_active s)"

definition tcp_lookup :: "endpoint_t \<Rightarrow> endpoint_t \<Rightarrow> net \<Rightarrow> nat option" where
  "tcp_lookup dst_ep src_ep s =
     (case find (\<lambda>i. local_matches (n_tcp s i) dst_ep \<and>
          ipaddr_equals (ep_addr (sk_remote (n_tcp s i))) (ep_addr src_ep) \<and>
          ep_port (sk_remote (n_tcp s i)) = ep_port src_ep) (n_tcp_active s) of
        Some i \<Rightarrow> Some i
      | None \<Rightarrow> tcp_lookup_local dst_ep s)"

definition tcp_new :: "net_env \<Rightarrow> net \<Rightarrow> (nat option \<times> net) option" where
  "tcp_new env s =
     (case find (\<lambda>i. \<not> sk_in_use (n_tcp s i)) [0..<TCP_SOCKETS_MAX] of
        None \<Rightarrow> Some (None, s)
      | Some i \<Rightarrow>
          do {
            ASSERT (\<not> list_ex (\<lambda>j. i \<in> set (sk_backlog_socks (n_tcp s j)) \<and> j \<noteq> i) [0..<TCP_SOCKETS_MAX]);
            Some (Some i, upd_tcp i (\<lambda>k. k\<lparr>
              sk_in_use := True, sk_state := TCP_STATE_CLOSED, sk_pendings := 0, sk_next_seqno := 0, sk_last_seqno := 0,
              sk_last_ack := 0, sk_local_winsize := of_nat TCP_RX_BUF_SIZE,
              sk_local := \<lparr>ep_addr = ipv4 0, ep_port = 0\<rparr>, sk_remote := \<lparr>ep_addr = ipv4 0, ep_port = 0\<rparr>,
              sk_rx_buf := Some [mbuf_alloc (ne_junk env)], sk_tx_buf := Some [mbuf_alloc (ne_junk env)],
              sk_retransmit_at := 0, sk_num_retransmits := 0, sk_backlog := 0, sk_listen_sock := None,
              sk_backlog_socks := []\<rparr>) s)
          })"

definition tcp_close :: "nat \<Rightarrow> net \<Rightarrow> net option" where
  "tcp_close i s =
     do {
       rx \<leftarrow> sk_rx_buf (n_tcp s i);
       tx \<leftarrow> sk_tx_buf (n_tcp s i);
       Some (upd_tcp i (\<lambda>k. k\<lparr>sk_rx_buf := None, sk_tx_buf := None, sk_in_use := False\<rparr>)
         (s\<lparr>n_tcp_active := filter (\<lambda>j. j \<noteq> i) (n_tcp_active s)\<rparr>))
     }"

text \<open>An endpoint that is taken is only reported.\<close>

definition tcp_bind :: "nat \<Rightarrow> ipaddr_t \<Rightarrow> u16 \<Rightarrow> net \<Rightarrow> net" where
  "tcp_bind i addr port s =
     (let ep = \<lparr>ep_addr = addr, ep_port = port\<rparr> in
      if tcp_lookup_local ep s \<noteq> None then s
      else upd_tcp i (\<lambda>k. k\<lparr>sk_local := ep\<rparr>) s)"

function connect_loop :: "nat \<Rightarrow> nat \<Rightarrow> ipaddr_t \<Rightarrow> u16 \<Rightarrow> net \<Rightarrow> net option" where
  "connect_loop port i dst_addr dst_port s =
     (if port < 20000 then
        let ep = \<lparr>ep_addr = ipv4 IPV4_ADDR_UNSPECIFIED, ep_port = of_nat port\<rparr> in
        if tcp_lookup_local ep s \<noteq> None then connect_loop (Suc port) i dst_addr dst_port s
        else do {
          let s = upd_tcp i (\<lambda>k. k\<lparr>sk_local := ep, sk_remote := \<lparr>ep_addr = dst_addr, ep_port = dst_port\<rparr>,
            sk_state := TCP_STATE_SYN_SENT\<rparr>) s;
          let s = tcp_set_pendings i TCP_PEND_SYN s;
          ASSERT (i \<notin> set (n_tcp_active s));
          Some (s\<lparr>n_tcp_active := n_tcp_active s @ [i]\<rparr>)
        }
      else Some s)"
  by pat_completeness auto
termination
  by (relation "measure (\<lambda>(port, _). 20000 - port)") auto

declare connect_loop.simps [simp del]

definition tcp_connect :: "nat \<Rightarrow> ipaddr_t \<Rightarrow> u16 \<Rightarrow> net \<Rightarrow> net option" where
  "tcp_connect i dst_addr dst_port s = connect_loop 1000 i dst_addr dst_port s"

text \<open>The backlog becomes a \<^verbatim>\<open>size_t\<close>.\<close>

definition tcp_listen :: "nat \<Rightarrow> int \<Rightarrow> net \<Rightarrow> net option" where
  "tcp_listen i backlog s =
     do {
       let s = upd_tcp i (\<lambda>k. k\<lparr>sk_state := TCP_STATE_LISTEN, sk_backlog := nat (backlog mod 2 ^ 64)\<rparr>) s;
       ASSERT (i \<notin> set (n_tcp_active s));
       Some (s\<lparr>n_tcp_active := n_tcp_active s @ [i]\<rparr>)
     }"

definition tcp_accept :: "nat \<Rightarrow> net \<Rightarrow> (nat option \<times> net) option" where
  "tcp_accept i s =
     (case sk_backlog_socks (n_tcp s i) of
        [] \<Rightarrow> Some (None, s)
      | accepted_sock # rest \<Rightarrow>
          if sk_state (n_tcp s accepted_sock) \<noteq> TCP_STATE_ESTABLISHED
          then do {
            ASSERT (accepted_sock \<notin> set rest);
            Some (None, upd_tcp i (\<lambda>k. k\<lparr>sk_backlog_socks := rest @ [accepted_sock]\<rparr>) s)
          }
          else Some (Some accepted_sock, upd_tcp i (\<lambda>k. k\<lparr>sk_backlog_socks := rest\<rparr>) s))"

definition tcp_write :: "net_env \<Rightarrow> nat \<Rightarrow> u8 list \<Rightarrow> net \<Rightarrow> net option" where
  "tcp_write env i data s =
     do {
       tx \<leftarrow> sk_tx_buf (n_tcp s i);
       tx \<leftarrow> mbuf_append_bytes (ne_junk env) tx data;
       Some (upd_tcp i (\<lambda>k. k\<lparr>sk_tx_buf := Some tx, sk_retransmit_at := 0\<rparr>) s)
     }"

definition tcp_read :: "nat \<Rightarrow> nat \<Rightarrow> net \<Rightarrow> (u8 list \<times> net) option" where
  "tcp_read i buf_len s =
     do {
       rx \<leftarrow> sk_rx_buf (n_tcp s i);
       (buf, rx) \<leftarrow> mbuf_read rx buf_len;
       Some (buf, upd_tcp i (\<lambda>k. k\<lparr>sk_rx_buf := Some rx, sk_local_winsize := sk_local_winsize k + of_nat (length buf)\<rparr>) s)
     }"

section \<open>Sending segments\<close>

text \<open>The payload and the control flags the state asks for, and the count of retransmissions. A
  null payload is the empty chain.\<close>

definition segment_to_send :: "net_env \<Rightarrow> nat \<Rightarrow> net \<Rightarrow> (mbuf_t \<times> u8 \<times> net) option" where
  "segment_to_send env i s =
     (let k = n_tcp s i in
      if sk_state k = TCP_STATE_ESTABLISHED \<or> sk_state k = TCP_STATE_CLOSE_WAIT then
        do {
          tx \<leftarrow> sk_tx_buf k;
          payload \<leftarrow> mbuf_peek (ne_junk env) tx (unat (sk_remote_winsize k));
          Some (payload, if mbuf_len payload > 0 then TCP_ACK OR TCP_PSH else 0,
            if sk_last_seqno k = sk_next_seqno k
            then upd_tcp i (\<lambda>k. k\<lparr>sk_num_retransmits := sk_num_retransmits k + 1\<rparr>) s else s)
        }
      else if sk_state k = TCP_STATE_SYN_RECVED then Some ([], TCP_SYN OR TCP_ACK, s)
      else Some ([], 0, s))"

text \<open>The flags that were pending.\<close>

definition pending_flags :: "u32 \<Rightarrow> u8" where
  "pending_flags flags =
     (if flags AND TCP_PEND_SYN \<noteq> 0 then TCP_SYN else 0) OR
     (if flags AND TCP_PEND_ACK \<noteq> 0 then TCP_ACK else 0) OR
     (if flags AND TCP_PEND_FIN \<noteq> 0 then TCP_FIN else 0)"

text \<open>The header with its checksum, over the payload, the header and the pseudo header.\<close>

definition segment_header :: "tcp_socket \<Rightarrow> u8 \<Rightarrow> tcp_header" where
  "segment_header k ctrl_flags =
     \<lparr>th_src_port = hton16 (ep_port (sk_local k)), th_dst_port = hton16 (ep_port (sk_remote k)),
      th_seqno = hton32 (sk_next_seqno k),
      th_ackno = (if ctrl_flags AND TCP_ACK \<noteq> 0 then hton32 (sk_last_ack k) else 0),
      th_off_and_ns = push_bit 4 5, th_flags = ctrl_flags, th_win_size = hton16 (ucast (sk_local_winsize k)),
      th_checksum = 0, th_urgent = 0\<rparr>"

definition segment_checksum :: "mbuf_t \<Rightarrow> tcp_header \<Rightarrow> u32 \<Rightarrow> u32 \<Rightarrow> u32" where
  "segment_checksum payload header remote local =
     (let total_len = TCP_HDR_LEN + mbuf_len payload;
          checksum = checksum_update_mbuf 0 payload;
          checksum = checksum_update checksum (tcp_bytes header);
          checksum = checksum_update_uint32 checksum (hton32 remote);
          checksum = checksum_update_uint32 checksum (hton32 local);
          checksum = checksum_update_uint16 checksum (hton16 (of_nat total_len)) in
      checksum_update_uint16 checksum (hton16 (ucast IPV4_PROTO_TCP)))"

definition tcp_transmit :: "net_env \<Rightarrow> nat \<Rightarrow> net \<Rightarrow> net option" where
  "tcp_transmit env i s =
     (if sk_retransmit_at (n_tcp s i) \<noteq> 0 \<and> sys_uptime s < sk_retransmit_at (n_tcp s i) then Some s
      else
        let (flags, s) = tcp_clear_pendings i s in
        do {
          (payload, ctrl_flags, s) \<leftarrow> segment_to_send env i s;
          let ctrl_flags = ctrl_flags OR pending_flags flags;
          if mbuf_len payload = 0 \<and> ctrl_flags = 0 then Some s
          else
            let k = n_tcp s i; header = segment_header k ctrl_flags; remote = ep_addr (sk_remote k) in
            case device_lookup remote s of
              None \<Rightarrow> Some s
            | Some d \<Rightarrow>
                let checksum = segment_checksum payload header (v4 remote) (v4 (dv_ipaddr (n_devices s d)));
                    header = header\<lparr>th_checksum := ucast (checksum_finish checksum)\<rparr> in
                do {
                  pkt \<leftarrow> mbuf_new (ne_junk env) (tcp_bytes header);
                  pkt \<leftarrow> (if payload \<noteq> [] then mbuf_append pkt payload else Some pkt);
                  s \<leftarrow> ipv4_transmit env (v4 remote) IPV4_PROTO_TCP pkt s;
                  retransmit_at \<leftarrow> msec_add (sys_uptime s)
                    (min TCP_RXT_MAX_TIMEOUT (TCP_RXT_INITIAL_TIMEOUT * 2 ^ min (unat (sk_num_retransmits (n_tcp s i))) 8));
                  Some (upd_tcp i (\<lambda>k. k\<lparr>sk_retransmit_at := retransmit_at, sk_last_seqno := sk_next_seqno k\<rparr>) s)
                }
        })"

section \<open>Receiving segments\<close>

definition discarded :: "net \<Rightarrow> net" where
  "discarded s = s\<lparr>n_tcp_discarded := n_tcp_discarded s + 1\<rparr>"

text \<open>A segment for a listening socket: a new socket for a client. There may be none left.\<close>

definition process_listen :: "net_env \<Rightarrow> nat \<Rightarrow> ipaddr_t \<Rightarrow> u16 \<Rightarrow> u32 \<Rightarrow> u8 \<Rightarrow> net \<Rightarrow> net option" where
  "process_listen env i src_addr src_port seq flags s =
     (if flags AND TCP_SYN = 0 then Some (discarded s)
      else if length (sk_backlog_socks (n_tcp s i)) \<ge> sk_backlog (n_tcp s i) then Some (discarded s)
      else do {
        (new_sock, s) \<leftarrow> tcp_new env s;
        new_sock \<leftarrow> new_sock;
        let s = upd_tcp new_sock (\<lambda>k. k\<lparr>sk_state := TCP_STATE_SYN_RECVED, sk_last_ack := seq + 1, sk_listen_sock := Some i,
          sk_local := sk_local (n_tcp s i), sk_remote := \<lparr>ep_addr = src_addr, ep_port = src_port\<rparr>\<rparr>) s;
        ASSERT (new_sock \<notin> set (sk_backlog_socks (n_tcp s i)));
        let s = upd_tcp i (\<lambda>k. k\<lparr>sk_backlog_socks := sk_backlog_socks k @ [new_sock]\<rparr>) s;
        ASSERT (new_sock \<notin> set (n_tcp_active s));
        let s = s\<lparr>n_tcp_active := n_tcp_active s @ [new_sock]\<rparr>;
        Some (tcp_set_pendings new_sock TCP_PEND_ACK s)
      })"

text \<open>The window the remote offers is taken from the 16-bit field with the 32-bit byte swap; in an
  established connection the segment acknowledges what was sent.\<close>

definition process_ack :: "nat \<Rightarrow> u32 \<Rightarrow> u16 \<Rightarrow> net \<Rightarrow> net option" where
  "process_ack i ack win_size s =
     (let s = upd_tcp i (\<lambda>k. k\<lparr>sk_remote_winsize := ntoh32 (ucast win_size)\<rparr>) s in
      if sk_state (n_tcp s i) = TCP_STATE_ESTABLISHED then
        let acked_len = ack - sk_next_seqno (n_tcp s i) in
        if acked_len > 0 then
          do {
            tx \<leftarrow> sk_tx_buf (n_tcp s i);
            (n, tx) \<leftarrow> mbuf_discard tx (unat acked_len);
            Some (upd_tcp i (\<lambda>k. k\<lparr>sk_tx_buf := Some tx, sk_next_seqno := sk_next_seqno k + acked_len\<rparr>) s)
          }
        else Some s
      else Some s)"

definition process_established :: "nat \<Rightarrow> u8 \<Rightarrow> mbuf_t \<Rightarrow> net \<Rightarrow> net option" where
  "process_established i flags payload s =
     (let s = (if flags AND TCP_FIN \<noteq> 0
               then upd_tcp i (\<lambda>k. k\<lparr>sk_state := TCP_STATE_CLOSE_WAIT, sk_retransmit_at := 0, sk_last_ack := sk_last_ack k + 1\<rparr>)
                      (tcp_set_pendings i TCP_PEND_ACK s)
               else s);
          payload_len = mbuf_len payload in
      if payload_len > 0 then
        let s = tcp_set_pendings i TCP_PEND_ACK s in
        if unat (sk_local_winsize (n_tcp s i)) < payload_len then Some (s\<lparr>n_tcp_dropped := n_tcp_dropped s + 1\<rparr>)
        else do {
          rx \<leftarrow> sk_rx_buf (n_tcp s i);
          rx \<leftarrow> mbuf_append rx payload;
          let s = upd_tcp i (\<lambda>k. k\<lparr>sk_rx_buf := Some rx, sk_last_ack := sk_last_ack k + of_nat (mbuf_len payload),
            sk_local_winsize := sk_local_winsize k - of_nat payload_len\<rparr>) s;
          sys_process_event (TCP_RECEIVED i) s
        }
      else Some s)"

definition process_state :: "nat \<Rightarrow> u32 \<Rightarrow> u32 \<Rightarrow> u8 \<Rightarrow> mbuf_t \<Rightarrow> net \<Rightarrow> net option" where
  "process_state i seq ack flags payload s =
     (case sk_state (n_tcp s i) of
        TCP_STATE_SYN_SENT \<Rightarrow>
          if flags AND (TCP_SYN OR TCP_ACK) = 0 then Some (discarded s)
          else Some (upd_tcp i (\<lambda>k. k\<lparr>sk_next_seqno := ack, sk_last_ack := seq + 1, sk_state := TCP_STATE_ESTABLISHED,
            sk_retransmit_at := 0\<rparr>) s)
      | TCP_STATE_SYN_RECVED \<Rightarrow>
          if flags AND TCP_ACK = 0 then Some (discarded s)
          else
            let s = upd_tcp i (\<lambda>k. k\<lparr>sk_next_seqno := ack, sk_last_ack := seq, sk_state := TCP_STATE_ESTABLISHED,
              sk_retransmit_at := 0\<rparr>) s in
            sys_process_event (TCP_NEW_CLIENT (sk_listen_sock (n_tcp s i))) s
      | TCP_STATE_ESTABLISHED \<Rightarrow> process_established i flags payload s
      | TCP_STATE_LAST_ACK \<Rightarrow>
          if flags AND TCP_ACK = 0 then Some (discarded s)
          else Some (upd_tcp i (\<lambda>k. k\<lparr>sk_state := TCP_STATE_CLOSED\<rparr>) s)
      | _ \<Rightarrow> Some s)"

definition tcp_process :: "net_env \<Rightarrow> nat \<Rightarrow> ipaddr_t \<Rightarrow> u16 \<Rightarrow> tcp_header \<Rightarrow> mbuf_t \<Rightarrow> net \<Rightarrow> net option" where
  "tcp_process env i src_addr src_port header payload s =
     (let seq = ntoh32 (th_seqno header); ack = ntoh32 (th_ackno header); flags = th_flags header in
      if sk_state (n_tcp s i) = TCP_STATE_LISTEN then process_listen env i src_addr src_port seq flags s
      else if sk_state (n_tcp s i) \<noteq> TCP_STATE_SYN_SENT \<and> seq \<noteq> sk_last_ack (n_tcp s i) then Some (discarded s)
      else do {
        s \<leftarrow> process_ack i ack (th_win_size header) s;
        s \<leftarrow> process_state i seq ack flags payload s;
        if sk_state (n_tcp s i) = TCP_STATE_CLOSE_WAIT then
          do {
            tx \<leftarrow> sk_tx_buf (n_tcp s i);
            Some (if mbuf_len tx = 0
              then upd_tcp i (\<lambda>k. k\<lparr>sk_state := TCP_STATE_LAST_ACK\<rparr>) (tcp_set_pendings i TCP_PEND_FIN s) else s)
          }
        else Some s
      })"

definition tcp_receive :: "net_env \<Rightarrow> ipaddr_t \<Rightarrow> ipaddr_t \<Rightarrow> mbuf_t \<Rightarrow> net \<Rightarrow> net option" where
  "tcp_receive env dst src pkt s =
     do {
       (b, pkt) \<leftarrow> mbuf_read pkt TCP_HDR_LEN;
       if length b \<noteq> TCP_HDR_LEN then Some s
       else do {
         let header = tcp_of b;
         let off = unat (drop_bit 4 (th_off_and_ns header)) * 4;
         pkt \<leftarrow> (if off > TCP_HDR_LEN then map_option snd (mbuf_discard pkt (off - TCP_HDR_LEN)) else Some pkt);
         let dst_ep = \<lparr>ep_addr = dst, ep_port = ntoh16 (th_dst_port header)\<rparr>;
         let src_ep = \<lparr>ep_addr = src, ep_port = ntoh16 (th_src_port header)\<rparr>;
         case tcp_lookup dst_ep src_ep s of
           None \<Rightarrow> Some s
         | Some i \<Rightarrow> tcp_process env i src (ntoh16 (th_src_port header)) header pkt s
       }
     }"

section \<open>The timer\<close>

fun transmit_all :: "net_env \<Rightarrow> nat list \<Rightarrow> net \<Rightarrow> net option" where
  "transmit_all env [] s = Some s"
| "transmit_all env (i # rest) s =
     do {
       s \<leftarrow> tcp_transmit env i s;
       transmit_all env rest s
     }"

fun flush_loop :: "net_env \<Rightarrow> nat list \<Rightarrow> net \<Rightarrow> net option" where
  "flush_loop env [] s = Some s"
| "flush_loop env (i # rest) s =
     do {
       s \<leftarrow> tcp_transmit env i s;
       s \<leftarrow> transmit_all env (sk_backlog_socks (n_tcp s i)) s;
       flush_loop env rest s
     }"

definition tcp_flush :: "net_env \<Rightarrow> net \<Rightarrow> net option" where
  "tcp_flush env s = flush_loop env (n_tcp_active s) s"

definition tcp_init :: "net \<Rightarrow> net" where
  "tcp_init s =
     s\<lparr>n_tcp_active := [],
       n_tcp := (\<lambda>i. if i < TCP_SOCKETS_MAX then (n_tcp s i)\<lparr>sk_in_use := False\<rparr> else n_tcp s i)\<rparr>"

end
