(* ===== verification/Net_Server.thy ===== *)
theory Net_Server
  imports Net_Tcp
begin

text \<open>
  The incoming path of the network server, \<^verbatim>\<open>ipv4.c\<close> and \<^verbatim>\<open>ethernet.c\<close>, and its message loop,
  \<^verbatim>\<open>main.c\<close>. One turn of the loop is \<open>handle_net_message\<close>; what the kernel and other tasks answer
  and what fresh memory holds is given anew for every turn.
\<close>

section \<open>Receiving frames\<close>

definition is_our_ipaddr :: "nat \<Rightarrow> u32 \<Rightarrow> net \<Rightarrow> bool" where
  "is_our_ipaddr d ipaddr s \<longleftrightarrow>
     ipaddr = IPV4_ADDR_BROADCAST \<or>
     ip_type (dv_ipaddr (n_devices s d)) = IP_TYPE_V4 \<and> ipaddr = v4 (dv_ipaddr (n_devices s d))"

definition ipv4_receive :: "net_env \<Rightarrow> nat \<Rightarrow> mbuf_t \<Rightarrow> net \<Rightarrow> net option" where
  "ipv4_receive env d pkt s =
     do {
       (b, pkt) \<leftarrow> mbuf_read pkt IPV4_HDR_LEN;
       if length b < IPV4_HDR_LEN then Some s
       else do {
         let header = ipv4_of b;
         let header_len = unat (ip_ver_ihl header AND 0x0f) * 4;
         pkt \<leftarrow> (if header_len > IPV4_HDR_LEN then map_option snd (mbuf_discard pkt (header_len - IPV4_HDR_LEN)) else Some pkt);
         let dst = ntoh32 (ip_dst_addr header);
         let src = ntoh32 (ip_src_addr header);
         if \<not> is_our_ipaddr d dst s then Some s
         else if unat (ntoh16 (ip_len header)) < header_len then Some s
         else
           let payload_len = unat (ntoh16 (ip_len header)) - header_len; pkt = mbuf_truncate pkt payload_len in
           if mbuf_len pkt \<noteq> payload_len then Some s
           else if ip_proto header = IPV4_PROTO_UDP then udp_receive d (ipv4 src) pkt s
           else if ip_proto header = IPV4_PROTO_TCP then tcp_receive env (ipv4 dst) (ipv4 src) pkt s
           else if ip_proto header = IPV4_PROTO_ICMP then icmp_receive (ipv4 dst) (ipv4 src) pkt s
           else Some s
       }
     }"

definition ethernet_receive :: "net_env \<Rightarrow> nat \<Rightarrow> u8 list \<Rightarrow> net \<Rightarrow> net option" where
  "ethernet_receive env d pkt s =
     do {
       m \<leftarrow> mbuf_new (ne_junk env) pkt;
       (b, m) \<leftarrow> mbuf_read m ETH_HDR_LEN;
       if length b \<noteq> ETH_HDR_LEN then Some s
       else
         let type = ntoh16 (eth_type (ethernet_of b)) in
         if type = ETHER_TYPE_ARP then arp_receive env d m s
         else if type = ETHER_TYPE_IPV4 then ipv4_receive env d m s
         else Some s
     }"

section \<open>Drivers\<close>

definition get_driver_by_tid :: "task_t \<Rightarrow> net \<Rightarrow> driver option" where
  "get_driver_by_tid tid s = find (\<lambda>dr. dr_tid dr = tid) (n_drivers s)"

text \<open>The loop over the drivers of \<open>deferred_work\<close>, by their position.\<close>

fun dhcp_retries :: "net_env \<Rightarrow> nat list \<Rightarrow> net \<Rightarrow> net option" where
  "dhcp_retries env [] s = Some s"
| "dhcp_retries env (k # rest) s =
     (let dr = n_drivers s ! k; v = n_devices s (dr_device dr) in
      if dv_dhcp_enabled v \<and> \<not> dv_dhcp_leased v \<and> dr_dhcp_discover_retires dr < 3 then
        do {
          deadline \<leftarrow> msec_add (dr_last_dhcp_discover dr) 200;
          if deadline < sys_uptime s then
            do {
              s \<leftarrow> dhcp_transmit env (dr_device dr) DHCP_TYPE_DISCOVER IPV4_ADDR_UNSPECIFIED s;
              dhcp_retries env rest (s\<lparr>n_drivers := (n_drivers s)[k := dr\<lparr>dr_last_dhcp_discover := sys_uptime s,
                dr_dhcp_discover_retires := dr_dhcp_discover_retires dr + 1\<rparr>]\<rparr>)
            }
          else dhcp_retries env rest s
        }
      else dhcp_retries env rest s)"

definition deferred_work :: "net_env \<Rightarrow> net \<Rightarrow> net option" where
  "deferred_work env s =
     do {
       s \<leftarrow> tcp_flush env s;
       dhcp_retries env [0..<length (n_drivers s)] s
     }"

definition register_device :: "net_env \<Rightarrow> task_t \<Rightarrow> u8 list \<Rightarrow> net \<Rightarrow> net option" where
  "register_device env driver_task macaddr s =
     (if n_next_driver_id s > 9 then Some s
      else do {
        let s = s\<lparr>n_next_driver_id := n_next_driver_id s + 1\<rparr>;
        let name = [0x6e, 0x65, 0x74, 0x30 + of_nat (n_next_driver_id s), 0];
        (d, s) \<leftarrow> device_new name (length (n_drivers s)) s;
        case d of
          None \<Rightarrow> Some s
        | Some d \<Rightarrow>
            device_enable_dhcp env d
              (device_set_macaddr d macaddr
                (s\<lparr>n_drivers := n_drivers s @ [\<lparr>dr_tid = driver_task, dr_device = d,
                  dr_last_dhcp_discover = sys_uptime s, dr_dhcp_discover_retires = 0\<rparr>]\<rparr>))
      })"

section \<open>Messages\<close>

definition TIMER_INTERVAL :: int where [kconst]: "TIMER_INTERVAL = 200"
definition NOTIFY_TIMER :: u8 where [kconst]: "NOTIFY_TIMER = 1"
definition NOTIFY_ASYNC :: u8 where [kconst]: "NOTIFY_ASYNC = 8"
definition VM_TASK :: task_t where [kconst]: "VM_TASK = 1"

definition timer_set :: "net_env \<Rightarrow> int \<Rightarrow> net \<Rightarrow> net option" where
  "timer_set env timeout s =
     (let s = net_call (Timer_set timeout) s in
      do {
        ASSERT (ne_err env (n_calls s) = OK);
        Some s
      })"

definition free_handle :: "client option \<Rightarrow> net \<Rightarrow> net option" where
  "free_handle c s =
     do {
       c \<leftarrow> c;
       tcp_close (cl_sock c) s
     }"

definition timer_tick :: "net_env \<Rightarrow> net \<Rightarrow> net option" where
  "timer_tick env s =
     do {
       s \<leftarrow> timer_set env TIMER_INTERVAL s;
       uptime \<leftarrow> msec_add (n_uptime s) TIMER_INTERVAL;
       Some (s\<lparr>n_uptime := uptime\<rparr>)
     }"

definition task_exited :: "task_t \<Rightarrow> net \<Rightarrow> net option" where
  "task_exited task s =
     do {
       (hs, s) \<leftarrow> handle_free_all task (\<lambda>c s. s \<bind> free_handle c) (n_handles s, Some s);
       s \<leftarrow> s;
       Some (s\<lparr>n_handles := hs\<rparr>)
     }"

definition async_notified :: "net_env \<Rightarrow> net \<Rightarrow> net option" where
  "async_notified env s =
     (let s = net_call (Async_recv VM_TASK) s in
      case ne_recv env (n_calls s) of
        TASK_EXITED_MSG task \<Rightarrow> task_exited task s
      | _ \<Rightarrow> Some s)"

definition handle_notifications :: "net_env \<Rightarrow> u8 \<Rightarrow> net \<Rightarrow> net option" where
  "handle_notifications env data s =
     do {
       s \<leftarrow> (if data AND NOTIFY_TIMER \<noteq> 0 then timer_tick env s else Some s);
       if data AND NOTIFY_ASYNC \<noteq> 0 then async_notified env s else Some s
     }"

text \<open>A new client object for a socket: its handle is what the client names the socket by.\<close>

definition new_client :: "task_t \<Rightarrow> nat \<Rightarrow> net \<Rightarrow> (int \<times> net) option" where
  "new_client src sock s =
     do {
       (handle, hs) \<leftarrow> handle_alloc src (n_handles s);
       let c = \<lparr>cl_task = src, cl_handle = handle, cl_sock = sock\<rparr>;
       hs \<leftarrow> handle_set src handle (Some c) hs;
       Some (handle, upd_tcp sock (\<lambda>k. k\<lparr>sk_client := Some c\<rparr>) (s\<lparr>n_handles := hs\<rparr>))
     }"

definition handle_connect :: "net_env \<Rightarrow> task_t \<Rightarrow> u32 \<Rightarrow> u16 \<Rightarrow> net \<Rightarrow> net option" where
  "handle_connect env src dst_addr dst_port s =
     do {
       (sock, s) \<leftarrow> tcp_new env s;
       sock \<leftarrow> sock;
       s \<leftarrow> tcp_connect sock (ipv4 dst_addr) dst_port s;
       (handle, s) \<leftarrow> new_client src sock s;
       Some (net_call (Ipc_send_noblock src (TCPIP_CONNECT_REPLY_MSG handle)) s)
     }"

definition handle_listen :: "net_env \<Rightarrow> task_t \<Rightarrow> u16 \<Rightarrow> int \<Rightarrow> net \<Rightarrow> net option" where
  "handle_listen env src port backlog s =
     do {
       (sock, s) \<leftarrow> tcp_new env s;
       sock \<leftarrow> sock;
       let s = tcp_bind sock (ipv4 IPV4_ADDR_UNSPECIFIED) port s;
       s \<leftarrow> tcp_listen sock backlog s;
       (handle, s) \<leftarrow> new_client src sock s;
       Some (net_call (Ipc_send_noblock src (TCPIP_LISTEN_REPLY_MSG handle)) s)
     }"

definition handle_accept :: "task_t \<Rightarrow> int \<Rightarrow> net \<Rightarrow> net option" where
  "handle_accept src handle s =
     do {
       c \<leftarrow> handle_get src handle (n_handles s);
       case c of
         None \<Rightarrow> Some (net_call (Ipc_send_err src ERR_INVALID_ARG) s)
       | Some c \<Rightarrow>
           do {
             (new_sock, s) \<leftarrow> tcp_accept (cl_sock c) s;
             case new_sock of
               None \<Rightarrow> Some (net_call (Ipc_send_err src ERR_NOT_FOUND) s)
             | Some new_sock \<Rightarrow>
                 do {
                   (new_handle, s) \<leftarrow> new_client src new_sock s;
                   Some (net_call (Ipc_reply src (TCPIP_ACCEPT_REPLY_MSG new_handle)) s)
                 }
           }
     }"

definition handle_read :: "task_t \<Rightarrow> int \<Rightarrow> nat \<Rightarrow> net \<Rightarrow> net option" where
  "handle_read src handle len s =
     do {
       c \<leftarrow> handle_get src handle (n_handles s);
       case c of
         None \<Rightarrow> Some (net_call (Ipc_send_err src ERR_INVALID_ARG) s)
       | Some c \<Rightarrow>
           do {
             (data, s) \<leftarrow> tcp_read (cl_sock c) (min 4096 len) s;
             Some (net_call (Ipc_reply src (TCPIP_READ_REPLY_MSG data)) s)
           }
     }"

definition handle_write :: "net_env \<Rightarrow> task_t \<Rightarrow> int \<Rightarrow> u8 list \<Rightarrow> net \<Rightarrow> net option" where
  "handle_write env src handle data s =
     do {
       c \<leftarrow> handle_get src handle (n_handles s);
       case c of
         None \<Rightarrow> Some (net_call (Ipc_send_err src ERR_INVALID_ARG) s)
       | Some c \<Rightarrow>
           do {
             s \<leftarrow> tcp_write env (cl_sock c) data s;
             Some (net_call (Ipc_send_err src OK) s)
           }
     }"

text \<open>Closing leaves the handle in place and sends no reply.\<close>

definition handle_close :: "task_t \<Rightarrow> int \<Rightarrow> net \<Rightarrow> net option" where
  "handle_close src handle s =
     do {
       c \<leftarrow> handle_get src handle (n_handles s);
       case c of
         None \<Rightarrow> Some (net_call (Ipc_send_err src ERR_INVALID_ARG) s)
       | Some c \<Rightarrow> tcp_close (cl_sock c) s
     }"

definition handle_dns_resolve :: "net_env \<Rightarrow> task_t \<Rightarrow> cbuf \<Rightarrow> net \<Rightarrow> net option" where
  "handle_dns_resolve env src hostname s =
     do {
       let qid = n_next_dns_query_id s;
       let s = s\<lparr>n_next_dns_query_id := qid + 1, n_dns_requests := n_dns_requests s @ [\<lparr>dq_id = qid, dq_task = src\<rparr>]\<rparr>;
       (err, s) \<leftarrow> dns_query env qid hostname s;
       Some s
     }"

definition handle_net_rx :: "net_env \<Rightarrow> task_t \<Rightarrow> u8 list \<Rightarrow> net \<Rightarrow> net option" where
  "handle_net_rx env src payload s =
     (case get_driver_by_tid src s of
        None \<Rightarrow> Some s
      | Some dr \<Rightarrow>
          do {
            s \<leftarrow> ethernet_receive env (dr_device dr) payload s;
            s \<leftarrow> dhcp_receive env s;
            dns_receive s
          })"

definition net_dispatch :: "net_env \<Rightarrow> task_t \<Rightarrow> net_msg \<Rightarrow> net \<Rightarrow> net option" where
  "net_dispatch env src m s =
     (case m of
        NOTIFICATIONS_MSG data \<Rightarrow> handle_notifications env data s
      | ASYNC_MSG \<Rightarrow> Some (net_call (Async_reply src) s)
      | TCPIP_CONNECT_MSG dst_addr dst_port \<Rightarrow> handle_connect env src dst_addr dst_port s
      | TCPIP_LISTEN_MSG port backlog \<Rightarrow> handle_listen env src port backlog s
      | TCPIP_ACCEPT_MSG handle \<Rightarrow> handle_accept src handle s
      | TCPIP_READ_MSG handle len \<Rightarrow> handle_read src handle len s
      | TCPIP_WRITE_MSG handle data \<Rightarrow> handle_write env src handle data s
      | TCPIP_CLOSE_MSG handle \<Rightarrow> handle_close src handle s
      | TCPIP_REGISTER_DEVICE_MSG macaddr \<Rightarrow>
          do {
            s \<leftarrow> register_device env src macaddr s;
            Some (net_call (Ipc_reply src TCPIP_REGISTER_DEVICE_REPLY_MSG) s)
          }
      | TCPIP_DNS_RESOLVE_MSG hostname \<Rightarrow> handle_dns_resolve env src hostname s
      | NET_RX_MSG payload \<Rightarrow> handle_net_rx env src payload s
      | _ \<Rightarrow> Some s)"

definition handle_net_message :: "net_env \<Rightarrow> task_t \<Rightarrow> net_msg \<Rightarrow> net \<Rightarrow> net option" where
  "handle_net_message env src m s =
     do {
       s \<leftarrow> net_dispatch env src m s;
       deferred_work env s
     }"

definition net_main_init :: "net_env \<Rightarrow> net \<Rightarrow> net option" where
  "net_main_init env s =
     do {
       let s = s\<lparr>n_drivers := [], n_dns_requests := []\<rparr>;
       let s = udp_init (tcp_init (device_init s));
       s \<leftarrow> dhcp_init s;
       s \<leftarrow> dns_init s;
       s \<leftarrow> timer_set env TIMER_INTERVAL s;
       let s = net_call Ipc_serve s;
       ASSERT (ne_err env (n_calls s) = OK);
       Some s
     }"

text \<open>The states of the server: after start-up, and after every turn of the loop for a message
  from any task.\<close>

inductive net_reachable :: "net \<Rightarrow> net \<Rightarrow> bool" for s0 :: net where
  start: "net_main_init env s0 = Some s \<Longrightarrow> net_reachable s0 s"
| turn: "net_reachable s0 s \<Longrightarrow> handle_net_message env src m s = Some s' \<Longrightarrow> net_reachable s0 s'"

inductive_cases net_reachableE: "net_reachable s0 s"

end
