(* ===== verification/Net_Inv.thy ===== *)
theory Net_Inv
  imports Net_Server
begin

text \<open>
  The invariant of the connections of the network server and its preservation by every message.
  The outgoing path, datagrams and their users leave connections alone (\<open>same_tcp\<close>), which is
  proved once for each of their operations; what remains are the operations of \<^verbatim>\<open>tcp.c\<close> and the
  handlers of \<^verbatim>\<open>main.c\<close>.
\<close>

section \<open>Operations that leave connections alone\<close>

definition same_tcp :: "net \<Rightarrow> net \<Rightarrow> bool" where
  "same_tcp s s' \<longleftrightarrow>
     n_tcp s' = n_tcp s \<and> n_tcp_active s' = n_tcp_active s \<and> n_handles s' = n_handles s \<and> n_uptime s' = n_uptime s \<and>
     n_drivers s' = n_drivers s"

lemma same_tcp_refl [simp]: "same_tcp s s"
  by (simp add: same_tcp_def)

lemma same_tcp_trans: "same_tcp s s' \<Longrightarrow> same_tcp s' s'' \<Longrightarrow> same_tcp s s''"
  by (simp add: same_tcp_def)

lemma same_tcp_upd [simp]:
  "same_tcp s (net_call c s)" "same_tcp s (upd_dev d f s)" "same_tcp s (upd_udp i g s)" "same_tcp s (set_arp d arp s)"
  "same_tcp s (s\<lparr>n_dns_server_ipaddr := a\<rparr>)"
  by (simp_all add: same_tcp_def set_arp_def)

named_theorems same_tcp \<open>operations that leave connections alone\<close>

lemma same_tcp_step: "same_tcp s' s'' \<Longrightarrow> same_tcp s s' \<Longrightarrow> same_tcp s s''"
  by (rule same_tcp_trans)

lemma ip_type_V4 [simp]: "t = IP_TYPE_V4"
  by (cases t) simp

lemma transmit_same_tcp [same_tcp]: "transmit d pkt s = Some s' \<Longrightarrow> same_tcp s s'"
  by (auto simp: transmit_def Let_def bind_Some_eq split: if_splits)

lemma arp_resolve_same_tcp [same_tcp]: "arp_resolve d a s = Some (r, s') \<Longrightarrow> same_tcp s s'"
  by (auto simp: arp_resolve_def Let_def split: if_splits option.splits)

lemma arp_enqueue_same_tcp [same_tcp]: "arp_enqueue d ty dst payload s = Some s' \<Longrightarrow> same_tcp s s'"
  by (auto simp: arp_enqueue_def Let_def bind_Some_eq split: if_splits option.splits)

lemma link_same_tcp:
  "ethernet_transmit env d ty dst payload s = Some s' \<Longrightarrow> same_tcp s s'"
  "arp_request env d a s = Some s' \<Longrightarrow> same_tcp s s'"
  "arp_transmit env d opc ta t s = Some s' \<Longrightarrow> same_tcp s s'"
proof (induction env d ty dst payload s and env d a s and env d opc ta t s arbitrary: s' and s' and s'
    rule: ethernet_transmit_arp_request_arp_transmit.induct)
  case (1 env d ty dst payload s)
  define r where "r = (if v4 dst \<noteq> IPV4_ADDR_BROADCAST \<and> device_dst_is_gateway d dst s
    then v4 (dv_gateway (n_devices s d)) else v4 dst)"
  from "1.prems" obtain mac s1 where 1: "arp_resolve d r s = Some (mac, s1)"
    by (subst (asm) ethernet_transmit.simps) (auto simp: r_def Let_def bind_Some_eq split: if_splits)
  note f = arp_resolve_same_tcp [OF 1]
  show ?case
  proof (cases mac)
    case None
    with "1.prems" 1 obtain s2 where 2: "arp_enqueue d ty r payload s1 = Some s2" "arp_request env d r s2 = Some s'"
      by (subst (asm) ethernet_transmit.simps) (auto simp: r_def [symmetric] Let_def bind_Some_eq split: if_splits)
    have "same_tcp s2 s'" using "1.IH" [OF r_def _ 1] None 2 by auto
    with f arp_enqueue_same_tcp [OF 2(1)] show ?thesis by (blast intro: same_tcp_trans)
  next
    case (Some m)
    with "1.prems" 1 obtain pkt where "transmit d pkt s1 = Some s'"
      by (subst (asm) ethernet_transmit.simps) (auto simp: r_def [symmetric] Let_def bind_Some_eq split: if_splits)
    with f transmit_same_tcp show ?thesis by (blast intro: same_tcp_trans)
  qed
next
  case (2 env d a s)
  then show ?case by (simp add: arp_request.simps)
next
  case (3 env d opc ta t s)
  then show ?case by (auto simp: arp_transmit.simps Let_def bind_Some_eq split: if_splits)
qed

lemmas ethernet_transmit_same_tcp [same_tcp] = link_same_tcp(1)
lemmas arp_transmit_same_tcp [same_tcp] = link_same_tcp(3)

lemma flush_queue_same_tcp [same_tcp]: "flush_queue env d e q s = Some s' \<Longrightarrow> same_tcp s s'"
proof (induction q arbitrary: s)
  case (Cons qe q)
  then obtain s1 where "ethernet_transmit env d (aq_type qe) (ipv4 (aq_dst qe)) (aq_payload qe) s = Some s1"
    "flush_queue env d e q (set_arp d ((arp_of_dev d s1)(e := (arp_of_dev d s1 e)\<lparr>ae_queue := q\<rparr>)) s1) = Some s'"
    by (auto simp: bind_Some_eq split: if_splits)
  then show ?case
    using Cons.IH ethernet_transmit_same_tcp same_tcp_upd(4) by (blast intro: same_tcp_trans)
qed simp

lemma arp_register_macaddr_same_tcp [same_tcp]: "arp_register_macaddr env d a mac s = Some s' \<Longrightarrow> same_tcp s s'"
  by (auto simp: arp_register_macaddr_def Let_def bind_Some_eq dest!: flush_queue_same_tcp
      intro: same_tcp_trans [OF same_tcp_upd(4)])

lemma arp_receive_same_tcp [same_tcp]: "arp_receive env d pkt s = Some s' \<Longrightarrow> same_tcp s s'"
  by (auto simp: arp_receive_def Let_def bind_Some_eq split: if_splits
      dest: arp_register_macaddr_same_tcp arp_transmit_same_tcp)

lemma ipv4_transmit_same_tcp [same_tcp]: "ipv4_transmit env dst proto payload s = Some s' \<Longrightarrow> same_tcp s s'"
  by (auto simp: ipv4_transmit_def Let_def bind_Some_eq split: option.splits dest: ethernet_transmit_same_tcp)

lemma icmp_receive_same_tcp [same_tcp]: "icmp_receive dst src pkt s = Some s' \<Longrightarrow> same_tcp s s'"
  by (auto simp: icmp_receive_def bind_Some_eq)

lemma udp_receive_same_tcp [same_tcp]: "udp_receive d src pkt s = Some s' \<Longrightarrow> same_tcp s s'"
  by (auto simp: udp_receive_def Let_def bind_Some_eq split: if_splits option.splits)

lemma udp_recv_mbuf_same_tcp [same_tcp]: "udp_recv_mbuf i s = (r, s') \<Longrightarrow> same_tcp s s'"
  by (auto simp: udp_recv_mbuf_def split: list.splits)

lemma udp_transmit_same_tcp [same_tcp]: "udp_transmit env i s = Some s' \<Longrightarrow> same_tcp s s'"
  by (auto simp: udp_transmit_def Let_def bind_Some_eq split: list.splits option.splits
      dest!: ipv4_transmit_same_tcp intro: same_tcp_trans [OF same_tcp_upd(3)])

lemma dhcp_transmit_same_tcp [same_tcp]: "dhcp_transmit env d ty a s = Some s' \<Longrightarrow> same_tcp s s'"
  by (auto simp: dhcp_transmit_def Let_def bind_Some_eq udp_sendto_mbuf_def
      dest!: udp_transmit_same_tcp intro: same_tcp_trans [OF same_tcp_upd(3)])

lemma dhcp_process_same_tcp [same_tcp]: "dhcp_process env d payload s = Some s' \<Longrightarrow> same_tcp s s'"
  by (auto simp: dhcp_process_def Let_def bind_Some_eq dns_set_name_server_def device_set_ip_addrs_def same_tcp_def
      split: if_splits option.splits dest!: dhcp_transmit_same_tcp)

lemma dhcp_receive_same_tcp [same_tcp]: "dhcp_receive env s = Some s' \<Longrightarrow> same_tcp s s'"
proof (erule dhcp_receive.raw_induct [where P = "\<lambda>env s s'. same_tcp s s'", rotated])
  fix rec env s s'
  assume IH: "\<And>env s y. rec env s = Some y \<Longrightarrow> same_tcp s y"
    and "(case n_dhcp_sock s of None \<Rightarrow> None
      | Some udp_sock \<Rightarrow> (case udp_recv_mbuf udp_sock s of (None, s) \<Rightarrow> Some s
          | (Some dg, s) \<Rightarrow> (case dg_device dg of None \<Rightarrow> None
              | Some d \<Rightarrow> (case dhcp_process env d (dg_payload dg) s of None \<Rightarrow> None | Some s \<Rightarrow> rec env s)))) = Some s'"
  then show "same_tcp s s'"
    by (auto split: option.splits prod.splits dest!: udp_recv_mbuf_same_tcp dhcp_process_same_tcp IH)
      (blast intro: same_tcp_trans)+
qed

lemma device_enable_dhcp_same_tcp [same_tcp]: "device_enable_dhcp env d s = Some s' \<Longrightarrow> same_tcp s s'"
  by (auto simp: device_enable_dhcp_def dest!: dhcp_transmit_same_tcp intro: same_tcp_trans [OF same_tcp_upd(2)])

lemma sys_process_event_same_tcp [same_tcp]: "sys_process_event e s = Some s' \<Longrightarrow> same_tcp s s'"
  by (auto simp: sys_process_event_def bind_Some_eq same_tcp_def split: event.splits option.splits)

lemma dns_answers_same_tcp [same_tcp]: "dns_answers n qid payload s = Some s' \<Longrightarrow> same_tcp s s'"
  by (induction n arbitrary: payload s)
    (auto simp: bind_Some_eq split: if_splits dest!: sys_process_event_same_tcp, blast intro: same_tcp_trans)

lemma dns_process_same_tcp [same_tcp]: "dns_process payload s = Some s' \<Longrightarrow> same_tcp s s'"
  by (auto simp: dns_process_def bind_Some_eq split: if_splits option.splits dest: dns_answers_same_tcp)

lemma dns_receive_same_tcp [same_tcp]: "dns_receive s = Some s' \<Longrightarrow> same_tcp s s'"
proof (erule dns_receive.raw_induct [where P = "\<lambda>s s'. same_tcp s s'", rotated])
  fix rec s s'
  assume IH: "\<And>s y. rec s = Some y \<Longrightarrow> same_tcp s y"
    and "(case n_dns_sock s of None \<Rightarrow> None
      | Some udp_sock \<Rightarrow> (case udp_recv_mbuf udp_sock s of (None, s) \<Rightarrow> Some s
          | (Some dg, s) \<Rightarrow> if \<not> ipaddr_equals (dg_addr dg) (n_dns_server_ipaddr s) then rec s
              else (case dns_process (dg_payload dg) s of None \<Rightarrow> None | Some s \<Rightarrow> rec s))) = Some s'"
  then show "same_tcp s s'"
    by (auto split: option.splits prod.splits if_splits dest!: udp_recv_mbuf_same_tcp dns_process_same_tcp IH)
      (blast intro: same_tcp_trans)+
qed

lemma dns_query_same_tcp [same_tcp]: "dns_query env qid hostname s = Some (err, s') \<Longrightarrow> same_tcp s s'"
  by (auto simp: dns_query_def Let_def bind_Some_eq udp_sendto_mbuf_def split: option.splits
      dest!: udp_transmit_same_tcp intro: same_tcp_trans [OF same_tcp_upd(3)])

section \<open>Connections\<close>

text \<open>The states a connection can be in: the states of an active close are never entered.\<close>

definition used_states :: "tcp_state list" where
  "used_states = [TCP_STATE_LISTEN, TCP_STATE_SYN_SENT, TCP_STATE_SYN_RECVED, TCP_STATE_ESTABLISHED,
     TCP_STATE_CLOSE_WAIT, TCP_STATE_LAST_ACK, TCP_STATE_CLOSED]"

text \<open>A socket in use has both buffers, and the window it offers is the room left for the data
  that waits to be read. A closed one has no buffers.\<close>

definition sock_ok :: "tcp_socket \<Rightarrow> bool" where
  "sock_ok k \<longleftrightarrow>
     (if sk_in_use k
      then sk_state k \<in> set used_states \<and>
        (\<exists>rx tx. sk_rx_buf k = Some rx \<and> sk_tx_buf k = Some tx \<and> chain_ok rx \<and> chain_ok tx \<and>
           unat (sk_local_winsize k) + length (bytes rx) = TCP_RX_BUF_SIZE)
      else sk_rx_buf k = None \<and> sk_tx_buf k = None)"

definition tinv :: "net \<Rightarrow> bool" where
  "tinv s \<longleftrightarrow>
     (\<forall>i. sock_ok (n_tcp s i)) \<and> distinct (n_tcp_active s) \<and>
     (\<forall>i \<in> set (n_tcp_active s). i < TCP_SOCKETS_MAX \<and> sk_in_use (n_tcp s i))"

lemma tinv_same_tcp: "tinv s \<Longrightarrow> same_tcp s s' \<Longrightarrow> tinv s'"
  by (simp add: tinv_def same_tcp_def)

lemma sock_ok_simps [simp]:
  "sock_ok (k\<lparr>sk_pendings := a\<rparr>) = sock_ok k" "sock_ok (k\<lparr>sk_next_seqno := b\<rparr>) = sock_ok k"
  "sock_ok (k\<lparr>sk_last_seqno := b\<rparr>) = sock_ok k" "sock_ok (k\<lparr>sk_last_ack := b\<rparr>) = sock_ok k"
  "sock_ok (k\<lparr>sk_remote_winsize := b\<rparr>) = sock_ok k" "sock_ok (k\<lparr>sk_local := c\<rparr>) = sock_ok k"
  "sock_ok (k\<lparr>sk_remote := c\<rparr>) = sock_ok k" "sock_ok (k\<lparr>sk_backlog := d\<rparr>) = sock_ok k"
  "sock_ok (k\<lparr>sk_num_retransmits := b\<rparr>) = sock_ok k" "sock_ok (k\<lparr>sk_retransmit_at := e\<rparr>) = sock_ok k"
  "sock_ok (k\<lparr>sk_listen_sock := f\<rparr>) = sock_ok k" "sock_ok (k\<lparr>sk_backlog_socks := g\<rparr>) = sock_ok k"
  "sock_ok (k\<lparr>sk_client := h\<rparr>) = sock_ok k"
  by (simp_all add: sock_ok_def)

lemma sock_ok_state [simp]: "st \<in> set used_states \<Longrightarrow> sock_ok k \<Longrightarrow> sock_ok (k\<lparr>sk_state := st\<rparr>)"
  by (auto simp: sock_ok_def split: if_splits)

lemma sock_ok_closed [simp]: "sock_ok (k\<lparr>sk_rx_buf := None, sk_tx_buf := None, sk_in_use := False\<rparr>)"
  by (simp add: sock_ok_def)

lemma used_states_mem [simp]:
  "TCP_STATE_LISTEN \<in> set used_states" "TCP_STATE_SYN_SENT \<in> set used_states" "TCP_STATE_SYN_RECVED \<in> set used_states"
  "TCP_STATE_ESTABLISHED \<in> set used_states" "TCP_STATE_CLOSE_WAIT \<in> set used_states"
  "TCP_STATE_LAST_ACK \<in> set used_states" "TCP_STATE_CLOSED \<in> set used_states"
  by (simp_all add: used_states_def)

lemma tinv_upd:
  "tinv s \<Longrightarrow> (sock_ok (n_tcp s i) \<Longrightarrow> sock_ok (f (n_tcp s i))) \<Longrightarrow> (sk_in_use (n_tcp s i) \<Longrightarrow> sk_in_use (f (n_tcp s i))) \<Longrightarrow>
   tinv (upd_tcp i f s)"
  by (auto simp: tinv_def)

lemma tinv_ignore [simp]:
  "tinv (net_call c s) = tinv s" "tinv (upd_dev d g s) = tinv s" "tinv (upd_udp i h s) = tinv s"
  "tinv (discarded s) = tinv s" "tinv (s\<lparr>n_tcp_dropped := n\<rparr>) = tinv s" "tinv (s\<lparr>n_handles := hs\<rparr>) = tinv s"
  "tinv (s\<lparr>n_uptime := u\<rparr>) = tinv s" "tinv (s\<lparr>n_drivers := ds\<rparr>) = tinv s" "tinv (s\<lparr>n_next_driver_id := k\<rparr>) = tinv s"
  by (simp_all add: tinv_def discarded_def)

lemma tinv_set_pendings [simp]: "tinv s \<Longrightarrow> tinv (tcp_set_pendings i p s)"
  by (auto simp: tcp_set_pendings_def intro: tinv_upd)

lemma in_use_set_pendings [simp]: "sk_in_use (n_tcp (tcp_set_pendings i p s) j) = sk_in_use (n_tcp s j)"
  by (simp add: tcp_set_pendings_def)

text \<open>A new socket is an unused slot, and nothing else changes.\<close>

lemma tcp_newD:
  assumes "tcp_new env s = Some (r, s')" "tinv s"
  shows "tinv s' \<and> n_tcp_active s' = n_tcp_active s \<and>
    (\<forall>i. r = Some i \<longrightarrow> i < TCP_SOCKETS_MAX \<and> \<not> sk_in_use (n_tcp s i) \<and> sk_in_use (n_tcp s' i) \<and> i \<notin> set (n_tcp_active s) \<and>
      (\<forall>j. j \<noteq> i \<longrightarrow> n_tcp s' j = n_tcp s j))"
proof (cases "find (\<lambda>i. \<not> sk_in_use (n_tcp s i)) [0..<TCP_SOCKETS_MAX]")
  case (Some i)
  then have i: "i < TCP_SOCKETS_MAX" "\<not> sk_in_use (n_tcp s i)"
    by (auto simp: find_Some_iff)
  with Some assms show ?thesis
    by (auto simp: tcp_new_def tinv_def split: if_splits)
      (simp add: sock_ok_def used_states_def chain_ok_def kconst)
qed (use assms in \<open>simp add: tcp_new_def\<close>)

lemma tcp_close_tinv: "tcp_close i s = Some s' \<Longrightarrow> tinv s \<Longrightarrow> tinv s'"
  by (auto simp: tcp_close_def tinv_def bind_Some_eq)

lemma tcp_bind_tinv: "tinv s \<Longrightarrow> tinv (tcp_bind i addr port s)"
  by (auto simp: tcp_bind_def Let_def intro: tinv_upd)

lemma connect_loop_tinv:
  "connect_loop port i a p s = Some s' \<Longrightarrow> tinv s \<Longrightarrow> sk_in_use (n_tcp s i) \<Longrightarrow> i < TCP_SOCKETS_MAX \<Longrightarrow> tinv s'"
proof (induction port i a p s rule: connect_loop.induct)
  case (1 port i a p s)
  show ?case
    using "1.IH" "1.prems"(2-) "1.prems"(1) [unfolded connect_loop.simps [of port]]
    by (auto simp: Let_def tinv_def tcp_set_pendings_def split: if_splits)
qed

lemma tcp_listen_tinv:
  "tcp_listen i backlog s = Some s' \<Longrightarrow> tinv s \<Longrightarrow> sk_in_use (n_tcp s i) \<Longrightarrow> i < TCP_SOCKETS_MAX \<Longrightarrow> tinv s'"
  by (auto simp: tcp_listen_def Let_def tinv_def split: if_splits)

lemma tcp_accept_tinv: "tcp_accept i s = Some (r, s') \<Longrightarrow> tinv s \<Longrightarrow> tinv s'"
  by (auto simp: tcp_accept_def split: list.splits if_splits intro: tinv_upd)

lemma sock_in_use: "sock_ok k \<Longrightarrow> sk_tx_buf k = Some tx \<or> sk_rx_buf k = Some rx \<Longrightarrow> sk_in_use k"
  by (auto simp: sock_ok_def split: if_splits)

lemma tcp_write_tinv:
  assumes "tcp_write env i data s = Some s'" "tinv s"
  shows "tinv s'"
proof -
  from assms obtain tx tx' where tx: "sk_tx_buf (n_tcp s i) = Some tx" "mbuf_append_bytes (ne_junk env) tx data = Some tx'"
    and s': "s' = upd_tcp i (\<lambda>k. k\<lparr>sk_tx_buf := Some tx', sk_retransmit_at := 0\<rparr>) s"
    by (auto simp: tcp_write_def bind_Some_eq)
  have "chain_ok tx" using assms(2) tx(1) by (auto simp: tinv_def sock_ok_def split: if_splits dest!: spec [of _ i])
  then have "chain_ok tx'"
    using mbuf_append_bytesE [of "hd tx" "tl tx" "ne_junk env" data] tx(2) by (auto simp: chain_ok_def neq_Nil_conv)
  then show ?thesis
    unfolding s' using assms(2) tx(1) by (intro tinv_upd) (auto simp: sock_ok_def split: if_splits)
qed

lemma tcp_read_tinv:
  assumes "tcp_read i n s = Some (buf, s')" "tinv s"
  shows "tinv s'"
proof -
  from assms obtain rx rx' where rx: "sk_rx_buf (n_tcp s i) = Some rx" "mbuf_read rx n = Some (buf, rx')"
    and s': "s' = upd_tcp i (\<lambda>k. k\<lparr>sk_rx_buf := Some rx', sk_local_winsize := sk_local_winsize k + of_nat (length buf)\<rparr>) s"
    by (auto simp: tcp_read_def bind_Some_eq)
  have ok: "sock_ok (n_tcp s i)" using assms(2) by (simp add: tinv_def)
  with rx(1) have c: "chain_ok rx" "unat (sk_local_winsize (n_tcp s i)) + length (bytes rx) = TCP_RX_BUF_SIZE"
    by (auto simp: sock_ok_def split: if_splits)
  obtain r where "mbuf_read rx n = Some (take n (bytes rx), r)" "chain_ok r" "bytes r = drop n (bytes rx)"
    by (rule mbuf_readE [OF c(1)])
  with rx(2) have r: "chain_ok rx'" "bytes rx' = drop n (bytes rx)" "buf = take n (bytes rx)" by auto
  have "unat (sk_local_winsize (n_tcp s i) + of_nat (length buf)) = unat (sk_local_winsize (n_tcp s i)) + length buf"
    using c(2) r(3) by (simp add: unat_word_ariths unat_of_nat kconst)
  then show ?thesis
    unfolding s' using assms(2) ok rx(1) r c by (intro tinv_upd) (auto simp: sock_ok_def split: if_splits)
qed


section \<open>Segments\<close>

text \<open>Sending a segment changes only the flags and timers of the socket.\<close>

definition resent :: "nat \<Rightarrow> net \<Rightarrow> net \<Rightarrow> bool" where
  "resent i s s' \<longleftrightarrow>
     (\<exists>a b c d. n_tcp s' = (n_tcp s)(i := (n_tcp s i)\<lparr>sk_pendings := a, sk_num_retransmits := b, sk_retransmit_at := c,
       sk_last_seqno := d\<rparr>)) \<and>
     n_tcp_active s' = n_tcp_active s \<and> n_handles s' = n_handles s \<and> n_uptime s' = n_uptime s \<and> n_drivers s' = n_drivers s"

lemma resentI:
  "n_tcp s' = (n_tcp s)(i := (n_tcp s i)\<lparr>sk_pendings := a, sk_num_retransmits := b, sk_retransmit_at := c, sk_last_seqno := d\<rparr>) \<Longrightarrow>
   n_tcp_active s' = n_tcp_active s \<Longrightarrow> n_handles s' = n_handles s \<Longrightarrow> n_uptime s' = n_uptime s \<Longrightarrow> n_drivers s' = n_drivers s \<Longrightarrow>
   resent i s s'"
  unfolding resent_def by blast

lemma resent_refl [simp]: "resent i s s"
  by (rule resentI [where a = "sk_pendings (n_tcp s i)" and b = "sk_num_retransmits (n_tcp s i)"
      and c = "sk_retransmit_at (n_tcp s i)" and d = "sk_last_seqno (n_tcp s i)"]) simp_all

lemma resent_trans: "resent i s s' \<Longrightarrow> resent i s' s'' \<Longrightarrow> resent i s s''"
  unfolding resent_def by force

lemma resent_same_tcp: "same_tcp s s' \<Longrightarrow> resent i s s'"
  by (rule resentI [where a = "sk_pendings (n_tcp s i)" and b = "sk_num_retransmits (n_tcp s i)"
      and c = "sk_retransmit_at (n_tcp s i)" and d = "sk_last_seqno (n_tcp s i)"]) (simp_all add: same_tcp_def)

lemma resent_pendings: "resent i s (upd_tcp i (\<lambda>k. k\<lparr>sk_pendings := p\<rparr>) s)"
  by (rule resentI [where a = p and b = "sk_num_retransmits (n_tcp s i)" and c = "sk_retransmit_at (n_tcp s i)"
      and d = "sk_last_seqno (n_tcp s i)"]) simp_all

lemma resent_num_retransmits: "resent i s (upd_tcp i (\<lambda>k. k\<lparr>sk_num_retransmits := f k\<rparr>) s)"
  by (rule resentI [where a = "sk_pendings (n_tcp s i)" and b = "f (n_tcp s i)" and c = "sk_retransmit_at (n_tcp s i)"
      and d = "sk_last_seqno (n_tcp s i)"]) simp_all

lemma resent_timer: "resent i s (upd_tcp i (\<lambda>k. k\<lparr>sk_retransmit_at := t, sk_last_seqno := g k\<rparr>) s)"
  by (rule resentI [where a = "sk_pendings (n_tcp s i)" and b = "sk_num_retransmits (n_tcp s i)" and c = t
      and d = "g (n_tcp s i)"]) simp_all

lemmas resent_upd = resent_pendings resent_num_retransmits resent_timer

lemma segment_to_send_resent: "segment_to_send env i s = Some (payload, fl, s') \<Longrightarrow> resent i s s'"
  by (auto simp: segment_to_send_def Let_def bind_Some_eq resent_upd split: if_splits)

lemma tcp_transmit_resent:
  assumes "tcp_transmit env i s = Some s'"
  shows "resent i s s'"
proof (cases "sk_retransmit_at (n_tcp s i) \<noteq> 0 \<and> sys_uptime s < sk_retransmit_at (n_tcp s i)")
  case False
  define s1 where "s1 = upd_tcp i (\<lambda>k. k\<lparr>sk_pendings := 0\<rparr>) s"
  from False assms obtain payload fl s2 where 2: "segment_to_send env i s1 = Some (payload, fl, s2)"
    by (auto simp: tcp_transmit_def tcp_clear_pendings_def s1_def bind_Some_eq)
  have "resent i s s2"
    using resent_upd(1) [of i s 0] segment_to_send_resent [OF 2] by (auto simp: s1_def intro: resent_trans)
  moreover have "s' = s2 \<or> (\<exists>s3 t. same_tcp s2 s3 \<and> s' = upd_tcp i (\<lambda>k. k\<lparr>sk_retransmit_at := t, sk_last_seqno := sk_next_seqno k\<rparr>) s3)"
    using assms False 2
    by (simp add: tcp_transmit_def tcp_clear_pendings_def s1_def [symmetric] Let_def split: if_splits option.splits)
      (auto simp: bind_Some_eq dest: ipv4_transmit_same_tcp)
  ultimately show ?thesis
    using resent_upd(3) resent_same_tcp by (blast intro: resent_trans)
qed (use assms in \<open>simp add: tcp_transmit_def\<close>)

lemma tinv_resent:
  assumes "resent i s s'" "tinv s"
  shows "tinv s'"
proof -
  from assms(1) obtain a b c d where "n_tcp s' = (n_tcp s)(i := (n_tcp s i)\<lparr>sk_pendings := a, sk_num_retransmits := b,
      sk_retransmit_at := c, sk_last_seqno := d\<rparr>)" "n_tcp_active s' = n_tcp_active s"
    unfolding resent_def by blast
  with assms(2) show ?thesis by (simp add: tinv_def)
qed

lemma tcp_transmit_tinv: "tcp_transmit env i s = Some s' \<Longrightarrow> tinv s \<Longrightarrow> tinv s'"
  by (blast intro: tinv_resent tcp_transmit_resent)

lemma transmit_all_tinv: "transmit_all env q s = Some s' \<Longrightarrow> tinv s \<Longrightarrow> tinv s'"
  by (induction q arbitrary: s) (auto simp: bind_Some_eq dest: tcp_transmit_tinv)

lemma flush_loop_tinv: "flush_loop env q s = Some s' \<Longrightarrow> tinv s \<Longrightarrow> tinv s'"
  by (induction q arbitrary: s) (auto simp: bind_Some_eq dest: tcp_transmit_tinv transmit_all_tinv)

lemma process_listen_tinv:
  assumes "process_listen env i a p seq flags s = Some s'" "tinv s"
  shows "tinv s'"
proof -
  have *: "tinv (tcp_set_pendings j TCP_PEND_ACK
      ((upd_tcp i (\<lambda>k. k\<lparr>sk_backlog_socks := sk_backlog_socks k @ [j]\<rparr>)
        (upd_tcp j (\<lambda>k. k\<lparr>sk_state := TCP_STATE_SYN_RECVED, sk_last_ack := seq + 1, sk_listen_sock := Some i,
          sk_local := sk_local (n_tcp t i), sk_remote := \<lparr>ep_addr = a, ep_port = p\<rparr>\<rparr>) t))
       \<lparr>n_tcp_active := n_tcp_active t @ [j]\<rparr>))" if new: "tcp_new env s = Some (Some j, t)" for j t
  proof -
    let ?u = "upd_tcp j (\<lambda>k. k\<lparr>sk_state := TCP_STATE_SYN_RECVED, sk_last_ack := seq + 1, sk_listen_sock := Some i,
          sk_local := sk_local (n_tcp t i), sk_remote := \<lparr>ep_addr = a, ep_port = p\<rparr>\<rparr>) t"
    let ?v = "upd_tcp i (\<lambda>k. k\<lparr>sk_backlog_socks := sk_backlog_socks k @ [j]\<rparr>) ?u"
    have n: "tinv t" "n_tcp_active t = n_tcp_active s" "j < TCP_SOCKETS_MAX" "sk_in_use (n_tcp t j)" "j \<notin> set (n_tcp_active s)"
      using tcp_newD [OF new assms(2)] by auto
    have "tinv ?u" using n(1) by (intro tinv_upd) auto
    then have "tinv ?v" by (rule tinv_upd) auto
    then have "tinv (?v\<lparr>n_tcp_active := n_tcp_active t @ [j]\<rparr>)"
      using n by (auto simp: tinv_def)
    then show ?thesis by simp
  qed
  show ?thesis
    using assms by (auto simp: process_listen_def Let_def bind_Some_eq split: if_splits intro: *)
qed

lemma process_ack_tinv:
  assumes "process_ack i ack w s = Some s'" "tinv s"
  shows "tinv s' \<and> n_tcp_active s' = n_tcp_active s \<and> (\<forall>j. sk_in_use (n_tcp s' j) = sk_in_use (n_tcp s j)) \<and>
    sk_state (n_tcp s' i) = sk_state (n_tcp s i)"
proof -
  define s1 where "s1 = upd_tcp i (\<lambda>k. k\<lparr>sk_remote_winsize := ntoh32 (ucast w)\<rparr>) s"
  have 1: "tinv s1" using assms(2) by (auto simp: s1_def intro: tinv_upd)
  have *: "tinv (upd_tcp i (\<lambda>k. k\<lparr>sk_tx_buf := Some tx', sk_next_seqno := sk_next_seqno k + n\<rparr>) s1)"
    if tx: "sk_tx_buf (n_tcp s1 i) = Some tx" "mbuf_discard tx m = Some (r, tx')" for tx tx' r m n
  proof -
    have "sock_ok (n_tcp s1 i)" using 1 by (simp add: tinv_def)
    with tx(1) have "chain_ok tx" by (auto simp: sock_ok_def split: if_splits)
    with tx(2) have "chain_ok tx'" using mbuf_discardE [of tx m] by auto
    then show ?thesis
      using tx(1) by (intro tinv_upd 1) (auto simp: sock_ok_def split: if_splits)
  qed
  show ?thesis
    using assms(1) 1 *
    by (auto simp: process_ack_def Let_def bind_Some_eq s1_def split: if_splits)
qed

lemma unat_minus_of_nat:
  assumes "n \<le> unat (w :: 'a::len word)"
  shows "unat (w - of_nat n) = unat w - n"
proof -
  have "unat (of_nat n :: 'a word) = n"
    using assms unsigned_less [of w] by (simp add: unat_of_nat take_bit_nat_eq_self order_le_less_trans)
  with assms show ?thesis by (simp add: unat_sub word_le_nat_alt)
qed

lemma process_established_tinv:
  assumes "process_established i flags payload s = Some s'" "tinv s" "chain_ok payload"
  shows "tinv s'"
proof -
  define s1 where "s1 = (if flags AND TCP_FIN \<noteq> 0
    then upd_tcp i (\<lambda>k. k\<lparr>sk_state := TCP_STATE_CLOSE_WAIT, sk_retransmit_at := 0, sk_last_ack := sk_last_ack k + 1\<rparr>)
      (tcp_set_pendings i TCP_PEND_ACK s) else s)"
  have 1: "tinv s1" using assms(2) by (auto simp: s1_def intro!: tinv_upd)
  define s2 where "s2 = tcp_set_pendings i TCP_PEND_ACK s1"
  have 2: "tinv s2" using 1 by (simp add: s2_def)
  have *: "tinv (upd_tcp i (\<lambda>k. k\<lparr>sk_rx_buf := Some rx', sk_last_ack := sk_last_ack k + n,
      sk_local_winsize := sk_local_winsize k - of_nat (mbuf_len payload)\<rparr>) s2)"
    if rx: "sk_rx_buf (n_tcp s2 i) = Some rx" "mbuf_append rx payload = Some rx'"
      "mbuf_len payload \<le> unat (sk_local_winsize (n_tcp s2 i))" for rx rx' n
  proof -
    have "sock_ok (n_tcp s2 i)" using 2 by (simp add: tinv_def)
    with rx(1) have c: "chain_ok rx" "unat (sk_local_winsize (n_tcp s2 i)) + length (bytes rx) = TCP_RX_BUF_SIZE"
      by (auto simp: sock_ok_def split: if_splits)
    have r: "chain_ok rx'" "length (bytes rx') = length (bytes rx) + mbuf_len payload"
      using mbuf_append_ok [OF c(1) assms(3)] rx(2) chain_okD [OF assms(3)] by auto
    have "unat (sk_local_winsize (n_tcp s2 i) - of_nat (mbuf_len payload)) = unat (sk_local_winsize (n_tcp s2 i)) - mbuf_len payload"
      by (rule unat_minus_of_nat [OF rx(3)])
    then show ?thesis
      using rx c r by (intro tinv_upd 2) (auto simp: sock_ok_def split: if_splits)
  qed
  consider "s' = s1" | "s' = s2\<lparr>n_tcp_dropped := n_tcp_dropped s2 + 1\<rparr>"
    | (data) rx rx' where "sk_rx_buf (n_tcp s2 i) = Some rx" "mbuf_append rx payload = Some rx'"
      "mbuf_len payload \<le> unat (sk_local_winsize (n_tcp s2 i))"
      "sys_process_event (TCP_RECEIVED i) (upd_tcp i (\<lambda>k. k\<lparr>sk_rx_buf := Some rx',
        sk_last_ack := sk_last_ack k + of_nat (mbuf_len payload),
        sk_local_winsize := sk_local_winsize k - of_nat (mbuf_len payload)\<rparr>) s2) = Some s'"
    using assms(1) by (auto simp: process_established_def Let_def bind_Some_eq s1_def [symmetric] s2_def [symmetric] split: if_splits)
  then show ?thesis
  proof cases
    case data
    then show ?thesis using * sys_process_event_same_tcp tinv_same_tcp by blast
  qed (use 1 2 in simp_all)
qed

lemma process_state_tinv:
  assumes "process_state i seq ack flags payload s = Some s'" "tinv s" "chain_ok payload"
  shows "tinv s'"
proof (cases "sk_state (n_tcp s i)")
  case TCP_STATE_SYN_RECVED
  let ?s = "upd_tcp i (\<lambda>k. k\<lparr>sk_next_seqno := ack, sk_last_ack := seq, sk_state := TCP_STATE_ESTABLISHED, sk_retransmit_at := 0\<rparr>) s"
  have "tinv ?s" using assms(2) by (intro tinv_upd) auto
  with assms TCP_STATE_SYN_RECVED show ?thesis
    by (auto simp: process_state_def Let_def split: if_splits dest: sys_process_event_same_tcp tinv_same_tcp)
next
  case TCP_STATE_ESTABLISHED
  with assms process_established_tinv show ?thesis by (auto simp: process_state_def)
qed (use assms in \<open>auto simp: process_state_def split: if_splits intro!: tinv_upd\<close>)

lemma tcp_process_tinv:
  assumes "tcp_process env i a p h payload s = Some s'" "tinv s" "chain_ok payload"
  shows "tinv s'"
proof -
  consider (listen) "sk_state (n_tcp s i) = TCP_STATE_LISTEN" | (discard) "s' = discarded s"
    | (process) s1 s2 where "process_ack i (ntoh32 (th_ackno h)) (th_win_size h) s = Some s1"
        "process_state i (ntoh32 (th_seqno h)) (ntoh32 (th_ackno h)) (th_flags h) payload s1 = Some s2"
        "s' = s2 \<or> s' = upd_tcp i (\<lambda>k. k\<lparr>sk_state := TCP_STATE_LAST_ACK\<rparr>) (tcp_set_pendings i TCP_PEND_FIN s2)"
    using assms(1) by (auto simp: tcp_process_def Let_def bind_Some_eq split: if_splits)
  then show ?thesis
  proof cases
    case listen
    with assms process_listen_tinv show ?thesis by (auto simp: tcp_process_def Let_def)
  next
    case process
    then have "tinv s2" using process_ack_tinv process_state_tinv assms by blast
    with process(3) show ?thesis by (auto intro!: tinv_upd)
  qed (use assms in simp)
qed

lemma mbuf_read_chain: "mbuf_read m n = Some (b, m') \<Longrightarrow> chain_ok m \<Longrightarrow> chain_ok m'"
  using mbuf_read_bytes [of m n] by auto

lemma mbuf_discard_chain: "mbuf_discard m n = Some (k, m') \<Longrightarrow> chain_ok m \<Longrightarrow> chain_ok m'"
  using mbuf_discardE [of m n] by auto

lemma tcp_receive_tinv:
  assumes "tcp_receive env dst src pkt s = Some s'" "tinv s" "chain_ok pkt"
  shows "tinv s'"
  using assms
  by (auto simp: tcp_receive_def Let_def bind_Some_eq split: if_splits option.splits
      elim!: tcp_process_tinv) (blast dest: mbuf_read_chain mbuf_discard_chain)+

lemma ipv4_receive_tinv:
  assumes "ipv4_receive env d pkt s = Some s'" "tinv s" "chain_ok pkt"
  shows "tinv s'"
proof -
  have t: "chain_ok (mbuf_truncate m n)" if "chain_ok m" for m n
    using mbuf_truncate_bytes [of m n] that by (auto simp: chain_ok_def)
  show ?thesis
    using assms t
    by (auto simp: ipv4_receive_def Let_def bind_Some_eq split: if_splits
        dest: mbuf_read_chain mbuf_discard_chain tcp_receive_tinv
        dest!: udp_receive_same_tcp icmp_receive_same_tcp elim: tinv_same_tcp)
qed

lemma ethernet_receive_tinv:
  assumes "ethernet_receive env d pkt s = Some s'" "tinv s"
  shows "tinv s'"
proof -
  obtain m where "mbuf_new (ne_junk env) pkt = Some m" "chain_ok m" by (rule mbuf_newE)
  with assms show ?thesis
    by (auto simp: ethernet_receive_def Let_def bind_Some_eq split: if_splits
        dest: mbuf_read_chain ipv4_receive_tinv dest!: arp_receive_same_tcp elim: tinv_same_tcp)
qed

section \<open>Messages\<close>

lemma dhcp_retries_tinv: "dhcp_retries env q s = Some s' \<Longrightarrow> tinv s \<Longrightarrow> tinv s'"
  by (induction q arbitrary: s)
    (auto simp: Let_def bind_Some_eq split: if_splits dest!: dhcp_transmit_same_tcp dest: tinv_same_tcp)

lemma deferred_work_tinv: "deferred_work env s = Some s' \<Longrightarrow> tinv s \<Longrightarrow> tinv s'"
  by (auto simp: deferred_work_def tcp_flush_def bind_Some_eq dest!: flush_loop_tinv dest: dhcp_retries_tinv)

lemma device_new_same_tcp [same_tcp]: "device_new name arg s = Some (r, s') \<Longrightarrow> same_tcp s s'"
  by (auto simp: device_new_def bind_Some_eq split: option.splits)

lemma register_device_tinv:
  assumes "register_device env t mac s = Some s'" "tinv s"
  shows "tinv s'"
proof (cases "n_next_driver_id s > 9")
  case False
  let ?s = "s\<lparr>n_next_driver_id := n_next_driver_id s + 1\<rparr>"
  from False assms(1) obtain name r s1 where 1: "device_new name (length (n_drivers s)) ?s = Some (r, s1)"
    and r: "(case r of None \<Rightarrow> Some s1 | Some d \<Rightarrow> device_enable_dhcp env d (device_set_macaddr d mac
      (s1\<lparr>n_drivers := n_drivers s1 @ [\<lparr>dr_tid = t, dr_device = d, dr_last_dhcp_discover = sys_uptime s1,
        dr_dhcp_discover_retires = 0\<rparr>]\<rparr>))) = Some s'"
    by (auto simp: register_device_def Let_def bind_Some_eq)
  have "tinv s1" using tinv_same_tcp [OF _ device_new_same_tcp [OF 1]] assms(2) by simp
  with r show ?thesis
    by (cases r) (auto simp: device_set_macaddr_def dest!: device_enable_dhcp_same_tcp elim!: tinv_same_tcp [rotated])
qed (use assms in \<open>simp add: register_device_def\<close>)

lemma free_all_loop_pres:
  "free_all_loop owner f q (hs, s) = Some (hs', s') \<Longrightarrow> (\<And>d s. P s \<Longrightarrow> P (f d s)) \<Longrightarrow> P s \<Longrightarrow> P s'"
proof (induction q arbitrary: hs s)
  case (Cons h q)
  then obtain r where r: "get_entry hs owner h = Some r" by (auto simp: bind_Some_eq)
  show ?case
  proof (cases r)
    case None
    with Cons r show ?thesis by auto
  next
    case (Some ik)
    then obtain i k where "r = Some (i, k)" by (cases ik) auto
    with Cons r show ?thesis by (auto simp: Let_def split: if_splits)
  qed
qed simp

lemma timer_tick_tinv: "timer_tick env s = Some s' \<Longrightarrow> tinv s \<Longrightarrow> tinv s'"
  by (auto simp: timer_tick_def timer_set_def Let_def bind_Some_eq split: if_splits)

lemma task_exited_tinv:
  assumes "task_exited task s = Some s'" "tinv s"
  shows "tinv s'"
proof -
  from assms(1) obtain hs t where 1: "handle_free_all task (\<lambda>c s. s \<bind> free_handle c) (n_handles s, Some s) = Some (hs, Some t)"
    and s': "s' = t\<lparr>n_handles := hs\<rparr>"
    by (auto simp: task_exited_def bind_Some_eq)
  have "case Some t of None \<Rightarrow> True | Some s \<Rightarrow> tinv s"
    by (rule free_all_loop_pres [OF 1 [unfolded handle_free_all_def]])
      (use assms(2) in \<open>auto simp: free_handle_def bind_Some_eq split: option.splits dest: tcp_close_tinv\<close>)
  then show ?thesis by (simp add: s')
qed

lemma async_notified_tinv: "async_notified env s = Some s' \<Longrightarrow> tinv s \<Longrightarrow> tinv s'"
  by (auto simp: async_notified_def Let_def split: net_msg.splits dest: task_exited_tinv)

lemma handle_notifications_tinv: "handle_notifications env data s = Some s' \<Longrightarrow> tinv s \<Longrightarrow> tinv s'"
  by (auto simp: handle_notifications_def bind_Some_eq split: if_splits dest: timer_tick_tinv async_notified_tinv)

lemma new_client_tinv: "new_client src sock s = Some (h, s') \<Longrightarrow> tinv s \<Longrightarrow> tinv s'"
  by (auto simp: new_client_def Let_def bind_Some_eq intro!: tinv_upd)

lemma handle_connect_tinv:
  assumes "handle_connect env src a p s = Some s'" "tinv s"
  shows "tinv s'"
proof -
  from assms(1) obtain sock s1 s2 h s3 where n: "tcp_new env s = Some (Some sock, s1)"
    and "tcp_connect sock (ipv4 a) p s1 = Some s2" "new_client src sock s2 = Some (h, s3)"
    and "s' = net_call (Ipc_send_noblock src (TCPIP_CONNECT_REPLY_MSG h)) s3"
    by (auto simp: handle_connect_def bind_Some_eq)
  with tcp_newD [OF n assms(2)] connect_loop_tinv new_client_tinv show ?thesis
    by (auto simp: tcp_connect_def)
qed

lemma in_use_tcp_bind [simp]: "sk_in_use (n_tcp (tcp_bind i a p s) j) = sk_in_use (n_tcp s j)"
  by (simp add: tcp_bind_def Let_def)

lemma handle_listen_tinv:
  assumes "handle_listen env src p backlog s = Some s'" "tinv s"
  shows "tinv s'"
proof -
  from assms(1) obtain sock s1 s2 h s3 where n: "tcp_new env s = Some (Some sock, s1)"
    and "tcp_listen sock backlog (tcp_bind sock (ipv4 IPV4_ADDR_UNSPECIFIED) p s1) = Some s2"
      "new_client src sock s2 = Some (h, s3)"
    and "s' = net_call (Ipc_send_noblock src (TCPIP_LISTEN_REPLY_MSG h)) s3"
    by (auto simp: handle_listen_def Let_def bind_Some_eq)
  with tcp_newD [OF n assms(2)] tcp_bind_tinv tcp_listen_tinv new_client_tinv show ?thesis by auto
qed

lemma handle_accept_tinv: "handle_accept src h s = Some s' \<Longrightarrow> tinv s \<Longrightarrow> tinv s'"
  by (auto simp: handle_accept_def bind_Some_eq split: option.splits dest!: tcp_accept_tinv) (blast dest: new_client_tinv)

lemma handle_read_tinv: "handle_read src h n s = Some s' \<Longrightarrow> tinv s \<Longrightarrow> tinv s'"
  by (auto simp: handle_read_def bind_Some_eq split: option.splits) (blast dest: tcp_read_tinv)

lemma handle_write_tinv: "handle_write env src h data s = Some s' \<Longrightarrow> tinv s \<Longrightarrow> tinv s'"
  by (auto simp: handle_write_def bind_Some_eq split: option.splits) (blast dest: tcp_write_tinv)

lemma handle_close_tinv: "handle_close src h s = Some s' \<Longrightarrow> tinv s \<Longrightarrow> tinv s'"
  by (auto simp: handle_close_def bind_Some_eq split: option.splits dest: tcp_close_tinv)

lemma handle_dns_resolve_tinv: "handle_dns_resolve env src name s = Some s' \<Longrightarrow> tinv s \<Longrightarrow> tinv s'"
  by (auto simp: handle_dns_resolve_def Let_def bind_Some_eq dest!: dns_query_same_tcp) (simp add: tinv_def same_tcp_def)

lemma handle_net_rx_tinv: "handle_net_rx env src payload s = Some s' \<Longrightarrow> tinv s \<Longrightarrow> tinv s'"
  by (auto simp: handle_net_rx_def bind_Some_eq split: option.splits
      dest!: dhcp_receive_same_tcp dns_receive_same_tcp) (blast dest: ethernet_receive_tinv tinv_same_tcp)

lemma net_dispatch_tinv: "net_dispatch env src m s = Some s' \<Longrightarrow> tinv s \<Longrightarrow> tinv s'"
  by (cases m) (auto simp: net_dispatch_def bind_Some_eq
      dest: handle_notifications_tinv handle_connect_tinv handle_listen_tinv handle_accept_tinv handle_read_tinv
        handle_write_tinv handle_close_tinv handle_dns_resolve_tinv handle_net_rx_tinv register_device_tinv)

lemma handle_net_message_tinv: "handle_net_message env src m s = Some s' \<Longrightarrow> tinv s \<Longrightarrow> tinv s'"
  by (auto simp: handle_net_message_def bind_Some_eq dest: net_dispatch_tinv deferred_work_tinv)

text \<open>The static tables are zero before start-up.\<close>

definition net_zeroed :: "net \<Rightarrow> bool" where
  "net_zeroed s \<longleftrightarrow>
     (\<forall>i. sk_in_use (n_tcp s i) = False \<and> sk_rx_buf (n_tcp s i) = None \<and> sk_tx_buf (n_tcp s i) = None \<and>
        sk_client (n_tcp s i) = None \<and> sk_backlog_socks (n_tcp s i) = []) \<and>
     (\<forall>d. length (dv_name (n_devices s d)) = DEVICE_NAME_LEN) \<and> n_uptime s = 0 \<and> n_next_driver_id s = 0"

lemma udp_new_same_tcp [same_tcp]: "udp_new s = (r, s') \<Longrightarrow> same_tcp s s'"
  by (auto simp: udp_new_def split: option.splits)

lemma dhcp_init_tinv: "dhcp_init s = Some s' \<Longrightarrow> tinv s \<Longrightarrow> tinv s'"
  by (cases "udp_new s") (auto simp: dhcp_init_def udp_bind_def Let_def bind_Some_eq tinv_def same_tcp_def
      split: if_splits dest!: udp_new_same_tcp)

lemma dns_init_tinv: "dns_init s = Some s' \<Longrightarrow> tinv s \<Longrightarrow> tinv s'"
  by (cases "udp_new s") (auto simp: dns_init_def udp_bind_def Let_def bind_Some_eq tinv_def same_tcp_def
      split: if_splits dest!: udp_new_same_tcp)

lemma net_main_init_tinv:
  assumes "net_main_init env s0 = Some s" "net_zeroed s0"
  shows "tinv s"
proof -
  let ?s = "udp_init (tcp_init (device_init (s0\<lparr>n_drivers := [], n_dns_requests := []\<rparr>)))"
  have "tinv ?s"
    using assms(2) by (auto simp: tinv_def udp_init_def tcp_init_def device_init_def net_zeroed_def sock_ok_def)
  with assms(1) show ?thesis
    by (auto simp: net_main_init_def timer_set_def Let_def bind_Some_eq split: if_splits dest: dhcp_init_tinv dns_init_tinv)
qed

lemma net_reachable_tinv: "net_reachable s0 s \<Longrightarrow> net_zeroed s0 \<Longrightarrow> tinv s"
  by (induction rule: net_reachable.induct) (auto dest: net_main_init_tinv handle_net_message_tinv)

end
