(* ===== verification/Net_Packet.thy ===== *)
theory Net_Packet
  imports Net_State
begin

text \<open>
  The packet formats: byte orders are involutions, a header that is written and read is the same
  header, and the checksum of a packet that carries its own checksum is correct.
\<close>

section \<open>Byte order\<close>

lemma swap16_bit: "n < 16 \<Longrightarrow> bit (swap16 x) n = bit x (8 * (1 - n div 8) + n mod 8)"
proof -
  assume "n < 16"
  then have "n \<in> {0..<16}" by simp
  then show ?thesis
    by (simp add: atLeastLessThan_nat_numeral swap16_def bit_simps) (elim disjE; simp add: bit_simps; simp add: numeral_2_eq_2)
qed

lemma swap16_swap16: "swap16 (swap16 x) = x"
proof (rule bit_word_eqI)
  fix n assume n: "n < LENGTH(16)"
  let ?m = "8 * (1 - n div 8) + n mod 8"
  have "?m < 16" using n by simp
  moreover have "?m div 8 = 1 - n div 8" "?m mod 8 = n mod 8" by simp_all
  moreover have "8 * (1 - (1 - n div 8)) + n mod 8 = n" using n by simp
  ultimately show "bit (swap16 (swap16 x)) n = bit x n"
    using n by (simp add: swap16_bit)
qed

lemma swap32_bit:
  "n < 32 \<Longrightarrow> bit (swap32 x) n = bit x (8 * (3 - n div 8) + n mod 8)"
proof -
  assume "n < 32"
  then have "n \<in> {0..<32}" by simp
  then show ?thesis
    by (simp add: atLeastLessThan_nat_numeral swap32_def bit_simps) (elim disjE; simp add: bit_simps; simp add: numeral_2_eq_2)
qed

lemma swap32_swap32: "swap32 (swap32 x) = x"
proof (rule bit_word_eqI)
  fix n assume n: "n < LENGTH(32)"
  let ?m = "8 * (3 - n div 8) + n mod 8"
  have "?m < 32" using n by simp
  moreover have "?m div 8 = 3 - n div 8" "?m mod 8 = n mod 8" by simp_all
  moreover have "8 * (3 - (3 - n div 8)) + n mod 8 = n" using n by simp
  ultimately show "bit (swap32 (swap32 x)) n = bit x n"
    using n by (simp add: swap32_bit)
qed

lemma ntoh_hton [simp]: "ntoh16 (hton16 a) = a" "ntoh32 (hton32 b) = b"
  by (simp_all add: ntoh16_def hton16_def ntoh32_def hton32_def swap16_swap16 swap32_swap32)

lemma ntoh32_of_16: "ntoh32 (ucast (w :: u16)) = push_bit 16 (ucast (ntoh16 w))"
proof (rule bit_word_eqI)
  fix n assume "n < LENGTH(32)"
  then have n: "n < 32" by simp
  then have "bit (ntoh32 (ucast w)) n = (8 * (3 - n div 8) + n mod 8 < 16 \<and> bit w (8 * (3 - n div 8) + n mod 8))"
    using bit_imp_le_length [of w "8 * (3 - n div 8) + n mod 8"] by (auto simp: ntoh32_def swap32_bit bit_simps)
  moreover have "bit (push_bit 16 (ucast (ntoh16 w)) :: u32) n = (16 \<le> n \<and> bit (ntoh16 w) (n - 16))"
    using n by (auto simp: bit_simps)
  moreover have "n \<in> {0..<32}" using n by simp
  ultimately show "bit (ntoh32 (ucast w)) n = bit (push_bit 16 (ucast (ntoh16 w)) :: u32) n"
    by (simp add: atLeastLessThan_nat_numeral ntoh16_def) (elim disjE; simp add: swap16_bit)
qed

section \<open>Integers in memory\<close>

lemma le_length [simp]: "length (le16 a) = 2" "length (le32 b) = 4"
  by (simp_all add: le16_def le32_def)

lemma get16_bytes: "(ucast (ucast w :: u8) :: u16) OR push_bit 8 (ucast (ucast (drop_bit 8 w) :: u8)) = w"
  by (rule bit_word_eqI) (auto simp: bit_simps)

lemma get32_bytes:
  "(ucast (ucast w :: u8) :: u32) OR push_bit 8 (ucast (ucast (drop_bit 8 w) :: u8)) OR
   push_bit 16 (ucast (ucast (drop_bit 16 w) :: u8)) OR push_bit 24 (ucast (ucast (drop_bit 24 w) :: u8)) = w"
proof (rule bit_word_eqI)
  fix n assume "n < LENGTH(32)"
  then consider "n < 8" | "8 \<le> n" "n < 16" | "16 \<le> n" "n < 24" | "24 \<le> n" "n < 32" by fastforce
  then show "bit ((ucast (ucast w :: u8) :: u32) OR push_bit 8 (ucast (ucast (drop_bit 8 w) :: u8)) OR
     push_bit 16 (ucast (ucast (drop_bit 16 w) :: u8)) OR push_bit 24 (ucast (ucast (drop_bit 24 w) :: u8))) n = bit w n"
    by cases (auto simp: bit_simps)
qed

lemma get_le: "get16 (le16 a @ xs) 0 = a" "get32 (le32 b @ xs) 0 = b"
  by (simp_all add: get16_def get32_def le16_def le32_def get16_bytes get32_bytes)

section \<open>Headers\<close>

lemmas layout_defs = le16_def le32_def get16_def get32_def

lemma length_headers [simp]:
  "length (ipv4_bytes h) = IPV4_HDR_LEN" "length (udp_bytes u) = UDP_HDR_LEN" "length (tcp_bytes t) = TCP_HDR_LEN"
  "length (icmp_bytes c) = ICMP_HDR_LEN"
  by (simp_all add: ipv4_bytes_def udp_bytes_def tcp_bytes_def icmp_bytes_def kconst)

lemma length_ethernet_bytes [simp]:
  "length (eth_dst h) = MACADDR_LEN \<Longrightarrow> length (eth_src h) = MACADDR_LEN \<Longrightarrow> length (ethernet_bytes h) = ETH_HDR_LEN"
  by (simp add: ethernet_bytes_def kconst)

lemma length_arp_bytes [simp]:
  "length (arp_sender p) = MACADDR_LEN \<Longrightarrow> length (arp_target p) = MACADDR_LEN \<Longrightarrow> length (arp_bytes p) = ARP_LEN"
  by (simp add: arp_bytes_def kconst)

lemma ipv4_of_bytes [simp]: "ipv4_of (ipv4_bytes h) = h"
  by (simp add: ipv4_of_def ipv4_bytes_def layout_defs get16_bytes get32_bytes)

lemma udp_of_bytes [simp]: "udp_of (udp_bytes h) = h"
  by (simp add: udp_of_def udp_bytes_def layout_defs get16_bytes)

lemma tcp_of_bytes [simp]: "tcp_of (tcp_bytes h) = h"
  by (simp add: tcp_of_def tcp_bytes_def layout_defs get16_bytes get32_bytes)

lemma mac_cases: "length mac = MACADDR_LEN \<Longrightarrow> \<exists>a b c d e f. mac = [a, b, c, d, e, f]"
  by (simp add: kconst numeral_eq_Suc length_Suc_conv) blast

lemma ethernet_of_bytes:
  assumes "length (eth_dst h) = MACADDR_LEN" "length (eth_src h) = MACADDR_LEN"
  shows "ethernet_of (ethernet_bytes h) = h"
proof -
  obtain a b c d e f a' b' c' d' e' f' where "eth_dst h = [a, b, c, d, e, f]" "eth_src h = [a', b', c', d', e', f']"
    using mac_cases [OF assms(1)] mac_cases [OF assms(2)] by auto
  then show ?thesis by (simp add: ethernet_of_def ethernet_bytes_def layout_defs get16_bytes)
qed

lemma arp_of_bytes:
  assumes "length (arp_sender p) = MACADDR_LEN" "length (arp_target p) = MACADDR_LEN"
  shows "arp_of (arp_bytes p) = p"
proof -
  obtain a b c d e f a' b' c' d' e' f' where "arp_sender p = [a, b, c, d, e, f]" "arp_target p = [a', b', c', d', e', f']"
    using mac_cases [OF assms(1)] mac_cases [OF assms(2)] by auto
  then show ?thesis by (simp add: arp_of_def arp_bytes_def layout_defs get16_bytes get32_bytes)
qed

section \<open>Checksums\<close>

text \<open>The sum of the words of a byte sequence.\<close>

fun word_sum :: "u8 list \<Rightarrow> nat" where
  "word_sum (a # b # bs) = unat a + 256 * unat b + word_sum bs"
| "word_sum [a] = unat a"
| "word_sum [] = 0"

lemma unat_bound: "unat (w :: 'a::len word) < 2 ^ LENGTH('a)"
  by (rule unsigned_less)

lemma unat_ucast_up:
  assumes "LENGTH('a::len) \<le> LENGTH('b::len)"
  shows "unat (ucast (w :: 'a word) :: 'b word) = unat w"
proof -
  have "unat w < 2 ^ LENGTH('b)"
    by (rule order_less_le_trans [OF unat_bound power_increasing [OF assms]]) simp
  then show ?thesis by (simp add: unsigned_ucast_eq take_bit_nat_eq_self)
qed

lemma unat_get16: "unat (get16 [a, b] 0) = unat a + 256 * unat b"
proof -
  have "get16 [a, b] 0 = ucast a + push_bit 8 (ucast b)"
    by (simp add: get16_def) (rule disjunctive_add [symmetric], auto simp: bit_simps dest: bit_imp_le_length)
  then show ?thesis
    using unat_bound [of a] unat_bound [of b]
    by (simp add: push_bit_eq_mult unat_word_ariths unat_ucast_up mod_simps)
qed

lemma checksum_update_sum: "unat (checksum_update c bs) = (unat c + word_sum bs) mod 2 ^ 32"
proof (induction c bs rule: checksum_update.induct)
  case (1 c a b bs)
  then show ?case
    by (simp add: unat_word_ariths unat_ucast_up unat_get16 mod_simps add.assoc)
next
  case (2 c a)
  then show ?case by (simp add: unat_word_ariths unat_ucast_up)
next
  case (3 c)
  then show ?case using unat_bound [of c] by simp
qed

lemma word_sum_append: "even (length xs) \<Longrightarrow> word_sum (xs @ ys) = word_sum xs + word_sum ys"
  by (induction xs rule: word_sum.induct) auto

lemma word_sum_bound: "word_sum bs \<le> 65535 * ((length bs + 1) div 2)"
proof (induction bs rule: word_sum.induct)
  case (1 a b bs)
  then show ?case using unat_bound [of a] unat_bound [of b] by simp
next
  case (2 a)
  then show ?case using unat_bound [of a] by simp
qed simp

lemma word_sum_le16 [simp]: "word_sum (le16 w) = unat w"
  using unat_get16 [of "ucast w" "ucast (drop_bit 8 w)"] get_le(1) [of w "[]"] by (simp add: le16_def)

text \<open>Folding a sum to 16 bits: the remainder modulo 65535, with 65535 for the multiples of it.\<close>

definition fold16 :: "nat \<Rightarrow> nat" where
  "fold16 n = (if n = 0 then 0 else Suc ((n - 1) mod 65535))"

lemma unat_checksum_finish: "unat (ucast (checksum_finish c) :: u16) = 65535 - fold16 (unat c)"
proof -
  define h l where "h = unat c div 65536" and "l = unat c mod 65536"
  have hl: "unat c = 65536 * h + l" "h < 65536" "l < 65536"
    using unat_bound [of c] by (auto simp: h_def l_def)
  define c1 where "c1 = drop_bit 16 c + (c AND 0xffff)"
  have m: "c AND 0xffff = take_bit 16 c" by (simp add: take_bit_eq_mask mask_eq_exp_minus_1)
  have c1: "unat c1 = h + l"
    using hl by (simp add: c1_def m unat_word_ariths unat_drop_bit_eq unsigned_take_bit_eq drop_bit_eq_div take_bit_eq_mod h_def l_def)
  define c2 where "c2 = c1 + drop_bit 16 c1"
  have c2: "unat c2 = h + l + (h + l) div 65536"
    using hl c1 by (simp add: c2_def unat_word_ariths unat_drop_bit_eq drop_bit_eq_div)
  have f: "unat c2 mod 65536 = fold16 (unat c)"
  proof (cases "h + l = 0")
    case False
    then have "unat c - 1 = h + l - 1 + 65535 * h" using hl(1) by simp
    then have "(unat c - 1) mod 65535 = (h + l - 1) mod 65535" by (simp only: mod_mult_self2)
    moreover have "(h + l - 1) mod 65535 = (if h + l < 65536 then h + l - 1 else h + l - 1 - 65535)"
      using hl(2,3) by (simp add: mod_if)
    ultimately have "fold16 (unat c) = (if h + l < 65536 then h + l else h + l - 65535)"
      using False hl(1) by (auto simp: fold16_def)
    moreover have "(h + l) div 65536 = (if h + l < 65536 then 0 else 1)"
      using hl(2,3) by (auto intro!: div_nat_eqI)
    ultimately show ?thesis using c2 hl(2,3) by (auto simp: mod_if)
  qed (use hl c2 in \<open>simp add: fold16_def\<close>)
  have "(ucast (NOT c2) :: u16) = - 1 - ucast c2"
  proof -
    have "(ucast (NOT c2) :: u16) = NOT (ucast c2)" by (rule bit_word_eqI) (auto simp: bit_simps)
    then show ?thesis by (simp add: not_eq_complement)
  qed
  then have "unat (ucast (NOT c2) :: u16) = 65535 - unat c2 mod 65536"
    by (simp add: unat_sub unsigned_ucast_eq take_bit_eq_mod unsigned_minus_1_eq_mask mask_eq_exp_minus_1)
  then show ?thesis by (simp add: checksum_finish_def c1_def [symmetric] c2_def [symmetric] f)
qed

text \<open>A sum that includes the checksum folds to all ones, so its own checksum is zero.\<close>

lemma fold16_verifies: "fold16 (n + (65535 - fold16 n)) = 65535"
proof (cases "n = 0")
  case False
  define q r where "q = (n - 1) div 65535" and "r = (n - 1) mod 65535"
  have n: "n = 65535 * q + r + 1" "r < 65535"
    using False by (auto simp: q_def r_def)
  then have "fold16 n = r + 1" by (simp add: fold16_def r_def [symmetric])
  then have "n + (65535 - fold16 n) - 1 = 65534 + 65535 * q" using n by simp
  then have "(n + (65535 - fold16 n) - 1) mod 65535 = 65534" by (simp only: mod_mult_self2) simp
  with False show ?thesis by (simp add: fold16_def)
qed (simp add: fold16_def)

definition checksum_valid :: "u32 \<Rightarrow> bool" where
  "checksum_valid c \<longleftrightarrow> (ucast (checksum_finish c) :: u16) = 0"

lemma checksum_verifies:
  assumes "unat c' = unat c + unat (ucast (checksum_finish c) :: u16)"
  shows "checksum_valid c'"
proof -
  have "unat (ucast (checksum_finish c') :: u16) = 0"
    using unat_checksum_finish [of c'] unat_checksum_finish [of c] assms fold16_verifies [of "unat c"] by simp
  then show ?thesis by (simp add: checksum_valid_def unat_eq_0)
qed

lemma ipv4_word_sum: "word_sum (ipv4_bytes (h\<lparr>ip_checksum := k\<rparr>)) = word_sum (ipv4_bytes (h\<lparr>ip_checksum := 0\<rparr>)) + unat k"
proof -
  have "word_sum (ipv4_bytes (h\<lparr>ip_checksum := x\<rparr>)) =
      word_sum ([ip_ver_ihl h, ip_dscp_ecn h] @ le16 (ip_len h) @ le16 (ip_id h) @ le16 (ip_flags_frag_off h) @ [ip_ttl h, ip_proto h]) +
      unat x + word_sum (le32 (ip_src_addr h) @ le32 (ip_dst_addr h))" for x
    unfolding ipv4_bytes_def
    using word_sum_append [of "[ip_ver_ihl h, ip_dscp_ecn h] @ le16 (ip_len h) @ le16 (ip_id h) @ le16 (ip_flags_frag_off h) @ [ip_ttl h, ip_proto h]"
        "le16 x @ le32 (ip_src_addr h) @ le32 (ip_dst_addr h)"]
      word_sum_append [of "le16 x" "le32 (ip_src_addr h) @ le32 (ip_dst_addr h)"]
    by simp
  from this [of k] this [of 0] show ?thesis by simp
qed

lemma ipv4_checksum_valid:
  assumes "ip_checksum h = 0"
  shows "checksum_valid (checksum_update 0 (ipv4_bytes (h\<lparr>ip_checksum := ucast (checksum_finish (checksum_update 0 (ipv4_bytes h)))\<rparr>)))"
proof (rule checksum_verifies)
  have h: "h\<lparr>ip_checksum := 0\<rparr> = h" using assms by simp
  have "word_sum (ipv4_bytes h) \<le> 655350"
    using word_sum_bound [of "ipv4_bytes h"] by (simp add: kconst)
  then show "unat (checksum_update 0 (ipv4_bytes (h\<lparr>ip_checksum := ucast (checksum_finish (checksum_update 0 (ipv4_bytes h)))\<rparr>)))
    = unat (checksum_update 0 (ipv4_bytes h)) + unat (ucast (checksum_finish (checksum_update 0 (ipv4_bytes h))) :: u16)"
    using ipv4_word_sum [of "ucast (checksum_finish (checksum_update 0 (ipv4_bytes h)))" h]
      unat_bound [of "ucast (checksum_finish (checksum_update 0 (ipv4_bytes h))) :: u16"] \<open>word_sum (ipv4_bytes h) \<le> 655350\<close>
    by (simp add: checksum_update_sum h)
qed

end
