(* ===== verification/Net_Deliver.thy ===== *)
theory Net_Deliver
  imports Net_Inv Net_Packet
begin

text \<open>
  What leaves one network server and arrives at another: the frame an outgoing packet becomes, and
  what the incoming path makes of it.
\<close>

section \<open>Sending\<close>

definition next_hop :: "nat \<Rightarrow> ipaddr_t \<Rightarrow> net \<Rightarrow> u32" where
  "next_hop d dst s =
     (if v4 dst \<noteq> IPV4_ADDR_BROADCAST \<and> device_dst_is_gateway d dst s
      then v4 (dv_gateway (n_devices s d)) else v4 dst)"

text \<open>A device that can send to a destination now: its driver is there and the hardware address of the
  next hop is known.\<close>

definition can_send :: "nat \<Rightarrow> ipaddr_t \<Rightarrow> u8 list \<Rightarrow> net \<Rightarrow> bool" where
  "can_send d dst mac s \<longleftrightarrow>
     map_option fst (arp_resolve d (next_hop d dst s) s) = Some (Some mac) \<and> length mac = MACADDR_LEN \<and>
     length (dv_macaddr (n_devices s d)) = MACADDR_LEN \<and> dv_arg (n_devices s d) < length (n_drivers s)"

definition driver_of :: "nat \<Rightarrow> net \<Rightarrow> task_t" where
  "driver_of d s = dr_tid (n_drivers s ! dv_arg (n_devices s d))"

lemma mbuf_new_short:
  assumes "length p \<le> MBUF_MAX_LEN"
  obtains b where "mbuf_new junk p = Some [b]" "mb_ok b" "mb_bytes b = p"
proof -
  obtain m where m: "mbuf_new junk p = Some m" "chain_ok m" "bytes m = p" by (rule mbuf_newE)
  moreover have "length m = 1"
    using assms m(1) by (subst (asm) mbuf_new.simps) (auto simp: mb_store_def mbuf_alloc_def Let_def bind_Some_eq split: if_splits)
  then obtain b where "m = [b]" by (auto simp: length_Suc_conv)
  ultimately show thesis using that by (simp add: chain_ok_def)
qed

lemma transmit_sends:
  assumes "chain_ok pkt" "length (bytes pkt) \<le> 2048" "dv_arg (n_devices s d) < length (n_drivers s)"
  shows "transmit d pkt s = Some (net_call (Async_send (driver_of d s) (NET_TX_MSG (bytes pkt))) s)"
proof -
  obtain m where "mbuf_read pkt (length (bytes pkt)) = Some (take (length (bytes pkt)) (bytes pkt), m)"
    by (rule mbuf_readE [OF assms(1)])
  then show ?thesis
    using assms chain_okD [OF assms(1)] by (simp add: transmit_def Let_def driver_of_def)
qed

text \<open>Looking an address up changes at most the time its entry was used.\<close>

lemma arp_resolve_frame:
  assumes "arp_resolve d a s = Some (r, s')"
  shows "\<exists>t. s' = upd_dev d (\<lambda>v. v\<lparr>dv_arp_table := t\<rparr>) s"
proof -
  have "s = upd_dev d (\<lambda>v. v\<lparr>dv_arp_table := dv_arp_table (n_devices s d)\<rparr>) s" by (simp add: upd_dev_def)
  then have *: "\<exists>t. s = upd_dev d (\<lambda>v. v\<lparr>dv_arp_table := t\<rparr>) s" by blast
  with assms show ?thesis
    by (auto simp: arp_resolve_def Let_def set_arp_def split: if_splits option.splits)
qed

lemma ethernet_transmit_sends:
  assumes "can_send d dst mac s" "chain_ok payload" "length (bytes payload) \<le> 2034"
  shows "\<exists>t. ethernet_transmit env d ty dst payload s =
    Some (net_call (Async_send (driver_of d s) (NET_TX_MSG
      (ethernet_bytes \<lparr>eth_dst = mac, eth_src = dv_macaddr (n_devices s d), eth_type = hton16 ty\<rparr> @ bytes payload)))
      (upd_dev d (\<lambda>v. v\<lparr>dv_arp_table := t\<rparr>) s))"
proof -
  let ?h = "\<lparr>eth_dst = mac, eth_src = dv_macaddr (n_devices s d), eth_type = hton16 ty\<rparr>"
  from assms(1) obtain s1 where r: "arp_resolve d (next_hop d dst s) s = Some (Some mac, s1)"
    and l: "length mac = MACADDR_LEN" "length (dv_macaddr (n_devices s d)) = MACADDR_LEN"
      "dv_arg (n_devices s d) < length (n_drivers s)"
    by (auto simp: can_send_def)
  obtain t where s1: "s1 = upd_dev d (\<lambda>v. v\<lparr>dv_arp_table := t\<rparr>) s" using arp_resolve_frame [OF r] by blast
  have hl: "length (ethernet_bytes ?h) = ETH_HDR_LEN" using l by simp
  obtain b where b: "mbuf_new (ne_junk env) (ethernet_bytes ?h) = Some [b]" "mb_ok b" "mb_bytes b = ethernet_bytes ?h"
    by (rule mbuf_new_short [of "ethernet_bytes ?h" "ne_junk env"]) (use hl in \<open>simp_all add: kconst\<close>)
  have "chain_ok (b # payload)" using b assms(2) by (simp add: chain_ok_def)
  then have "transmit d (b # payload) s1 =
      Some (net_call (Async_send (driver_of d s) (NET_TX_MSG (ethernet_bytes ?h @ bytes payload))) s1)"
    using transmit_sends [of "b # payload" s1 d] b(3) assms(3) hl l by (simp add: s1 driver_of_def kconst)
  then show ?thesis
    using r b l by (subst ethernet_transmit.simps)
      (auto simp: next_hop_def [symmetric] Let_def mbuf_prepend_one s1 simp del: split_paired_All)
qed

text \<open>The header of an outgoing packet.\<close>

definition ipv4_out :: "u32 \<Rightarrow> u32 \<Rightarrow> u8 \<Rightarrow> nat \<Rightarrow> ipv4_header" where
  "ipv4_out src dst proto n =
     (let header = \<lparr>ip_ver_ihl = 0x45, ip_dscp_ecn = 0, ip_len = hton16 (of_nat (IPV4_HDR_LEN + n)), ip_id = 0,
        ip_flags_frag_off = 0, ip_ttl = DEFAULT_TTL, ip_proto = proto, ip_checksum = 0,
        ip_src_addr = hton32 src, ip_dst_addr = hton32 dst\<rparr>
      in header\<lparr>ip_checksum := ucast (checksum_finish (checksum_update 0 (ipv4_bytes header)))\<rparr>)"

definition eth_out :: "nat \<Rightarrow> u8 list \<Rightarrow> net \<Rightarrow> ethernet_header" where
  "eth_out d mac s = \<lparr>eth_dst = mac, eth_src = dv_macaddr (n_devices s d), eth_type = hton16 ETHER_TYPE_IPV4\<rparr>"

lemma ipv4_transmit_sends:
  assumes "device_lookup (ipv4 dst) s = Some d" "can_send d (ipv4 dst) mac s" "chain_ok payload" "length (bytes payload) \<le> 2014"
  shows "\<exists>t. ipv4_transmit env dst proto payload s =
    Some (net_call (Async_send (driver_of d s) (NET_TX_MSG (ethernet_bytes (eth_out d mac s) @
        ipv4_bytes (ipv4_out (v4 (dv_ipaddr (n_devices s d))) dst proto (length (bytes payload))) @ bytes payload)))
      (upd_dev d (\<lambda>v. v\<lparr>dv_arp_table := t\<rparr>) s))"
proof -
  let ?h = "ipv4_out (v4 (dv_ipaddr (n_devices s d))) dst proto (length (bytes payload))"
  obtain b where b: "mbuf_new (ne_junk env) (ipv4_bytes ?h) = Some [b]" "mb_ok b" "mb_bytes b = ipv4_bytes ?h"
    by (rule mbuf_new_short [of "ipv4_bytes ?h" "ne_junk env"]) (simp_all add: kconst)
  have c: "chain_ok (b # payload)" using b assms(3) by (simp add: chain_ok_def)
  have "ipv4_transmit env dst proto payload s = ethernet_transmit env d ETHER_TYPE_IPV4 (ipv4 dst) (b # payload) s"
    using assms(1) b(1) chain_okD [OF assms(3)]
    by (simp add: ipv4_transmit_def ipv4_out_def Let_def mbuf_prepend_one)
  with ethernet_transmit_sends [OF assms(2) c, of env ETHER_TYPE_IPV4] assms(4) b(3) show ?thesis
    by (simp add: eth_out_def kconst)
qed

section \<open>Receiving\<close>

lemma ipv4_receive_packet:
  assumes "chain_ok m" "bytes m = ipv4_bytes (ipv4_out src dst proto (length data)) @ data" "length data \<le> 2014"
    and "is_our_ipaddr d dst s"
  obtains m' where "chain_ok m'" "bytes m' = data"
    "ipv4_receive env d m s =
       (if proto = IPV4_PROTO_UDP then udp_receive d (ipv4 src) m' s
        else if proto = IPV4_PROTO_TCP then tcp_receive env (ipv4 dst) (ipv4 src) m' s
        else if proto = IPV4_PROTO_ICMP then icmp_receive (ipv4 dst) (ipv4 src) m' s
        else Some s)"
proof -
  let ?h = "ipv4_out src dst proto (length data)"
  obtain m1 where m1: "mbuf_read m IPV4_HDR_LEN = Some (ipv4_bytes ?h, m1)" "chain_ok m1" "bytes m1 = data"
    by (rule mbuf_readE [OF assms(1), of IPV4_HDR_LEN]) (simp add: assms(2))
  let ?t = "mbuf_truncate m1 (length data)"
  have t: "chain_ok ?t" "bytes ?t = data"
    using mbuf_truncate_bytes [of m1 "length data"] m1(2,3) by (auto simp: chain_ok_def)
  have "unat (of_nat (IPV4_HDR_LEN + length data) :: u16) = IPV4_HDR_LEN + length data"
    using assms(3) by (simp add: unat_of_nat kconst del: of_nat_add)
  then have "ipv4_receive env d m s =
       (if proto = IPV4_PROTO_UDP then udp_receive d (ipv4 src) ?t s
        else if proto = IPV4_PROTO_TCP then tcp_receive env (ipv4 dst) (ipv4 src) ?t s
        else if proto = IPV4_PROTO_ICMP then icmp_receive (ipv4 dst) (ipv4 src) ?t s
        else Some s)"
    using m1(1) assms(4) chain_okD [OF t(1)] t(2)
    by (simp add: ipv4_receive_def ipv4_out_def Let_def kconst)
  with t that show thesis by blast
qed

lemma ipv4_v4 [simp]: "ipv4 (v4 a) = a"
  by (cases a) (use ip_type_V4 [symmetric] in \<open>auto simp: ipv4_def simp del: ip_type_V4\<close>)

lemma endpoint_eta [simp]: "\<lparr>ep_addr = ep_addr e, ep_port = ep_port e\<rparr> = e"
  by simp

lemma ipv4_receive_udp:
  assumes "chain_ok m" "bytes m = ipv4_bytes (ipv4_out (v4 src) dst IPV4_PROTO_UDP (length data)) @ data" "length data \<le> 2014"
    and "is_our_ipaddr d dst s"
  obtains m' where "chain_ok m'" "bytes m' = data" "ipv4_receive env d m s = udp_receive d src m' s"
  by (rule ipv4_receive_packet [OF assms, of env]) (simp only: refl if_True ipv4_v4)

lemma ipv4_receive_tcp:
  assumes "chain_ok m" "bytes m = ipv4_bytes (ipv4_out (v4 src) (v4 dst) IPV4_PROTO_TCP (length data)) @ data" "length data \<le> 2014"
    and "is_our_ipaddr d (v4 dst) s"
  obtains m' where "chain_ok m'" "bytes m' = data" "ipv4_receive env d m s = tcp_receive env dst src m' s"
proof -
  have "IPV4_PROTO_TCP \<noteq> IPV4_PROTO_UDP" by (simp add: kconst)
  then show thesis
    by - (rule ipv4_receive_packet [OF assms, of env], rule that, assumption, assumption, simp only: refl if_True if_False ipv4_v4)
qed

lemma ethernet_receive_ipv4:
  assumes "can_send d dst mac s"
  obtains m where "chain_ok m" "bytes m = data"
    "ethernet_receive env d' (ethernet_bytes (eth_out d mac s) @ data) r = ipv4_receive env d' m r"
proof -
  let ?h = "eth_out d mac s"
  have hl: "length (ethernet_bytes ?h) = ETH_HDR_LEN" using assms by (simp add: can_send_def eth_out_def)
  obtain m where m: "mbuf_new (ne_junk env) (ethernet_bytes ?h @ data) = Some m" "chain_ok m" "bytes m = ethernet_bytes ?h @ data"
    by (rule mbuf_newE)
  obtain m1 where m1: "mbuf_read m ETH_HDR_LEN = Some (ethernet_bytes ?h, m1)" "chain_ok m1" "bytes m1 = data"
    by (rule mbuf_readE [OF m(2), of ETH_HDR_LEN]) (simp add: m(3) hl)
  have "ethernet_receive env d' (ethernet_bytes ?h @ data) r = ipv4_receive env d' m1 r"
    using m(1) m1(1) hl assms by (simp add: ethernet_receive_def ethernet_of_bytes can_send_def eth_out_def Let_def kconst)
  with m1 that show thesis by blast
qed

section \<open>Datagrams\<close>

lemma device_lookup_upd [simp]:
  "device_lookup a (upd_udp i f s) = device_lookup a s" "device_lookup a (upd_tcp j g s) = device_lookup a s"
  by (simp_all add: device_lookup_def split: option.split)

lemma can_send_upd [simp]:
  "can_send d a mac (upd_udp i f s) = can_send d a mac s" "can_send d a mac (upd_tcp j g s) = can_send d a mac s"
  by (simp_all add: can_send_def next_hop_def device_dst_is_gateway_def arp_resolve_def Let_def set_arp_def
      option.map_comp o_def split: option.splits)

lemma out_upd [simp]:
  "eth_out d mac (upd_udp i f s) = eth_out d mac s" "eth_out d mac (upd_tcp j g s) = eth_out d mac s"
  "driver_of d (upd_udp i f s) = driver_of d s" "driver_of d (upd_tcp j g s) = driver_of d s"
  by (simp_all add: eth_out_def driver_of_def)

lemma udp_transmit_sends:
  assumes "us_tx (n_udp s i) = [dg]" "device_lookup (dg_addr dg) s = Some d" "can_send d (dg_addr dg) mac s"
    and "chain_ok (dg_payload dg)" "length (bytes (dg_payload dg)) \<le> 2006"
  shows "\<exists>t c. udp_transmit env i s =
    Some (net_call (Async_send (driver_of d s) (NET_TX_MSG (ethernet_bytes (eth_out d mac s) @
        ipv4_bytes (ipv4_out (v4 (dv_ipaddr (n_devices s d))) (v4 (dg_addr dg)) IPV4_PROTO_UDP (UDP_HDR_LEN + length (bytes (dg_payload dg)))) @
        udp_bytes \<lparr>udp_src_port = hton16 (ep_port (us_local (n_udp s i))), udp_dst_port = hton16 (dg_port dg),
          udp_len = hton16 (of_nat (UDP_HDR_LEN + length (bytes (dg_payload dg)))), udp_checksum = c\<rparr> @ bytes (dg_payload dg))))
      (upd_dev d (\<lambda>v. v\<lparr>dv_arp_table := t\<rparr>) (upd_udp i (\<lambda>k. k\<lparr>us_tx := []\<rparr>) s)))"
proof -
  let ?s = "upd_udp i (\<lambda>k. k\<lparr>us_tx := []\<rparr>) s"
  let ?h = "\<lambda>c. \<lparr>udp_src_port = hton16 (ep_port (us_local (n_udp s i))), udp_dst_port = hton16 (dg_port dg),
          udp_len = hton16 (of_nat (UDP_HDR_LEN + length (bytes (dg_payload dg)))), udp_checksum = c\<rparr>"
  have l: "mbuf_len (dg_payload dg) = length (bytes (dg_payload dg))" using chain_okD [OF assms(4)] by simp
  obtain c where t: "udp_transmit env i s = do {
      pkt \<leftarrow> mbuf_new (ne_junk env) (udp_bytes (?h c));
      pkt \<leftarrow> mbuf_prepend (dg_payload dg) pkt;
      ipv4_transmit env (v4 (dg_addr dg)) IPV4_PROTO_UDP pkt ?s }"
    using assms(1,2) by (simp add: udp_transmit_def Let_def l)
  obtain b where b: "mbuf_new (ne_junk env) (udp_bytes (?h c)) = Some [b]" "mb_ok b" "mb_bytes b = udp_bytes (?h c)"
    by (rule mbuf_new_short [of "udp_bytes (?h c)" "ne_junk env"]) (simp_all add: kconst)
  have "chain_ok (b # dg_payload dg)" "length (bytes (b # dg_payload dg)) \<le> 2014"
    using b assms(4,5) by (simp_all add: chain_ok_def kconst)
  from ipv4_transmit_sends [where s = ?s and d = d and mac = mac and dst = "v4 (dg_addr dg)" and proto = IPV4_PROTO_UDP and env = env,
      OF _ _ this] assms(2,3) b show ?thesis
    by (auto simp: t mbuf_prepend_one kconst)
qed

lemma udp_receive_datagram:
  assumes "chain_ok m" "bytes m = udp_bytes h @ data" "udp_lookup (ntoh16 (udp_dst_port h)) s = Some i"
  obtains m' where "chain_ok m'" "bytes m' = data"
    "udp_receive d src m s = Some (upd_udp i (\<lambda>k. k\<lparr>us_rx := us_rx k @
       [\<lparr>dg_addr = src, dg_port = ntoh16 (udp_dst_port h), dg_payload = m', dg_device = Some d\<rparr>]\<rparr>) s)"
proof -
  obtain m' where "mbuf_read m UDP_HDR_LEN = Some (udp_bytes h, m')" "chain_ok m'" "bytes m' = data"
    by (rule mbuf_readE [OF assms(1), of UDP_HDR_LEN]) (simp add: assms(2))
  with that assms(3) show thesis by (simp add: udp_receive_def Let_def)
qed

section \<open>Segments\<close>

text \<open>A connection that has data to send and nothing to wait for.\<close>

definition sends_data :: "nat \<Rightarrow> mbuf_t \<Rightarrow> net \<Rightarrow> bool" where
  "sends_data i tx s \<longleftrightarrow>
     sk_state (n_tcp s i) = TCP_STATE_ESTABLISHED \<and> sk_retransmit_at (n_tcp s i) = 0 \<and>
     sk_pendings (n_tcp s i) AND TCP_PEND_FIN = 0 \<and> sk_tx_buf (n_tcp s i) = Some tx \<and>
     chain_ok tx \<and> list_all (\<lambda>b. mb_offset b = 0) tx \<and> 0 < length (bytes tx) \<and> length (bytes tx) \<le> 1994 \<and>
     length (bytes tx) \<le> unat (sk_remote_winsize (n_tcp s i)) \<and> sys_uptime s + TCP_RXT_MAX_TIMEOUT \<le> MSEC_MAX"

lemma rxt_timeout_bound: "msec_add t (min TCP_RXT_MAX_TIMEOUT x) = Some (t + min TCP_RXT_MAX_TIMEOUT x)" if "t + TCP_RXT_MAX_TIMEOUT \<le> MSEC_MAX"
  using that by (simp add: msec_add_def min_def)

lemma pending_no_fin: "p AND TCP_PEND_FIN = 0 \<Longrightarrow> (((TCP_ACK OR TCP_PSH) OR pending_flags p)) AND TCP_FIN = 0"
  by (auto simp: pending_flags_def kconst)

lemma tcp_transmit_sends:
  assumes "sends_data i tx s" "device_lookup (ep_addr (sk_remote (n_tcp s i))) s = Some d"
    "can_send d (ep_addr (sk_remote (n_tcp s i))) mac s"
  obtains s' h where "tcp_transmit env i s = Some s'"
    "n_calls s' = n_calls s @ [Async_send (driver_of d s) (NET_TX_MSG (ethernet_bytes (eth_out d mac s) @
        ipv4_bytes (ipv4_out (v4 (dv_ipaddr (n_devices s d))) (v4 (ep_addr (sk_remote (n_tcp s i)))) IPV4_PROTO_TCP (TCP_HDR_LEN + length (bytes tx))) @
        tcp_bytes h @ bytes tx))]"
    "th_src_port h = hton16 (ep_port (sk_local (n_tcp s i)))" "th_dst_port h = hton16 (ep_port (sk_remote (n_tcp s i)))"
    "th_seqno h = hton32 (sk_next_seqno (n_tcp s i))" "th_off_and_ns h = push_bit 4 5" "th_flags h AND TCP_FIN = 0"
proof -
  let ?k = "n_tcp s i"
  let ?fl = "(TCP_ACK OR TCP_PSH) OR pending_flags (sk_pendings ?k)"
  note sd = assms(1) [unfolded sends_data_def]
  obtain pl where pl: "mbuf_peek (ne_junk env) tx (unat (sk_remote_winsize ?k)) = Some pl" "chain_ok pl" "bytes pl = bytes tx"
    using mbuf_peek_bytes [of tx "ne_junk env" "unat (sk_remote_winsize ?k)"] sd by (auto simp: chain_ok_def)
  have ln: "mbuf_len pl = length (bytes tx)" "pl \<noteq> []" using chain_okD [OF pl(2)] pl(2,3) by (simp_all add: chain_ok_def)
  define s1 where "s1 = (let s = upd_tcp i (\<lambda>k. k\<lparr>sk_pendings := 0\<rparr>) s in
    if sk_last_seqno ?k = sk_next_seqno ?k then upd_tcp i (\<lambda>k. k\<lparr>sk_num_retransmits := sk_num_retransmits k + 1\<rparr>) s else s)"
  have s1: "segment_header (n_tcp s1 i) f = segment_header ?k f" "sk_remote (n_tcp s1 i) = sk_remote ?k" "n_devices s1 = n_devices s"
    "n_calls s1 = n_calls s" "n_uptime s1 = n_uptime s" "driver_of d s1 = driver_of d s" "eth_out d mac s1 = eth_out d mac s"
    "device_lookup a s1 = device_lookup a s" "can_send d a mac s1 = can_send d a mac s" for f a
    by (simp_all add: s1_def Let_def segment_header_def)
  have seg: "segment_to_send env i (upd_tcp i (\<lambda>k. k\<lparr>sk_pendings := 0\<rparr>) s) = Some (pl, TCP_ACK OR TCP_PSH, s1)"
    using sd pl(1) ln by (simp add: segment_to_send_def Let_def s1_def)
  have fl: "?fl \<noteq> 0" by (auto simp: pending_flags_def kconst)
  define h where "h = (segment_header ?k ?fl)\<lparr>th_checksum := ucast (checksum_finish (segment_checksum pl (segment_header ?k ?fl)
      (v4 (ep_addr (sk_remote ?k))) (v4 (dv_ipaddr (n_devices s d)))))\<rparr>"
  obtain b where b: "mbuf_new (ne_junk env) (tcp_bytes h) = Some [b]" "mb_ok b" "mb_bytes b = tcp_bytes h"
    by (rule mbuf_new_short [of "tcp_bytes h" "ne_junk env"]) (simp_all add: kconst)
  have c: "chain_ok (b # pl)" "length (bytes (b # pl)) \<le> 2014"
    using b pl(2,3) sd by (simp_all add: chain_ok_def kconst)
  let ?r = "ep_addr (sk_remote ?k)"
  obtain t where t: "ipv4_transmit env (v4 ?r) IPV4_PROTO_TCP (b # pl) s1 =
    Some (net_call (Async_send (driver_of d s) (NET_TX_MSG (ethernet_bytes (eth_out d mac s) @
        ipv4_bytes (ipv4_out (v4 (dv_ipaddr (n_devices s d))) (v4 ?r) IPV4_PROTO_TCP (TCP_HDR_LEN + length (bytes tx))) @
        tcp_bytes h @ bytes tx))) (upd_dev d (\<lambda>v. v\<lparr>dv_arp_table := t\<rparr>) s1))" (is "_ = Some ?s2")
    using ipv4_transmit_sends [where s = s1 and d = d and mac = mac and dst = "v4 ?r" and proto = IPV4_PROTO_TCP and env = env, OF _ _ c]
      assms(2,3) b(3) pl(3) by (auto simp: s1)
  define t1 where "t1 = sys_uptime s + min TCP_RXT_MAX_TIMEOUT (TCP_RXT_INITIAL_TIMEOUT * 2 ^ min (unat (sk_num_retransmits (n_tcp s1 i))) 8)"
  have "tcp_transmit env i s = Some (upd_tcp i (\<lambda>k. k\<lparr>sk_retransmit_at := t1, sk_last_seqno := sk_next_seqno k\<rparr>) ?s2)"
    using sd seg fl b(1) t assms(2) ln
    by (simp add: tcp_transmit_def tcp_clear_pendings_def Let_def s1 h_def [symmetric] mbuf_append_def rxt_timeout_bound sys_uptime_def t1_def)
  then show thesis
    by (rule that [where h = h]) (use sd pending_no_fin in \<open>auto simp: s1 h_def segment_header_def\<close>)
qed


text \<open>A connection that expects the segment with a given sequence number and has room for it.\<close>

definition expects :: "nat \<Rightarrow> u32 \<Rightarrow> nat \<Rightarrow> mbuf_t \<Rightarrow> net \<Rightarrow> bool" where
  "expects j seq n rx r \<longleftrightarrow>
     sk_state (n_tcp r j) = TCP_STATE_ESTABLISHED \<and> sk_last_ack (n_tcp r j) = seq \<and> sk_rx_buf (n_tcp r j) = Some rx \<and>
     chain_ok rx \<and> (\<exists>tx. sk_tx_buf (n_tcp r j) = Some tx \<and> chain_ok tx) \<and> n \<le> unat (sk_local_winsize (n_tcp r j))"

lemma process_ack_returns:
  assumes "\<exists>tx. sk_tx_buf (n_tcp s i) = Some tx \<and> chain_ok tx"
  obtains w tx q where "process_ack i ack win s =
    Some (upd_tcp i (\<lambda>k. k\<lparr>sk_remote_winsize := w, sk_tx_buf := tx, sk_next_seqno := q\<rparr>) s)"
proof -
  from assms obtain tx where tx: "sk_tx_buf (n_tcp s i) = Some tx" "chain_ok tx" by blast
  let ?n = "unat (ack - sk_next_seqno (n_tcp s i))"
  obtain tx' where d: "mbuf_discard tx ?n = Some (min ?n (length (bytes tx)), tx')" by (rule mbuf_discardE [OF tx(2)])
  show thesis
  proof (cases "sk_state (n_tcp s i) = TCP_STATE_ESTABLISHED \<and> ack \<noteq> sk_next_seqno (n_tcp s i)")
    case True
    with tx(1) d show thesis
      by (intro that [of ack "Some tx'" "ntoh32 (ucast win)"]) (simp add: process_ack_def Let_def word_gt_0 upd_tcp_def)
  next
    case False
    with tx(1) show thesis
      by (intro that [of "sk_next_seqno (n_tcp s i)" "sk_tx_buf (n_tcp s i)" "ntoh32 (ucast win)"]) (cases "n_tcp s i", auto simp: process_ack_def Let_def upd_tcp_def)
  qed
qed

lemma tcp_process_data:
  assumes "expects j (ntoh32 (th_seqno h)) (length (bytes pl)) rx r" "chain_ok pl" "0 < length (bytes pl)" "th_flags h AND TCP_FIN = 0"
  obtains r' where "tcp_process env j src port h pl r = Some r'"
    "sk_rx_buf (n_tcp r' j) = Some (rx @ pl)" "sk_last_ack (n_tcp r' j) = ntoh32 (th_seqno h) + of_nat (length (bytes pl))"
    "sk_state (n_tcp r' j) = TCP_STATE_ESTABLISHED" "sk_local (n_tcp r' j) = sk_local (n_tcp r j)"
    "sk_remote (n_tcp r' j) = sk_remote (n_tcp r j)" "n_tcp_active r' = n_tcp_active r" "n_devices r' = n_devices r"
    "\<forall>i. i \<noteq> j \<longrightarrow> n_tcp r' i = n_tcp r i"
proof -
  note ex = assms(1) [unfolded expects_def]
  obtain w tx q where a: "process_ack j (ntoh32 (th_ackno h)) (th_win_size h) r =
      Some (upd_tcp j (\<lambda>k. k\<lparr>sk_remote_winsize := w, sk_tx_buf := tx, sk_next_seqno := q\<rparr>) r)"
    using ex by (blast intro: process_ack_returns)
  have "mbuf_append rx pl = Some (rx @ pl)" using mbuf_append_ok ex assms(2) by blast
  then have "tcp_process env j src port h pl r =
      (let r1 = upd_tcp j (\<lambda>k. k\<lparr>sk_remote_winsize := w, sk_tx_buf := tx, sk_next_seqno := q, sk_pendings := sk_pendings k OR TCP_PEND_ACK,
          sk_rx_buf := Some (rx @ pl), sk_last_ack := sk_last_ack k + of_nat (length (bytes pl)),
          sk_local_winsize := sk_local_winsize k - of_nat (length (bytes pl))\<rparr>) r
       in Some (case sk_client (n_tcp r j) of None \<Rightarrow> r1
          | Some c \<Rightarrow> net_call (Async_send (cl_task c) (TCPIP_RECEIVED_MSG (cl_handle c))) r1))"
    using ex assms(3,4) a chain_okD [OF assms(2)]
    by (auto simp: tcp_process_def process_state_def process_established_def sys_process_event_def
        tcp_set_pendings_def upd_tcp_def net_call_def Let_def split: option.splits)
  then show thesis
    unfolding Let_def by (rule that) (use ex in \<open>auto split: option.split\<close>)
qed

lemma tcp_receive_segment:
  assumes "chain_ok m" "bytes m = tcp_bytes h @ data" "th_off_and_ns h = push_bit 4 5"
    and "tcp_lookup \<lparr>ep_addr = dst, ep_port = ntoh16 (th_dst_port h)\<rparr> \<lparr>ep_addr = src, ep_port = ntoh16 (th_src_port h)\<rparr> s = Some j"
  obtains m' where "chain_ok m'" "bytes m' = data"
    "tcp_receive env dst src m s = tcp_process env j src (ntoh16 (th_src_port h)) h m' s"
proof -
  obtain m' where "mbuf_read m TCP_HDR_LEN = Some (tcp_bytes h, m')" "chain_ok m'" "bytes m' = data"
    by (rule mbuf_readE [OF assms(1), of TCP_HDR_LEN]) (simp add: assms(2))
  with that assms(3,4) show thesis by (simp add: tcp_receive_def Let_def kconst)
qed

text \<open>A segment in a frame reaches the connection it is for.\<close>

lemma tcp_frame_received:
  assumes "can_send d dst mac s" "is_our_ipaddr d' (v4 dst) r" "length data \<le> 1994" "th_off_and_ns h = push_bit 4 5"
    and "tcp_lookup \<lparr>ep_addr = dst, ep_port = ntoh16 (th_dst_port h)\<rparr> \<lparr>ep_addr = src, ep_port = ntoh16 (th_src_port h)\<rparr> r = Some j"
  obtains m where "chain_ok m" "bytes m = data"
    "ethernet_receive env d' (ethernet_bytes (eth_out d mac s) @
       ipv4_bytes (ipv4_out (v4 src) (v4 dst) IPV4_PROTO_TCP (TCP_HDR_LEN + length data)) @ tcp_bytes h @ data) r =
     tcp_process env j src (ntoh16 (th_src_port h)) h m r"
proof -
  let ?ip = "ipv4_bytes (ipv4_out (v4 src) (v4 dst) IPV4_PROTO_TCP (TCP_HDR_LEN + length data))"
  obtain m where m: "chain_ok m" "bytes m = ?ip @ tcp_bytes h @ data"
    "ethernet_receive env d' (ethernet_bytes (eth_out d mac s) @ ?ip @ tcp_bytes h @ data) r = ipv4_receive env d' m r"
    by (rule ethernet_receive_ipv4 [OF assms(1)])
  obtain m1 where m1: "chain_ok m1" "bytes m1 = tcp_bytes h @ data" "ipv4_receive env d' m r = tcp_receive env dst src m1 r"
    by (rule ipv4_receive_tcp [OF m(1), of src dst "tcp_bytes h @ data" d' r env]) (use m(2) assms(2,3) in \<open>simp_all add: kconst\<close>)
  obtain m2 where "chain_ok m2" "bytes m2 = data" "tcp_receive env dst src m1 r = tcp_process env j src (ntoh16 (th_src_port h)) h m2 r"
    by (rule tcp_receive_segment [OF m1(1,2) assms(4,5)])
  with m(3) m1(3) show thesis by (intro that) simp_all
qed

end
