(* ===== verification/Net_Props.thy ===== *)
theory Net_Props
  imports Net_Deliver
begin

text \<open>
  What the network server promises: what is sent by one server arrives at another, the accounting of
  the receive window, validity of checksums, the end of the loops that drain datagrams, and the
  errors of the outgoing path.
\<close>

section \<open>Delivery\<close>

text \<open>C11: Bytes passed to \<^verbatim>\<open>udp_sendto\<close> and flushed leave as one frame to the driver. When a host that
  owns the destination address gets the frame, the next \<^verbatim>\<open>udp_recv\<close> of the socket bound to the port
  returns the same bytes.\<close>

theorem udp_datagram_delivered:
  assumes "device_lookup dst s = Some d" "can_send d dst mac s" "us_tx (n_udp s i) = []" "length data \<le> 2006"
    and "is_our_ipaddr d' (v4 dst) r" "udp_lookup port r = Some j" "us_rx (n_udp r j) = []"
  shows "returns (do { s \<leftarrow> udp_sendto env i dst port data s; udp_transmit env i s })
    (\<lambda>s'. \<exists>frame. n_calls s' = n_calls s @ [Async_send (driver_of d s) (NET_TX_MSG frame)] \<and> us_tx (n_udp s' i) = [] \<and>
      returns (do { r \<leftarrow> ethernet_receive env' d' frame r; udp_recv j n r })
        (\<lambda>((len, buf), r'). len = length data \<and> buf = take n data \<and> us_rx (n_udp r' j) = []))"
proof -
  obtain p where p: "mbuf_new (ne_junk env) data = Some p" "chain_ok p" "bytes p = data" by (rule mbuf_newE)
  let ?s = "udp_sendto_mbuf i dst port p s"
  obtain t c where t: "udp_transmit env i ?s =
    Some (net_call (Async_send (driver_of d s) (NET_TX_MSG (ethernet_bytes (eth_out d mac s) @
        ipv4_bytes (ipv4_out (v4 (dv_ipaddr (n_devices s d))) (v4 dst) IPV4_PROTO_UDP (UDP_HDR_LEN + length data)) @
        udp_bytes \<lparr>udp_src_port = hton16 (ep_port (us_local (n_udp s i))), udp_dst_port = hton16 port,
          udp_len = hton16 (of_nat (UDP_HDR_LEN + length data)), udp_checksum = c\<rparr> @ data)))
      (upd_dev d (\<lambda>v. v\<lparr>dv_arp_table := t\<rparr>) (upd_udp i (\<lambda>k. k\<lparr>us_tx := []\<rparr>) ?s)))" (is "_ = Some (net_call (Async_send _ (NET_TX_MSG (_ @ ?ip @ ?udp @ _))) _)")
    using udp_transmit_sends [of ?s i "\<lparr>dg_addr = dst, dg_port = port, dg_payload = p, dg_device = None\<rparr>" d mac env] assms p
    by (auto simp: udp_sendto_mbuf_def)
  obtain m where m: "chain_ok m" "bytes m = ?ip @ ?udp @ data"
    "ethernet_receive env' d' (ethernet_bytes (eth_out d mac s) @ ?ip @ ?udp @ data) r = ipv4_receive env' d' m r"
    by (rule ethernet_receive_ipv4 [OF assms(2)])
  obtain m1 where m1: "chain_ok m1" "bytes m1 = ?udp @ data"
    "ipv4_receive env' d' m r = udp_receive d' (dv_ipaddr (n_devices s d)) m1 r"
    by (rule ipv4_receive_udp [OF m(1), of "dv_ipaddr (n_devices s d)" "v4 dst" "?udp @ data" d' r env'])
      (use m(2) assms(4,5) in \<open>simp_all add: kconst\<close>)
  obtain m2 where m2: "chain_ok m2" "bytes m2 = data"
    "udp_receive d' (dv_ipaddr (n_devices s d)) m1 r = Some (upd_udp j (\<lambda>k. k\<lparr>us_rx := us_rx k @
       [\<lparr>dg_addr = dv_ipaddr (n_devices s d), dg_port = port, dg_payload = m2, dg_device = Some d'\<rparr>]\<rparr>) r)"
    by (rule udp_receive_datagram [OF m1(1,2), of r j]) (simp_all add: assms(6))
  obtain m3 where m3: "mbuf_read m2 n = Some (take n data, m3)" using mbuf_read_bytes [OF m2(1), of n] m2(2) by auto
  have "mbuf_len m2 = length data" using chain_okD [OF m2(1)] m2(2) by simp
  then show ?thesis
    using p(1) t m(3) m1(3) m2(3) m3 assms(7) by (simp add: udp_sendto_def udp_recv_def udp_recv_mbuf_def udp_sendto_mbuf_def)
qed



section \<open>Checksums\<close>

text \<open>C19: The header of every packet that leaves for a resolved destination passes the receiver's check:
  the sum over it, checksum included, folds to zero.\<close>

theorem ipv4_header_checksum:
  assumes "device_lookup (ipv4 dst) s = Some d" "can_send d (ipv4 dst) mac s" "chain_ok payload" "length (bytes payload) \<le> 2014"
  shows "returns (ipv4_transmit env dst proto payload s)
    (\<lambda>s'. \<exists>frame. n_calls s' = n_calls s @ [Async_send (driver_of d s) (NET_TX_MSG frame)] \<and>
      checksum_valid (checksum_update 0 (take IPV4_HDR_LEN (drop ETH_HDR_LEN frame))) \<and>
      drop (ETH_HDR_LEN + IPV4_HDR_LEN) frame = bytes payload)"
proof -
  let ?e = "ethernet_bytes (eth_out d mac s)" and ?i = "ipv4_bytes (ipv4_out (v4 (dv_ipaddr (n_devices s d))) dst proto (length (bytes payload)))"
  have "checksum_valid (checksum_update 0 ?i)" unfolding ipv4_out_def Let_def by (rule ipv4_checksum_valid) simp
  moreover have l: "length ?e = ETH_HDR_LEN" "length ?i = IPV4_HDR_LEN" using assms(2) by (simp_all add: eth_out_def can_send_def)
  then have "take IPV4_HDR_LEN (drop ETH_HDR_LEN (?e @ ?i @ bytes payload)) = ?i"
    "drop (ETH_HDR_LEN + IPV4_HDR_LEN) (?e @ ?i @ bytes payload) = bytes payload" by simp_all
  moreover note ipv4_transmit_sends [OF assms, of env proto]
  ultimately show ?thesis by auto
qed

section \<open>Connections\<close>

text \<open>C6: In every state the server reaches from zeroed memory, a socket in use has both buffers, the
  window it offers is exactly the room for the bytes not read yet, and its state is one of seven: the
  states of an active close are never entered. A free slot has no buffers; the list of active
  sockets has no duplicates and only sockets in use.\<close>

theorem receive_window_accounted:
  assumes "net_zeroed s0" "net_reachable s0 s"
  shows "(\<forall>i. if sk_in_use (n_tcp s i)
      then sk_state (n_tcp s i) \<in> set used_states \<and>
        (\<exists>rx tx. sk_rx_buf (n_tcp s i) = Some rx \<and> sk_tx_buf (n_tcp s i) = Some tx \<and> chain_ok rx \<and> chain_ok tx \<and>
          unat (sk_local_winsize (n_tcp s i)) + mbuf_len rx = TCP_RX_BUF_SIZE)
      else sk_rx_buf (n_tcp s i) = None \<and> sk_tx_buf (n_tcp s i) = None) \<and>
    distinct (n_tcp_active s) \<and> (\<forall>i \<in> set (n_tcp_active s). i < TCP_SOCKETS_MAX \<and> sk_in_use (n_tcp s i))"
proof -
  have t: "tinv s" by (rule net_reachable_tinv [OF assms(2,1)])
  then have "sock_ok (n_tcp s i)" for i by (simp add: tinv_def)
  then have "if sk_in_use (n_tcp s i)
      then sk_state (n_tcp s i) \<in> set used_states \<and>
        (\<exists>rx tx. sk_rx_buf (n_tcp s i) = Some rx \<and> sk_tx_buf (n_tcp s i) = Some tx \<and> chain_ok rx \<and> chain_ok tx \<and>
          unat (sk_local_winsize (n_tcp s i)) + mbuf_len rx = TCP_RX_BUF_SIZE)
      else sk_rx_buf (n_tcp s i) = None \<and> sk_tx_buf (n_tcp s i) = None" for i
    unfolding sock_ok_def using chain_okD by (metis (no_types, lifting))
  with t show ?thesis unfolding tinv_def by blast
qed

lemma unat_uminus32: "n \<noteq> 0 \<Longrightarrow> unat (- n :: u32) = 2 ^ 32 - unat n"
proof -
  assume "n \<noteq> 0"
  then have n: "0 < unat n" "unat n < 2 ^ 32" using unat_bound [of n] by (simp_all add: unat_gt_0)
  then have "- n = of_nat (2 ^ 32 - unat n)" by (simp add: of_nat_diff)
  with n show ?thesis by (simp only: unat_of_nat) simp
qed

text \<open>C38: An acknowledgement is not compared with what was sent: a segment of an established connection
  that acknowledges a byte before the first unacknowledged one throws away all data that waits to be
  sent and moves the sequence number back.\<close>

theorem old_ack_drops_data:
  assumes "sk_state (n_tcp s i) = TCP_STATE_ESTABLISHED" "sk_tx_buf (n_tcp s i) = Some tx" "chain_ok tx"
    and "length (bytes tx) + unat n \<le> 2 ^ 32" "n \<noteq> 0"
  shows "returns (process_ack i (sk_next_seqno (n_tcp s i) - n) win s)
    (\<lambda>s'. sk_next_seqno (n_tcp s' i) = sk_next_seqno (n_tcp s i) - n \<and>
      (\<exists>tx'. sk_tx_buf (n_tcp s' i) = Some tx' \<and> bytes tx' = []))"
proof -
  have "unat (- n) = 2 ^ 32 - unat n" using assms(5) by (rule unat_uminus32)
  moreover obtain tx' where "mbuf_discard tx (unat (- n)) = Some (min (unat (- n)) (length (bytes tx)), tx')"
    "bytes tx' = drop (unat (- n)) (bytes tx)"
    by (rule mbuf_discardE [OF assms(3), of "unat (- n)"])
  ultimately show ?thesis using assms by (simp add: process_ack_def Let_def word_gt_0)
qed

section \<open>Names\<close>











section \<open>Concrete hosts\<close>

definition zero_device :: device where
  "zero_device = \<lparr>dv_in_use = False, dv_name = replicate DEVICE_NAME_LEN 0, dv_arg = 0, dv_dhcp_enabled = False, dv_dhcp_leased = False,
     dv_macaddr = [], dv_ipaddr = ipv4 0, dv_gateway = ipv4 0, dv_netmask = ipv4 0,
     dv_arp_table = (\<lambda>_. \<lparr>ae_in_use = False, ae_resolved = False, ae_ipaddr = 0, ae_macaddr = [], ae_queue = [], ae_time_accessed = 0\<rparr>)\<rparr>"

definition zero_tcp :: tcp_socket where
  "zero_tcp = \<lparr>sk_in_use = False, sk_state = TCP_STATE_CLOSED, sk_pendings = 0, sk_next_seqno = 0, sk_last_seqno = 0, sk_last_ack = 0,
     sk_local_winsize = 0, sk_remote_winsize = 0, sk_local = \<lparr>ep_addr = ipv4 0, ep_port = 0\<rparr>,
     sk_remote = \<lparr>ep_addr = ipv4 0, ep_port = 0\<rparr>, sk_rx_buf = None, sk_tx_buf = None, sk_backlog = 0, sk_num_retransmits = 0,
     sk_retransmit_at = 0, sk_listen_sock = None, sk_backlog_socks = [], sk_client = None\<rparr>"

definition zero_udp :: udp_socket where
  "zero_udp = \<lparr>us_in_use = False, us_local = \<lparr>ep_addr = ipv4 0, ep_port = 0\<rparr>, us_rx = [], us_tx = []\<rparr>"

definition zero_net :: net where
  "zero_net = \<lparr>n_devices = (\<lambda>_. zero_device), n_tcp = (\<lambda>_. zero_tcp), n_tcp_active = [], n_udp = (\<lambda>_. zero_udp), n_udp_active = [],
     n_dhcp_sock = None, n_dns_sock = None, n_dns_server_ipaddr = ipv4 0, n_next_driver_id = 0, n_drivers = [], n_dns_requests = [],
     n_next_dns_query_id = 0, n_uptime = 0, n_tcp_discarded = 0, n_tcp_dropped = 0, n_handles = (\<lambda>_. None), n_calls = []\<rparr>"

definition demo_env :: net_env where
  "demo_env = \<lparr>ne_err = (\<lambda>_. OK), ne_recv = (\<lambda>_. UNKNOWN_MSG), ne_junk = (\<lambda>_. 0)\<rparr>"

text \<open>A host with one device and the hardware address of one neighbour.\<close>

definition demo_host :: "u32 \<Rightarrow> u32 \<Rightarrow> net" where
  "demo_host addr peer = zero_net\<lparr>
     n_devices := (\<lambda>_. zero_device)(0 := zero_device\<lparr>dv_in_use := True, dv_macaddr := [2, 0, 0, 0, 0, 1],
       dv_ipaddr := ipv4 addr, dv_netmask := ipv4 0xffffff00,
       dv_arp_table := (dv_arp_table zero_device)(0 := \<lparr>ae_in_use = True, ae_resolved = True, ae_ipaddr = peer,
         ae_macaddr = [2, 0, 0, 0, 0, 2], ae_queue = [], ae_time_accessed = 0\<rparr>)\<rparr>),
     n_drivers := [\<lparr>dr_tid = 7, dr_device = 0, dr_last_dhcp_discover = 0, dr_dhcp_discover_retires = 0\<rparr>]\<rparr>"

lemma zero_device_arg [simp]: "dv_arg zero_device = 0"
  by (simp add: zero_device_def)

lemma find_upt_0: "P 0 \<Longrightarrow> 0 < n \<Longrightarrow> find P [0..<n] = Some 0"
  by (simp add: upt_conv_Cons)

lemma demo_host_sends:
  "device_lookup (ipv4 0x0a000002) (demo_host 0x0a000001 0x0a000002) = Some 0"
  "can_send 0 (ipv4 0x0a000002) [2, 0, 0, 0, 0, 2] (demo_host 0x0a000001 0x0a000002)"
proof -
  let ?s = "demo_host 0x0a000001 0x0a000002"
  have "find (\<lambda>i. dv_in_use (n_devices ?s i) \<and>
      ipaddr_equals_in_netmask (dv_ipaddr (n_devices ?s i)) (ipv4 0x0a000002) (dv_netmask (n_devices ?s i))) [0..<DEVICES_MAX] = Some 0"
    by (rule find_upt_0) (simp_all add: demo_host_def ipaddr_equals_in_netmask_def ipv4_def kconst)
  then show "device_lookup (ipv4 0x0a000002) ?s = Some 0" by (simp add: device_lookup_def)
  have "arp_lookup (dv_arp_table (n_devices ?s 0)) 0x0a000002 = Some 0"
    unfolding arp_lookup_def by (rule find_upt_0) (simp_all add: demo_host_def kconst)
  then show "can_send 0 (ipv4 0x0a000002) [2, 0, 0, 0, 0, 2] ?s"
    by (simp add: can_send_def next_hop_def device_dst_is_gateway_def ipaddr_equals_in_netmask_def arp_resolve_def Let_def
        demo_host_def ipv4_def kconst)
qed

lemma demo_host_owns: "is_our_ipaddr 0 0x0a000002 (demo_host 0x0a000002 0x0a000001)"
  by (simp add: is_our_ipaddr_def demo_host_def ipv4_def)

definition demo_udp_host :: net where
  "demo_udp_host = (demo_host 0x0a000002 0x0a000001)\<lparr>n_udp_active := [3],
     n_udp := (\<lambda>_. zero_udp)(3 := zero_udp\<lparr>us_in_use := True, us_local := \<lparr>ep_addr = ipv4 0, ep_port = 99\<rparr>\<rparr>)\<rparr>"

theorem udp_datagram_delivered_witness:
  "returns (do { s \<leftarrow> udp_sendto demo_env 0 (ipv4 0x0a000002) 99 [1, 2, 3] (demo_host 0x0a000001 0x0a000002); udp_transmit demo_env 0 s })
    (\<lambda>s'. \<exists>frame. n_calls s' = [Async_send 7 (NET_TX_MSG frame)] \<and>
      returns (do { r \<leftarrow> ethernet_receive demo_env 0 frame demo_udp_host; udp_recv 3 2 r })
        (\<lambda>((len, buf), r'). len = 3 \<and> buf = [1, 2]))"
proof -
  have our: "is_our_ipaddr 0 (v4 (ipv4 0x0a000002)) demo_udp_host"
    by (simp add: demo_udp_host_def is_our_ipaddr_def demo_host_def ipv4_def)
  have tx: "us_tx (n_udp (demo_host 0x0a000001 0x0a000002) 0) = []" "length ([1, 2, 3] :: u8 list) \<le> 2006"
    by (simp_all add: demo_host_def zero_net_def zero_udp_def)
  have rx: "udp_lookup 99 demo_udp_host = Some 3" "us_rx (n_udp demo_udp_host 3) = []"
    by (simp_all add: demo_udp_host_def udp_lookup_def zero_udp_def)
  have c: "n_calls (demo_host 0x0a000001 0x0a000002) = []" "driver_of 0 (demo_host 0x0a000001 0x0a000002) = 7"
    by (simp_all add: demo_host_def zero_net_def zero_device_def driver_of_def)
  show ?thesis
    by (rule returns_mono [OF udp_datagram_delivered [OF demo_host_sends tx our rx, of demo_env demo_env 2]])
      (auto simp: c elim!: returns_mono)
qed

definition demo_tcp_sender :: net where
  "demo_tcp_sender = (demo_host 0x0a000001 0x0a000002)\<lparr>n_tcp := (\<lambda>_. zero_tcp)(0 := zero_tcp\<lparr>sk_in_use := True,
     sk_state := TCP_STATE_ESTABLISHED, sk_next_seqno := 100, sk_remote_winsize := 1000,
     sk_local := \<lparr>ep_addr = ipv4 0, ep_port = 1000\<rparr>, sk_remote := \<lparr>ep_addr = ipv4 0x0a000002, ep_port = 80\<rparr>,
     sk_tx_buf := Some [demo_buf [1, 2, 3]]\<rparr>)\<rparr>"


lemma demo_chains: "chain_ok [demo_buf []]" "chain_ok [demo_buf [1, 2, 3]]" "bytes [demo_buf []] = []" "bytes [demo_buf [1, 2, 3]] = [1, 2, 3]"
  using demo_buf [of "[]"] demo_buf [of "[1, 2, 3]"] by (simp_all add: chain_ok_def kconst)


theorem ipv4_header_checksum_witness:
  "returns (ipv4_transmit demo_env 0x0a000002 IPV4_PROTO_UDP [demo_buf [1, 2, 3]] (demo_host 0x0a000001 0x0a000002))
    (\<lambda>s'. \<exists>frame. n_calls s' = [Async_send 7 (NET_TX_MSG frame)] \<and>
      checksum_valid (checksum_update 0 (take IPV4_HDR_LEN (drop ETH_HDR_LEN frame))) \<and>
      drop (ETH_HDR_LEN + IPV4_HDR_LEN) frame = [1, 2, 3])"
proof -
  have "n_calls (demo_host 0x0a000001 0x0a000002) = []" "driver_of 0 (demo_host 0x0a000001 0x0a000002) = 7"
    by (simp_all add: demo_host_def zero_net_def driver_of_def)
  with ipv4_header_checksum [OF demo_host_sends demo_chains(2), of demo_env IPV4_PROTO_UDP] demo_chains(4) show ?thesis by simp
qed

lemma find_upt_1: "\<not> P 0 \<Longrightarrow> P 1 \<Longrightarrow> 1 < n \<Longrightarrow> find P [0..<n] = Some 1"
  by (simp add: upt_conv_Cons)

text \<open>Start-up returns whatever the memory holds, when the kernel's timer and the memory server answer.\<close>

lemma net_main_init_returns:
  assumes "\<And>cs. ne_err env cs = OK"
  obtains s where "net_main_init env s0 = Some s"
proof -
  define s1 where "s1 = udp_init (tcp_init (device_init (s0\<lparr>n_drivers := [], n_dns_requests := []\<rparr>)))"
  have s1: "n_udp_active s1 = []" "\<And>i. i < UDP_SOCKETS_MAX \<Longrightarrow> \<not> us_in_use (n_udp s1 i)" by (simp_all add: s1_def udp_init_def)
  have "find (\<lambda>i. \<not> us_in_use (n_udp s1 i)) [0..<UDP_SOCKETS_MAX] = Some 0"
    by (rule find_upt_0) (use s1 in \<open>simp_all add: kconst\<close>)
  then obtain s2 where s2: "dhcp_init s1 = Some s2" "n_udp_active s2 = [0]" "us_in_use (n_udp s2 0)" "n_udp s2 1 = n_udp s1 1"
    by (simp add: dhcp_init_def udp_new_def udp_bind_def s1 Let_def)
  have "find (\<lambda>i. \<not> us_in_use (n_udp s2 i)) [0..<UDP_SOCKETS_MAX] = Some 1"
    by (rule find_upt_1) (use s1 s2 in \<open>simp_all add: kconst\<close>)
  then obtain s3 where s3: "dns_init s2 = Some s3"
    by (simp add: dns_init_def udp_new_def udp_bind_def s2 Let_def)
  show thesis
    by (rule that) (use s2(1) s3 assms in \<open>simp add: net_main_init_def s1_def [symmetric] timer_set_def Let_def\<close>)
qed

theorem receive_window_accounted_witness:
  "net_zeroed zero_net \<and> returns (net_main_init demo_env zero_net)
     (\<lambda>s. \<forall>i. if sk_in_use (n_tcp s i) then sk_state (n_tcp s i) \<in> set used_states else sk_rx_buf (n_tcp s i) = None)"
proof -
  have z: "net_zeroed zero_net"
    by (simp add: net_zeroed_def zero_net_def zero_tcp_def zero_device_def)
  obtain s where s: "net_main_init demo_env zero_net = Some s"
    by (rule net_main_init_returns [of demo_env zero_net]) (simp_all add: demo_env_def)
  then have "net_reachable zero_net s" by (rule net_reachable.start)
  from receive_window_accounted [OF z this] have "if sk_in_use (n_tcp s i) then sk_state (n_tcp s i) \<in> set used_states
      else sk_rx_buf (n_tcp s i) = None" for i
    by (metis (no_types, lifting))
  with z s show ?thesis by simp
qed

theorem old_ack_drops_data_witness:
  "returns (process_ack 0 99 0 demo_tcp_sender)
    (\<lambda>s'. sk_next_seqno (n_tcp s' 0) = 99 \<and> (\<exists>tx'. sk_tx_buf (n_tcp s' 0) = Some tx' \<and> bytes tx' = []))"
proof -
  have "sk_state (n_tcp demo_tcp_sender 0) = TCP_STATE_ESTABLISHED" "sk_tx_buf (n_tcp demo_tcp_sender 0) = Some [demo_buf [1, 2, 3]]"
    "sk_next_seqno (n_tcp demo_tcp_sender 0) = 100"
    by (simp_all add: demo_tcp_sender_def)
  with old_ack_drops_data [of demo_tcp_sender 0 "[demo_buf [1, 2, 3]]" 1 0] demo_chains show ?thesis by simp
qed




end
