(* ===== verification/Fs_State.thy ===== *)
theory Fs_State
  imports C_String Handle
begin

text \<open>
  The messages of the file system and block device interfaces (\<^verbatim>\<open>interface.idl\<close>), and the RAM disk
  driver \<^verbatim>\<open>servers/drivers/blk/ramdisk/main.c\<close>. A message carries its payload; a reply or an error
  that is sent is recorded with its destination.
\<close>

section \<open>Messages\<close>

datatype fs_msg =
    FS_OPEN_MSG cbuf
  | FS_OPEN_REPLY_MSG int
  | FS_CREATE_MSG cbuf bool
  | FS_CREATE_REPLY_MSG int
  | FS_READ_MSG int u64 u64
  | FS_READ_REPLY_MSG "u8 list"
  | FS_WRITE_MSG int u64 "u8 list"
  | FS_WRITE_REPLY_MSG
  | FS_STAT_MSG cbuf
  | FS_STAT_REPLY_MSG u64
  | FS_ERROR int
  | FS_OTHER_MSG

datatype blk_msg =
    BLK_READ_MSG u64 u64
  | BLK_READ_REPLY_MSG "u8 list"
  | BLK_WRITE_MSG u64 "u8 list"
  | BLK_WRITE_REPLY_MSG
  | BLK_ERROR error_t

section \<open>The RAM disk\<close>

definition SECTOR_SIZE :: u64 where
  [kconst]: "SECTOR_SIZE = 512"

text \<open>The reply to a message and the image after it. The sums of offsets and lengths wrap.\<close>

definition ramdisk_read :: "u8 list \<Rightarrow> u64 \<Rightarrow> u64 \<Rightarrow> blk_msg" where
  "ramdisk_read img sector num_sectors =
     (let disk_size = of_nat (length img); offset = sector * SECTOR_SIZE; len = num_sectors * SECTOR_SIZE in
      if offset + len > disk_size \<or> offset + len < offset then BLK_ERROR ERR_NOT_ACCEPTABLE
      else BLK_READ_REPLY_MSG (take (unat len) (drop (unat offset) img)))"

definition ramdisk_write :: "u8 list \<Rightarrow> u64 \<Rightarrow> u8 list \<Rightarrow> blk_msg \<times> u8 list" where
  "ramdisk_write img sector data =
     (let disk_size = of_nat (length img); offset = sector * SECTOR_SIZE; len = of_nat (length data) in
      if offset + len > disk_size \<or> offset + len < offset \<or> \<not> IS_ALIGNED len SECTOR_SIZE
      then (BLK_ERROR ERR_NOT_ACCEPTABLE, img)
      else (BLK_WRITE_REPLY_MSG, take (unat offset) img @ data @ drop (unat offset + length data) img))"

definition ramdisk_handle :: "u8 list \<Rightarrow> blk_msg \<Rightarrow> blk_msg option \<times> u8 list" where
  "ramdisk_handle img m =
     (case m of
        BLK_READ_MSG sector num_sectors \<Rightarrow> (Some (ramdisk_read img sector num_sectors), img)
      | BLK_WRITE_MSG sector data \<Rightarrow> (case ramdisk_write img sector data of (r, img) \<Rightarrow> (Some r, img))
      | _ \<Rightarrow> (None, img))"

section \<open>Sectors of an image\<close>

text \<open>An image of whole sectors that the 64-bit arithmetic can address.\<close>

definition image_ok :: "u8 list \<Rightarrow> bool" where
  "image_ok img \<longleftrightarrow> 512 dvd length img \<and> length img < 2 ^ 63"

definition sectors :: "u8 list \<Rightarrow> nat \<Rightarrow> nat \<Rightarrow> u8 list" where
  "sectors img i n = take (n * 512) (drop (i * 512) img)"

lemma unat64: "n < 2 ^ 64 \<Longrightarrow> unat (of_nat n :: u64) = n"
  by (simp add: unat_of_nat)

lemma sector_arith:
  assumes "image_ok img" "(i + n) * 512 \<le> length img"
  shows "(of_nat i * SECTOR_SIZE :: u64) = of_nat (i * 512)" "unat (of_nat i * SECTOR_SIZE :: u64) = i * 512"
    "unat (of_nat n * SECTOR_SIZE :: u64) = n * 512"
    "\<not> of_nat i * SECTOR_SIZE + of_nat n * SECTOR_SIZE > (of_nat (length img) :: u64)"
    "\<not> of_nat i * SECTOR_SIZE + of_nat n * SECTOR_SIZE < (of_nat i * SECTOR_SIZE :: u64)"
proof -
  have b: "i * 512 + n * 512 < 2 ^ 64" "length img < 2 ^ 64" using assms by (simp_all add: image_ok_def algebra_simps)
  have eq: "(of_nat i * SECTOR_SIZE :: u64) = of_nat (i * 512)" "(of_nat n * SECTOR_SIZE :: u64) = of_nat (n * 512)"
    by (simp_all add: kconst)
  then show "(of_nat i * SECTOR_SIZE :: u64) = of_nat (i * 512)" by simp
  show u: "unat (of_nat i * SECTOR_SIZE :: u64) = i * 512" "unat (of_nat n * SECTOR_SIZE :: u64) = n * 512"
    unfolding eq using b by (intro unat64; simp)+
  have s: "of_nat i * SECTOR_SIZE + of_nat n * SECTOR_SIZE = (of_nat (i * 512 + n * 512) :: u64)" by (simp add: kconst)
  have "unat (of_nat (i * 512 + n * 512) :: u64) = i * 512 + n * 512" "unat (of_nat (length img) :: u64) = length img"
    using b by (intro unat64; simp)+
  with assms u(1) show "\<not> of_nat i * SECTOR_SIZE + of_nat n * SECTOR_SIZE > (of_nat (length img) :: u64)"
    "\<not> of_nat i * SECTOR_SIZE + of_nat n * SECTOR_SIZE < (of_nat i * SECTOR_SIZE :: u64)"
    unfolding s by (simp_all add: word_less_nat_alt algebra_simps)
qed

lemma ramdisk_read_sectors:
  assumes "image_ok img" "(i + n) * 512 \<le> length img"
  shows "ramdisk_read img (of_nat i) (of_nat n) = BLK_READ_REPLY_MSG (sectors img i n)"
  using sector_arith [OF assms] by (simp add: ramdisk_read_def Let_def sectors_def)

end
