(* ===== verification/Tarfs.thy ===== *)
theory Tarfs
  imports Fs_State
begin

text \<open>
  The read-only file system of \<^verbatim>\<open>servers/fs/tarfs/main.c\<close>: the files of a tar archive that is linked
  into the server. A pointer into the archive is the list of bytes from there to its end; the archive
  starts at a page boundary, so addresses are offsets from its start. Memory for the files is always
  there (the allocator halts the server otherwise).
\<close>

section \<open>The archive\<close>



record tar_file =
  fl_path :: cbuf
  fl_data :: "u8 list"
  fl_len :: u64
  fl_type :: u8
  fl_linked_to :: "cbuf option"







section \<open>Files\<close>

fun find_path :: "tar_file list \<Rightarrow> cbuf \<Rightarrow> tar_file option option" where
  "find_path [] path = Some None"
| "find_path (f # rest) path =
     do {
       r \<leftarrow> strcmp (fl_path f) path;
       if r = 0 then Some (Some f) else find_path rest path
     }"

text \<open>\<^verbatim>\<open>open\<close>: a symbolic link is followed by a recursive call, which need not end.\<close>

partial_function (option) open_file :: "tar_file list \<Rightarrow> cbuf \<Rightarrow> tar_file option option" where
  "open_file files path =
     (case path of
        [] \<Rightarrow> None
      | c # rest \<Rightarrow>
          (case find_path files (if c = 0x2f then rest else path) of
             None \<Rightarrow> None
           | Some None \<Rightarrow> Some None
           | Some (Some f) \<Rightarrow>
               (case fl_linked_to f of
                  Some target \<Rightarrow> open_file files target
                | None \<Rightarrow> Some (Some f))))"

text \<open>\<^verbatim>\<open>read\<close> into a buffer of \<open>cap\<close> bytes: the bytes written to it.\<close>

definition tar_read :: "tar_file \<Rightarrow> u64 \<Rightarrow> nat \<Rightarrow> u64 \<Rightarrow> u8 list option" where
  "tar_read f off cap len =
     (if off \<ge> fl_len f then Some []
      else
        let read_len = min len (fl_len f - off) in
        if unat read_len \<le> cap then Some (take (unat read_len) (drop (unat off) (fl_data f))) else None)"

section \<open>The server\<close>

record tarfs =
  tf_files :: "tar_file list"
  tf_handles :: "tar_file handles"
  tf_sent :: "(task_t \<times> fs_msg) list"

definition tf_reply :: "task_t \<Rightarrow> fs_msg \<Rightarrow> tarfs \<Rightarrow> tarfs" where
  "tf_reply dst m s = s\<lparr>tf_sent := tf_sent s @ [(dst, m)]\<rparr>"

definition tarfs_open :: "task_t \<Rightarrow> cbuf \<Rightarrow> tarfs \<Rightarrow> tarfs option" where
  "tarfs_open src path s =
     do {
       r \<leftarrow> open_file (tf_files s) path;
       case r of
         None \<Rightarrow> Some (tf_reply src (FS_ERROR (err_code ERR_NOT_FOUND)) s)
       | Some f \<Rightarrow>
           do {
             (handle, hs) \<leftarrow> handle_alloc src (tf_handles s);
             hs \<leftarrow> handle_set src handle (Some f) hs;
             Some (tf_reply src (FS_OPEN_REPLY_MSG handle) (s\<lparr>tf_handles := hs\<rparr>))
           }
     }"

definition tarfs_stat :: "task_t \<Rightarrow> cbuf \<Rightarrow> tarfs \<Rightarrow> tarfs option" where
  "tarfs_stat src path s =
     do {
       r \<leftarrow> open_file (tf_files s) path;
       Some (tf_reply src (case r of None \<Rightarrow> FS_ERROR (err_code ERR_NOT_FOUND) | Some f \<Rightarrow> FS_STAT_REPLY_MSG (fl_len f)) s)
     }"

text \<open>The buffer has at most 8192 bytes, but the file is read with the length of the request.\<close>

definition tarfs_read :: "task_t \<Rightarrow> int \<Rightarrow> u64 \<Rightarrow> u64 \<Rightarrow> tarfs \<Rightarrow> tarfs option" where
  "tarfs_read src handle offset len s =
     do {
       r \<leftarrow> handle_get src handle (tf_handles s);
       case r of
         None \<Rightarrow> Some (tf_reply src (FS_ERROR (err_code ERR_NOT_FOUND)) s)
       | Some f \<Rightarrow>
           do {
             let max_len = min 8192 len;
             data \<leftarrow> tar_read f offset (unat max_len) len;
             Some (tf_reply src (FS_READ_REPLY_MSG data) s)
           }
     }"

definition tarfs_handle :: "task_t \<Rightarrow> fs_msg \<Rightarrow> tarfs \<Rightarrow> tarfs option" where
  "tarfs_handle src m s =
     (case m of
        FS_OPEN_MSG path \<Rightarrow> tarfs_open src path s
      | FS_STAT_MSG path \<Rightarrow> tarfs_stat src path s
      | FS_READ_MSG handle offset len \<Rightarrow> tarfs_read src handle offset len s
      | _ \<Rightarrow> Some s)"

section \<open>Archives\<close>







section \<open>Loading an archive\<close>















section \<open>What clients see\<close>





text \<open>A request for more than 8192 bytes of a file that has them writes past the reply buffer.\<close>

theorem tar_read_overflows:
  assumes "handle_get src h (tf_handles s) = Some (Some f)" "off < fl_len f" "8192 < len" "8192 < fl_len f - off"
  shows "tarfs_handle src (FS_READ_MSG h off len) s = None"
proof -
  have "min 8192 len = 8192" using assms(3) by (auto simp: min_def)
  moreover have "8192 < min len (fl_len f - off)" using assms(3,4) by simp
  ultimately show ?thesis
    using assms(1,2) by (auto simp: tarfs_handle_def tarfs_read_def tar_read_def Let_def word_less_nat_alt word_le_nat_alt)
qed

text \<open>A symbolic link to itself is followed forever.\<close>

lemma open_file_cycle:
  assumes "path = c # rest" "c \<noteq> 0x2f" "find_path files path = Some (Some f)" "fl_linked_to f = Some path"
  shows "open_file files path = None"
proof -
  have "open_file fs p = Some r \<Longrightarrow> \<not> (fs = files \<and> p = path)" for fs p r
  proof (erule open_file.raw_induct [where P = "\<lambda>fs p r. \<not> (fs = files \<and> p = path)", rotated])
    fix rec fs p r
    assume IH: "\<And>fs p y. rec fs p = Some y \<Longrightarrow> \<not> (fs = files \<and> p = path)"
      and "(case p of [] \<Rightarrow> None | c # rest \<Rightarrow>
          (case find_path fs (if c = 0x2f then rest else p) of None \<Rightarrow> None | Some None \<Rightarrow> Some None
           | Some (Some f) \<Rightarrow> (case fl_linked_to f of Some target \<Rightarrow> rec fs target | None \<Rightarrow> Some (Some f)))) = Some r"
    then show "\<not> (fs = files \<and> p = path)" using assms by (auto split: list.splits if_splits dest!: IH)
  qed
  then show ?thesis by (cases "open_file files path") auto
qed

section \<open>A small archive\<close>



end
