(* ===== verification/Fat.thy ===== *)
theory Fat
  imports Fs_State
begin

text \<open>
  The FAT16 file system of \<^verbatim>\<open>servers/fs/fatfs\<close>: \<^verbatim>\<open>fat.c\<close> and \<^verbatim>\<open>main.c\<close>. Blocks are read and written with
  messages to the disk server, whose image is the argument \<open>disk\<close>; an error from it fails an
  assertion. Sector and cluster numbers and lengths are natural numbers where they cannot wrap. The
  directory entry a function returns by pointer is its index in the buffer of the directory, since
  the buffer is overwritten when the next cluster is read.
\<close>

section \<open>Blocks\<close>

text \<open>\<^verbatim>\<open>main.c\<close>: the replies of the disk server.\<close>

definition blk_read :: "nat \<Rightarrow> nat \<Rightarrow> u8 list \<Rightarrow> u8 list option" where
  "blk_read sector num_sectors disk =
     (case ramdisk_handle disk (BLK_READ_MSG (of_nat sector) (of_nat num_sectors)) of
        (Some (BLK_READ_REPLY_MSG data), _) \<Rightarrow> Some data
      | _ \<Rightarrow> None)"

definition blk_write :: "nat \<Rightarrow> u8 list \<Rightarrow> u8 list \<Rightarrow> u8 list option" where
  "blk_write sector buf disk =
     (case ramdisk_handle disk (BLK_WRITE_MSG (of_nat sector) buf) of
        (Some BLK_WRITE_REPLY_MSG, disk) \<Rightarrow> Some disk
      | _ \<Rightarrow> None)"

section \<open>The file system\<close>

record fat =
  ft_sectors_per_cluster :: nat
  ft_fat_lba :: nat
  ft_sectors_per_fat :: nat
  ft_root_dir_lba :: nat
  ft_data_lba :: nat

record fat_file =
  ff_cluster :: nat
  ff_size :: nat

record fat_dir =
  fd_entries :: "u8 list"
  fd_cluster :: nat
  fd_index :: int

text \<open>Errors are the inner \<open>Inl\<close>.\<close>

definition fat_probe :: "u8 list \<Rightarrow> (error_t + fat) option" where
  "fat_probe disk =
     do {
       bpb \<leftarrow> blk_read 0 1 disk;
       let sector_size = unat (get16 bpb 11);
       let sectors_per_cluster = unat (bpb ! 13);
       let num_reserved_sectors = unat (get16 bpb 14);
       let num_fat = unat (bpb ! 16);
       let num_root_entries = unat (get16 bpb 17);
       let total16 = unat (get16 bpb 19);
       let fat16 = unat (get16 bpb 22);
       let total32 = unat (get32 bpb 32);
       let fat32 = unat (get32 bpb 36);
       if sector_size \<noteq> 512 then Some (Inl ERR_NOT_ACCEPTABLE)
       else do {
         let root_dir_sectors = num_root_entries * 32 div sector_size;
         let sectors_per_fat = (if fat16 = 0 then fat32 else fat16);
         let sectors = (if total16 = 0 then total32 else total16);
         let non_data_sectors = num_reserved_sectors + num_fat * sectors_per_fat + root_dir_sectors;
         ASSERT (sectors_per_cluster \<noteq> 0);
         let total_data_clus = (sectors + 2 ^ 64 - non_data_sectors) mod 2 ^ 64 div sectors_per_cluster;
         if total_data_clus < 4085 \<or> 65525 \<le> total_data_clus then Some (Inl ERR_NOT_ACCEPTABLE)
         else
           let root_dir_lba = (num_reserved_sectors + sectors_per_fat * num_fat) mod 2 ^ 32 in
           Some (Inr \<lparr>ft_sectors_per_cluster = sectors_per_cluster, ft_fat_lba = num_reserved_sectors,
             ft_sectors_per_fat = fat16, ft_root_dir_lba = root_dir_lba, ft_data_lba = root_dir_lba + root_dir_sectors\<rparr>)
       }
     }"

definition is_end_of_cluster :: "nat \<Rightarrow> bool" where
  "is_end_of_cluster cluster \<longleftrightarrow> 0xfff8 \<le> cluster \<and> cluster \<le> 0xffff"

definition is_free_cluster :: "nat \<Rightarrow> bool" where
  "is_free_cluster cluster \<longleftrightarrow> cluster = 0"

definition is_valid_cluster :: "nat \<Rightarrow> bool" where
  "is_valid_cluster cluster \<longleftrightarrow> \<not> is_end_of_cluster cluster \<and> \<not> is_free_cluster cluster"

section \<open>Directory entries and names\<close>

definition FAT_DIRENT_LEN :: nat where [kconst]: "FAT_DIRENT_LEN = 32"

record fat_dirent =
  de_name :: "u8 list"
  de_ext :: "u8 list"
  de_cluster_high :: u16
  de_cluster_low :: u16
  de_size :: u32

definition dirent_of :: "u8 list \<Rightarrow> fat_dirent" where
  "dirent_of b = \<lparr>de_name = take 8 b, de_ext = take 3 (drop 8 b), de_cluster_high = get16 b 20,
     de_cluster_low = get16 b 26, de_size = get32 b 28\<rparr>"

definition dirent_at :: "fat_dir \<Rightarrow> nat \<Rightarrow> fat_dirent" where
  "dirent_at dir i = dirent_of (take FAT_DIRENT_LEN (drop (i * FAT_DIRENT_LEN) (fd_entries dir)))"

text \<open>The length without the trailing spaces. The loop over the name tests the byte before the array
  when all of it is spaces; the one over the extension stops.\<close>

fun name_len :: "u8 list \<Rightarrow> nat \<Rightarrow> nat option" where
  "name_len name 0 = None"
| "name_len name (Suc n) = (if name ! n = 0x20 then name_len name n else Some (Suc n))"

fun ext_len :: "u8 list \<Rightarrow> nat \<Rightarrow> nat" where
  "ext_len ext 0 = 0"
| "ext_len ext (Suc n) = (if ext ! n = 0x20 then ext_len ext n else Suc n)"

definition filename_equals :: "fat_dirent \<Rightarrow> cbuf \<Rightarrow> cbuf \<Rightarrow> bool option" where
  "filename_equals e name ext =
     do {
       n \<leftarrow> name_len (de_name e) 8;
       r \<leftarrow> strncmp (de_name e) name n;
       if r \<noteq> 0 then Some False
       else do {
         r \<leftarrow> strncmp (de_ext e) ext (ext_len (de_ext e) 3);
         Some (r = 0)
       }
     }"

text \<open>\<^verbatim>\<open>ctype.h\<close>, on a signed \<^verbatim>\<open>char\<close>.\<close>

definition toupper :: "u8 \<Rightarrow> u8" where
  "toupper ch = (if 0x61 \<le> sint ch \<and> sint ch \<le> 0x7a then ch - 0x20 else ch)"

text \<open>The two loops of \<^verbatim>\<open>get_next_filename\<close> with at most \<open>n\<close> more characters: what they append and the
  rest of the path.\<close>

fun name_loop :: "nat \<Rightarrow> cbuf \<Rightarrow> (u8 list \<times> cbuf) option" where
  "name_loop 0 path = Some ([], path)"
| "name_loop (Suc n) [] = None"
| "name_loop (Suc n) (c # path) =
     (if c = 0 then Some ([], c # path)
      else if c = 0x2f then Some ([], c # path)
      else if c = 0x2e then Some ([], path)
      else map_option (\<lambda>(s, rest). (toupper c # s, rest)) (name_loop n path))"

fun ext_loop :: "nat \<Rightarrow> cbuf \<Rightarrow> (u8 list \<times> cbuf) option" where
  "ext_loop 0 path = Some ([], path)"
| "ext_loop (Suc n) [] = None"
| "ext_loop (Suc n) (c # path) =
     (if c = 0 then Some ([], c # path)
      else if c = 0x2f then Some ([], path)
      else map_option (\<lambda>(s, rest). (toupper c # s, rest)) (ext_loop n path))"

text \<open>The name and the extension, terminated, and the rest of the path unless it is at its end.\<close>

definition get_next_filename :: "cbuf \<Rightarrow> (cbuf \<times> cbuf \<times> cbuf option) option" where
  "get_next_filename path =
     do {
       (name, path) \<leftarrow> name_loop 8 path;
       (ext, path) \<leftarrow> ext_loop 3 path;
       case path of
         [] \<Rightarrow> None
       | c # _ \<Rightarrow> Some (name @ [0], ext @ [0], if c = 0 then None else Some path)
     }"

definition get_cluster_from_entry :: "fat_dirent \<Rightarrow> nat" where
  "get_cluster_from_entry e = unat (push_bit 16 (ucast (de_cluster_high e)) OR ucast (de_cluster_low e) :: u32)"

section \<open>Clusters\<close>

text \<open>The product is one of unsigned 64-bit integers, the cluster number has 32 bits.\<close>

definition cluster2lba :: "fat \<Rightarrow> nat \<Rightarrow> nat option" where
  "cluster2lba fs cluster = (if 2 \<le> cluster then Some ((cluster - 2) * ft_sectors_per_cluster fs + ft_data_lba fs) else None)"

definition get_next_cluster :: "fat \<Rightarrow> nat \<Rightarrow> u8 list \<Rightarrow> nat option" where
  "get_next_cluster fs cluster disk =
     do {
       ASSERT (2 \<le> cluster);
       buf \<leftarrow> blk_read (ft_fat_lba fs + cluster div 256) 1 disk;
       Some (unat (get16 buf (cluster mod 256 * 2)))
     }"

text \<open>The loop over the entries of a sector tests the first one each time.\<close>

fun alloc_cluster_loop :: "fat \<Rightarrow> nat list \<Rightarrow> u8 list \<Rightarrow> nat option" where
  "alloc_cluster_loop fs [] disk = None"
| "alloc_cluster_loop fs (i # rest) disk =
     do {
       buf \<leftarrow> blk_read (ft_fat_lba fs + i) 1 disk;
       if get16 buf 0 = 0 then Some (i * 256) else alloc_cluster_loop fs rest disk
     }"

definition alloc_cluster :: "fat \<Rightarrow> u8 list \<Rightarrow> nat option" where
  "alloc_cluster fs disk = alloc_cluster_loop fs [0..<ft_sectors_per_fat fs] disk"

section \<open>Directories\<close>

definition open_root_dir :: "fat \<Rightarrow> u8 list \<Rightarrow> fat_dir option" where
  "open_root_dir fs disk =
     do {
       entries \<leftarrow> blk_read (ft_root_dir_lba fs) (ft_sectors_per_cluster fs) disk;
       Some \<lparr>fd_entries = entries, fd_cluster = 0, fd_index = 0\<rparr>
     }"

definition opendir_from_dirent :: "fat \<Rightarrow> fat_dirent \<Rightarrow> u8 list \<Rightarrow> fat_dir option" where
  "opendir_from_dirent fs e disk =
     do {
       let cluster = get_cluster_from_entry e;
       lba \<leftarrow> cluster2lba fs cluster;
       entries \<leftarrow> blk_read lba (ft_sectors_per_cluster fs) disk;
       Some \<lparr>fd_entries = entries, fd_cluster = cluster, fd_index = 0\<rparr>
     }"

text \<open>The index of the entry, or none at the end of the directory. The entry may be in the buffer of
  the next cluster when the function returns.\<close>

definition fat_readdir :: "fat \<Rightarrow> fat_dir \<Rightarrow> u8 list \<Rightarrow> (nat option \<times> fat_dir) option" where
  "fat_readdir fs dir disk =
     (if fd_index dir < 0 then Some (None, dir)
      else
        let i = nat (fd_index dir); num_entries = ft_sectors_per_cluster fs * 512 div FAT_DIRENT_LEN in
        do {
          ASSERT (i * FAT_DIRENT_LEN < length (fd_entries dir));
          if fd_entries dir ! (i * FAT_DIRENT_LEN) = 0 then Some (None, dir\<lparr>fd_index := -1\<rparr>)
          else if i + 1 = num_entries then
            do {
              cluster \<leftarrow> get_next_cluster fs (fd_cluster dir) disk;
              if cluster \<noteq> 0 then
                do {
                  lba \<leftarrow> cluster2lba fs cluster;
                  entries \<leftarrow> blk_read lba (ft_sectors_per_cluster fs) disk;
                  Some (Some i, \<lparr>fd_entries = entries, fd_cluster = cluster, fd_index = 0\<rparr>)
                }
              else Some (Some i, dir\<lparr>fd_cluster := cluster, fd_index := -1\<rparr>)
            }
          else Some (Some i, dir\<lparr>fd_index := fd_index dir + 1\<rparr>)
        })"

text \<open>The inner loop of \<^verbatim>\<open>lookup\<close>: the entry with the name, or none at the end of the directory. A
  directory whose clusters form a cycle is read forever.\<close>

partial_function (option) find_entry :: "fat \<Rightarrow> fat_dir \<Rightarrow> cbuf \<Rightarrow> cbuf \<Rightarrow> u8 list \<Rightarrow> fat_dirent option option" where
  "find_entry fs dir name ext disk =
     (case fat_readdir fs dir disk of
        None \<Rightarrow> None
      | Some (None, dir) \<Rightarrow> Some None
      | Some (Some i, dir) \<Rightarrow>
          (case filename_equals (dirent_at dir i) name ext of
             None \<Rightarrow> None
           | Some eq \<Rightarrow> if eq then Some (Some (dirent_at dir i)) else find_entry fs dir name ext disk))"

lemma name_loop_dec: "name_loop n path = Some (s, rest) \<Longrightarrow> length rest \<le> length path"
  by (induction n path arbitrary: s rest rule: name_loop.induct) (fastforce split: if_splits)+

lemma ext_loop_dec: "ext_loop n path = Some (s, rest) \<Longrightarrow> length rest \<le> length path"
  by (induction n path arbitrary: s rest rule: ext_loop.induct) (fastforce split: if_splits)+

lemma get_next_filename_dec: "get_next_filename path = Some (name, ext, Some rest) \<Longrightarrow> length rest < length path"
proof -
  assume h: "get_next_filename path = Some (name, ext, Some rest)"
  then obtain s p where 1: "name_loop 8 path = Some (s, p)" by (auto simp: get_next_filename_def bind_Some_eq)
  from h 1 obtain s' q where 2: "ext_loop 3 p = Some (s', q)"
    "(case q of [] \<Rightarrow> None | c # _ \<Rightarrow> Some (s @ [0], s' @ [0], if c = 0 then None else Some q)) = Some (name, ext, Some rest)"
    by (auto simp: get_next_filename_def bind_Some_eq)
  then have "q = rest" "\<exists>c r. rest = c # r \<and> c \<noteq> 0" by (cases q; auto split: if_splits)+
  with 1 2(1) have *: "name_loop 8 path = Some (s, p)" "ext_loop 3 p = Some (s', rest)" "\<exists>c r. rest = c # r \<and> c \<noteq> 0" by simp_all
  have e: "length rest \<le> length p" using ext_loop_dec *(2) by blast
  obtain c r where path: "path = c # r" using * by (cases path) (auto simp: eval_nat_numeral)
  have "length p \<le> length r \<or> p = c # r \<and> (c = 0 \<or> c = 0x2f)"
    using *(1) name_loop_dec unfolding path by (fastforce simp: eval_nat_numeral split: if_splits)
  with * e show ?thesis unfolding path
    by (auto simp: eval_nat_numeral split: if_splits dest: ext_loop_dec)
qed

function lookup_loop :: "fat \<Rightarrow> fat_dir \<Rightarrow> cbuf \<Rightarrow> u8 list \<Rightarrow> fat_dirent option option" where
  "lookup_loop fs dir path disk =
     (case get_next_filename path of
        None \<Rightarrow> None
      | Some (name, ext, p) \<Rightarrow>
          (case find_entry fs dir name ext disk of
             None \<Rightarrow> None
           | Some None \<Rightarrow> Some None
           | Some (Some e) \<Rightarrow>
               (case p of
                  None \<Rightarrow> Some (Some e)
                | Some path \<Rightarrow>
                    (case opendir_from_dirent fs e disk of
                       None \<Rightarrow> None
                     | Some dir \<Rightarrow> lookup_loop fs dir path disk))))"
  by pat_completeness auto
termination
  by (relation "measure (\<lambda>(fs, dir, path, disk). length path)") (auto dest: get_next_filename_dec)

declare lookup_loop.simps [simp del]

text \<open>\<^verbatim>\<open>lookup\<close>\<close>

definition fat_lookup :: "fat \<Rightarrow> cbuf \<Rightarrow> u8 list \<Rightarrow> fat_dirent option option" where
  "fat_lookup fs path disk =
     (case path of
        [] \<Rightarrow> None
      | c # rest \<Rightarrow>
          do {
            dir \<leftarrow> open_root_dir fs disk;
            lookup_loop fs dir (if c = 0x2f then rest else path) disk
          })"

definition fat_open :: "fat \<Rightarrow> cbuf \<Rightarrow> u8 list \<Rightarrow> (error_t + fat_file) option" where
  "fat_open fs path disk =
     do {
       e \<leftarrow> fat_lookup fs path disk;
       Some (case e of None \<Rightarrow> Inl ERR_NOT_FOUND
         | Some e \<Rightarrow> Inr \<lparr>ff_cluster = get_cluster_from_entry e, ff_size = unat (de_size e)\<rparr>)
     }"

text \<open>Truncation is not implemented and does nothing; a file that does not exist cannot be created.\<close>

definition fat_truncate :: "fat_file \<Rightarrow> error_t + fat_file" where
  "fat_truncate file = Inr file"

definition fat_create :: "fat \<Rightarrow> cbuf \<Rightarrow> bool \<Rightarrow> u8 list \<Rightarrow> (error_t + fat_file) option" where
  "fat_create fs path exist_ok disk =
     do {
       r \<leftarrow> fat_open fs path disk;
       case r of
         Inr file \<Rightarrow> Some (if \<not> exist_ok then Inl ERR_ALREADY_EXISTS else fat_truncate file)
       | Inl _ \<Rightarrow> None
     }"

definition fat_opendir :: "fat \<Rightarrow> cbuf \<Rightarrow> u8 list \<Rightarrow> (error_t + fat_dir) option" where
  "fat_opendir fs path disk =
     do {
       r \<leftarrow> strcmp path [0x2f, 0];
       if r = 0 then map_option Inr (open_root_dir fs disk)
       else do {
         e \<leftarrow> fat_lookup fs path disk;
         case e of None \<Rightarrow> Some (Inl ERR_NOT_FOUND) | Some e \<Rightarrow> map_option Inr (opendir_from_dirent fs e disk)
       }
     }"

section \<open>Reading\<close>

text \<open>The walk to the cluster of the offset: none when the chain ends before.\<close>

fun cluster_walk :: "fat \<Rightarrow> nat \<Rightarrow> nat \<Rightarrow> u8 list \<Rightarrow> nat option option" where
  "cluster_walk fs 0 current disk = Some (Some current)"
| "cluster_walk fs (Suc n) current disk =
     do {
       current \<leftarrow> get_next_cluster fs current disk;
       if is_end_of_cluster current then Some None
       else do {
         ASSERT (is_valid_cluster current);
         cluster_walk fs n current disk
       }
     }"

text \<open>The sectors of one cluster. \<open>Inl\<close> is the return from the middle of the loop, with the length of the
  last copy; the offset in the cluster is used for every sector.\<close>

function read_sectors ::
  "fat \<Rightarrow> nat \<Rightarrow> nat \<Rightarrow> nat \<Rightarrow> nat \<Rightarrow> nat \<Rightarrow> u8 list \<Rightarrow> u8 list \<Rightarrow> (nat \<times> u8 list + nat \<times> u8 list) option" where
  "read_sectors fs fsize current off_in_cluster i remaining acc disk =
     (if i < ft_sectors_per_cluster fs then
        (case cluster2lba fs current of
           None \<Rightarrow> None
         | Some lba \<Rightarrow>
             (case blk_read (lba + i) 1 disk of
                None \<Rightarrow> None
              | Some buf \<Rightarrow>
                  let copy_len = min fsize (min remaining 512); acc = acc @ take copy_len (drop off_in_cluster buf) in
                  if off_in_cluster + copy_len > 512 then None
                  else if remaining \<le> 512 then Some (Inl (copy_len, acc))
                  else read_sectors fs fsize current off_in_cluster (i + 1) (remaining - copy_len) acc disk))
      else Some (Inr (remaining, acc)))"
  by pat_completeness auto
termination
  by (relation "measure (\<lambda>(fs, fsize, current, off_in_cluster, i, remaining, acc, disk). ft_sectors_per_cluster fs - i)") auto

declare read_sectors.simps [simp del]

partial_function (option) read_clusters ::
  "fat \<Rightarrow> nat \<Rightarrow> nat \<Rightarrow> nat \<Rightarrow> nat \<Rightarrow> nat \<Rightarrow> u8 list \<Rightarrow> u8 list \<Rightarrow> (nat \<times> u8 list) option" where
  "read_clusters fs fsize len current off_in_cluster remaining acc disk =
     (case read_sectors fs fsize current off_in_cluster (off_in_cluster div 512) remaining acc disk of
        None \<Rightarrow> None
      | Some (Inl r) \<Rightarrow> Some r
      | Some (Inr (remaining, acc)) \<Rightarrow>
          (case get_next_cluster fs current disk of
             None \<Rightarrow> None
           | Some current \<Rightarrow>
               if is_end_of_cluster current then Some (len - remaining, acc)
               else if \<not> is_valid_cluster current then None
               else read_clusters fs fsize len current 0 remaining acc disk))"

text \<open>The returned length and the bytes written to the buffer.\<close>

definition fat_read :: "fat \<Rightarrow> fat_file \<Rightarrow> nat \<Rightarrow> nat \<Rightarrow> u8 list \<Rightarrow> (error_t + nat \<times> u8 list) option" where
  "fat_read fs file off len disk =
     (if (off + len) mod 2 ^ 64 < ff_size file \<and> (off + len) mod 2 ^ 64 < off then Some (Inl ERR_TOO_LARGE)
      else
        let cluster_len = ft_sectors_per_cluster fs * 512 in
        do {
          r \<leftarrow> cluster_walk fs (off div cluster_len) (ff_cluster file) disk;
          case r of
            None \<Rightarrow> Some (Inr (0, []))
          | Some current \<Rightarrow>
              map_option Inr (read_clusters fs (ff_size file) len current (off mod cluster_len) len [] disk)
        })"

section \<open>Writing\<close>

text \<open>As \<open>cluster_walk\<close>, with a new cluster at the end of the chain, which is not linked to it.\<close>

definition next_for_write :: "fat \<Rightarrow> nat \<Rightarrow> u8 list \<Rightarrow> nat option" where
  "next_for_write fs current disk =
     do {
       current \<leftarrow> get_next_cluster fs current disk;
       current \<leftarrow> (if is_end_of_cluster current then alloc_cluster fs disk else Some current);
       ASSERT (is_valid_cluster current);
       Some current
     }"

fun write_walk :: "fat \<Rightarrow> nat \<Rightarrow> nat \<Rightarrow> u8 list \<Rightarrow> nat option" where
  "write_walk fs 0 current disk = Some current"
| "write_walk fs (Suc n) current disk =
     do {
       current \<leftarrow> next_for_write fs current disk;
       write_walk fs n current disk
     }"

text \<open>\<open>Inl\<close>: the return with the length of the last copy; \<open>Inr\<close>: the bytes left.\<close>

function write_sectors ::
  "fat \<Rightarrow> nat \<Rightarrow> nat \<Rightarrow> nat \<Rightarrow> nat \<Rightarrow> u8 list \<Rightarrow> u8 list \<Rightarrow> (nat \<times> u8 list + u8 list \<times> u8 list) option" where
  "write_sectors fs fsize current off_in_cluster i p disk =
     (if i < ft_sectors_per_cluster fs then
        (case cluster2lba fs current of
           None \<Rightarrow> None
         | Some lba \<Rightarrow>
             (case blk_read (lba + i) 1 disk of
                None \<Rightarrow> None
              | Some buf \<Rightarrow>
                  let remaining = length p; copy_len = min fsize (min remaining 512) in
                  if off_in_cluster + copy_len > 512 then None
                  else (case blk_write (lba + i)
                      (take off_in_cluster buf @ take copy_len p @ drop (off_in_cluster + copy_len) buf) disk of
                    None \<Rightarrow> None
                  | Some disk \<Rightarrow>
                      if remaining \<le> 512 then Some (Inl (copy_len, disk))
                      else write_sectors fs fsize current off_in_cluster (i + 1) (drop copy_len p) disk)))
      else Some (Inr (p, disk)))"
  by pat_completeness auto
termination
  by (relation "measure (\<lambda>(fs, fsize, current, off_in_cluster, i, p, disk). ft_sectors_per_cluster fs - i)") auto

declare write_sectors.simps [simp del]

partial_function (option) write_clusters ::
  "fat \<Rightarrow> nat \<Rightarrow> nat \<Rightarrow> nat \<Rightarrow> u8 list \<Rightarrow> u8 list \<Rightarrow> (nat \<times> u8 list) option" where
  "write_clusters fs fsize current off_in_cluster p disk =
     (case write_sectors fs fsize current off_in_cluster (off_in_cluster div 512) p disk of
        None \<Rightarrow> None
      | Some (Inl r) \<Rightarrow> Some r
      | Some (Inr (p, disk)) \<Rightarrow>
          (case next_for_write fs current disk of
             None \<Rightarrow> None
           | Some current \<Rightarrow> write_clusters fs fsize current 0 p disk))"

definition fat_write :: "fat \<Rightarrow> fat_file \<Rightarrow> nat \<Rightarrow> u8 list \<Rightarrow> u8 list \<Rightarrow> (error_t + nat \<times> u8 list) option" where
  "fat_write fs file off buf disk =
     (if (off + length buf) mod 2 ^ 64 < ff_size file \<and> (off + length buf) mod 2 ^ 64 < off then Some (Inl ERR_TOO_LARGE)
      else
        let cluster_len = ft_sectors_per_cluster fs * 512 in
        do {
          current \<leftarrow> write_walk fs (off div cluster_len) (ff_cluster file) disk;
          map_option Inr (write_clusters fs (ff_size file) current (off mod cluster_len) buf disk)
        })"

section \<open>The server\<close>

record fatfs =
  fs_fat :: fat
  fs_disk :: "u8 list"
  fs_handles :: "fat_file handles"
  fs_sent :: "(task_t \<times> fs_msg) list"

definition fs_reply :: "task_t \<Rightarrow> fs_msg \<Rightarrow> fatfs \<Rightarrow> fatfs" where
  "fs_reply dst m s = s\<lparr>fs_sent := fs_sent s @ [(dst, m)]\<rparr>"

text \<open>At start-up the names in the root directory are printed.\<close>

partial_function (option) list_names :: "fat \<Rightarrow> fat_dir \<Rightarrow> u8 list \<Rightarrow> unit option" where
  "list_names fs dir disk =
     (case fat_readdir fs dir disk of
        None \<Rightarrow> None
      | Some (None, dir) \<Rightarrow> Some ()
      | Some (Some i, dir) \<Rightarrow>
          (case strncpy2 (replicate 12 0) (drop (i * FAT_DIRENT_LEN) (fd_entries dir)) 12 of
             None \<Rightarrow> None
           | Some _ \<Rightarrow> list_names fs dir disk))"

definition fatfs_init :: "u8 list \<Rightarrow> fatfs option" where
  "fatfs_init disk =
     do {
       r \<leftarrow> fat_probe disk;
       case r of
         Inl _ \<Rightarrow> None
       | Inr fs \<Rightarrow>
           do {
             d \<leftarrow> fat_opendir fs [0x2f, 0] disk;
             case d of
               Inl _ \<Rightarrow> None
             | Inr dir \<Rightarrow>
                 do {
                   list_names fs dir disk;
                   Some \<lparr>fs_fat = fs, fs_disk = disk, fs_handles = (\<lambda>_. None), fs_sent = []\<rparr>
                 }
           }
     }"

text \<open>The end of \<^verbatim>\<open>FS_OPEN_MSG\<close> and \<^verbatim>\<open>FS_CREATE_MSG\<close>.\<close>

definition fatfs_new_handle :: "task_t \<Rightarrow> (error_t + fat_file) \<Rightarrow> (int \<Rightarrow> fs_msg) \<Rightarrow> fatfs \<Rightarrow> fatfs option" where
  "fatfs_new_handle src r reply s =
     (case r of
        Inl err \<Rightarrow> Some (fs_reply src (FS_ERROR (err_code err)) s)
      | Inr file \<Rightarrow>
          do {
            (handle, hs) \<leftarrow> handle_alloc src (fs_handles s);
            hs \<leftarrow> handle_set src handle (Some file) hs;
            Some (fs_reply src (reply handle) (s\<lparr>fs_handles := hs\<rparr>))
          })"

definition fatfs_read :: "task_t \<Rightarrow> int \<Rightarrow> u64 \<Rightarrow> u64 \<Rightarrow> fatfs \<Rightarrow> fatfs option" where
  "fatfs_read src handle offset len s =
     do {
       f \<leftarrow> handle_get src handle (fs_handles s);
       case f of
         None \<Rightarrow> Some (fs_reply src (FS_ERROR (err_code ERR_NOT_FOUND)) s)
       | Some file \<Rightarrow>
           do {
             let max_len = min 8192 (unat len);
             r \<leftarrow> fat_read (fs_fat s) file (unat offset) max_len (fs_disk s);
             case r of
               Inl err \<Rightarrow> Some (fs_reply src (FS_ERROR (err_code err)) s)
             | Inr (n, buf) \<Rightarrow> Some (fs_reply src (FS_READ_REPLY_MSG (take n buf)) s)
           }
     }"

definition fatfs_write :: "task_t \<Rightarrow> int \<Rightarrow> u64 \<Rightarrow> u8 list \<Rightarrow> fatfs \<Rightarrow> fatfs option" where
  "fatfs_write src handle offset data s =
     do {
       f \<leftarrow> handle_get src handle (fs_handles s);
       case f of
         None \<Rightarrow> Some (fs_reply src (FS_ERROR (err_code ERR_NOT_FOUND)) s)
       | Some file \<Rightarrow>
           do {
             r \<leftarrow> fat_write (fs_fat s) file (unat offset) data (fs_disk s);
             case r of
               Inl err \<Rightarrow> Some (fs_reply src (FS_ERROR (err_code err)) s)
             | Inr (n, disk) \<Rightarrow> Some (fs_reply src FS_WRITE_REPLY_MSG (s\<lparr>fs_disk := disk\<rparr>))
           }
     }"

definition fatfs_handle :: "task_t \<Rightarrow> fs_msg \<Rightarrow> fatfs \<Rightarrow> fatfs option" where
  "fatfs_handle src m s =
     (case m of
        FS_OPEN_MSG path \<Rightarrow>
          do {
            r \<leftarrow> fat_open (fs_fat s) path (fs_disk s);
            fatfs_new_handle src r FS_OPEN_REPLY_MSG s
          }
      | FS_CREATE_MSG path exist_ok \<Rightarrow>
          do {
            r \<leftarrow> fat_create (fs_fat s) path exist_ok (fs_disk s);
            fatfs_new_handle src r FS_CREATE_REPLY_MSG s
          }
      | FS_READ_MSG handle offset len \<Rightarrow> fatfs_read src handle offset len s
      | FS_WRITE_MSG handle offset data \<Rightarrow> fatfs_write src handle offset data s
      | _ \<Rightarrow> Some s)"

end
