(* ===== verification/Fat_Props.thy ===== *)
theory Fat_Props
  imports Fat
begin

text \<open>
  Files of the FAT file system as chains of clusters, and what reading and writing do to their bytes.
\<close>

section \<open>Sectors\<close>

definition set_sector :: "u8 list \<Rightarrow> nat \<Rightarrow> u8 list \<Rightarrow> u8 list" where
  "set_sector disk i sec = take (i * 512) disk @ sec @ drop ((i + 1) * 512) disk"

lemma length_set_sector [simp]:
  "length sec = 512 \<Longrightarrow> (i + 1) * 512 \<le> length disk \<Longrightarrow> length (set_sector disk i sec) = length disk"
  by (simp add: set_sector_def)

lemma length_sectors [simp]: "(i + n) * 512 \<le> length disk \<Longrightarrow> length (sectors disk i n) = n * 512"
  by (simp add: sectors_def algebra_simps)

lemma sectors_set_sector:
  assumes "length sec = 512" "(i + 1) * 512 \<le> length disk"
  shows "sectors (set_sector disk i sec) j 1 = (if j = i then sec else sectors disk j 1)"
proof -
  consider "j = i" | "j < i" | "i < j" by linarith
  then show ?thesis
  proof cases
    case 1
    then show ?thesis using assms by (simp add: sectors_def set_sector_def)
  next
    case 2
    then have "j * 512 + 512 \<le> i * 512" by simp
    then show ?thesis using assms 2 by (simp add: sectors_def set_sector_def drop_take)
  next
    case 3
    then have "i + 1 \<le> j" by simp
    then obtain k where k: "j = i + 1 + k" using le_iff_add by blast
    have "j * 512 = i * 512 + (512 + k * 512)" using k by simp
    moreover have "length (take (i * 512) disk @ sec) = i * 512 + 512" "drop (i * 512 + 512 + k * 512) disk = drop (k * 512) (drop ((i + 1) * 512) disk)"
      using assms by (simp_all add: add.commute)
    ultimately show ?thesis using 3 assms by (simp add: sectors_def set_sector_def add.assoc [symmetric])
  qed
qed

lemma sectors_split: "sectors disk i (Suc n) = sectors disk i 1 @ sectors disk (Suc i) n"
  using take_add [of 512 "n * 512" "drop (i * 512) disk"] by (simp add: sectors_def add.commute)

lemma sectors_cong: "(\<And>j. i \<le> j \<Longrightarrow> j < i + n \<Longrightarrow> sectors disk' j 1 = sectors disk j 1) \<Longrightarrow> sectors disk' i n = sectors disk i n"
proof (induction n arbitrary: i)
  case (Suc n)
  then show ?case by (simp add: sectors_split [of _ i n])
qed (simp add: sectors_def)

lemma blk_read_sectors: "image_ok disk \<Longrightarrow> (i + n) * 512 \<le> length disk \<Longrightarrow> blk_read i n disk = Some (sectors disk i n)"
  by (simp add: blk_read_def ramdisk_handle_def ramdisk_read_sectors)

lemma blk_write_sector:
  assumes "image_ok disk" "(i + 1) * 512 \<le> length disk" "length sec = 512"
  shows "blk_write i sec disk = Some (set_sector disk i sec)"
proof -
  have "IS_ALIGNED (512 :: u64) SECTOR_SIZE" by (simp add: IS_ALIGNED_def kconst)
  with sector_arith [OF assms(1,2)] assms(3) show ?thesis
    by (simp add: blk_write_def ramdisk_handle_def ramdisk_write_def Let_def set_sector_def kconst add.commute)
qed

section \<open>Chains\<close>

definition cluster_lba :: "fat \<Rightarrow> nat \<Rightarrow> nat" where
  "cluster_lba fs c = (c - 2) * ft_sectors_per_cluster fs + ft_data_lba fs"

definition fat_entry :: "fat \<Rightarrow> u8 list \<Rightarrow> nat \<Rightarrow> nat" where
  "fat_entry fs disk c = unat (get16 (sectors disk (ft_fat_lba fs + c div 256) 1) (c mod 256 * 2))"

text \<open>A cluster inside the image whose entry is in front of the data.\<close>

definition cluster_ok :: "fat \<Rightarrow> u8 list \<Rightarrow> nat \<Rightarrow> bool" where
  "cluster_ok fs disk c \<longleftrightarrow>
     2 \<le> c \<and> ft_fat_lba fs + c div 256 < ft_data_lba fs \<and> (cluster_lba fs c + ft_sectors_per_cluster fs) * 512 \<le> length disk"

fun is_chain :: "fat \<Rightarrow> u8 list \<Rightarrow> nat list \<Rightarrow> bool" where
  "is_chain fs disk [] \<longleftrightarrow> False"
| "is_chain fs disk [c] \<longleftrightarrow> cluster_ok fs disk c \<and> is_end_of_cluster (fat_entry fs disk c)"
| "is_chain fs disk (c # d # cs) \<longleftrightarrow>
     cluster_ok fs disk c \<and> fat_entry fs disk c = d \<and> is_valid_cluster d \<and> is_chain fs disk (d # cs)"

definition cluster_bytes :: "fat \<Rightarrow> u8 list \<Rightarrow> nat \<Rightarrow> u8 list" where
  "cluster_bytes fs disk c = sectors disk (cluster_lba fs c) (ft_sectors_per_cluster fs)"

definition file_bytes :: "fat \<Rightarrow> u8 list \<Rightarrow> nat list \<Rightarrow> u8 list" where
  "file_bytes fs disk cs = concat (map (cluster_bytes fs disk) cs)"

lemma chain_cluster_ok: "is_chain fs disk cs \<Longrightarrow> c \<in> set cs \<Longrightarrow> cluster_ok fs disk c"
  by (induction fs disk cs rule: is_chain.induct) auto

lemma get_next_cluster_entry:
  assumes "image_ok disk" "cluster_ok fs disk c"
  shows "get_next_cluster fs c disk = Some (fat_entry fs disk c)"
proof -
  have "(ft_fat_lba fs + c div 256 + 1) * 512 \<le> ft_data_lba fs * 512" using assms(2) by (simp add: cluster_ok_def)
  also have "\<dots> \<le> length disk" using assms(2) by (simp add: cluster_ok_def cluster_lba_def algebra_simps)
  finally show ?thesis using assms by (simp add: get_next_cluster_def blk_read_sectors fat_entry_def cluster_ok_def)
qed

lemma walk_chain:
  assumes "image_ok disk" "is_chain fs disk cs" "n < length cs"
  shows "cluster_walk fs n (hd cs) disk = Some (Some (cs ! n)) \<and> write_walk fs n (hd cs) disk = Some (cs ! n)"
  using assms(2,3)
proof (induction n arbitrary: cs)
  case 0
  then show ?case by (cases cs) auto
next
  case (Suc n)
  then obtain c d ds where cs: "cs = c # d # ds" by (cases cs; cases "tl cs") auto
  with Suc.prems have "get_next_cluster fs c disk = Some d" "is_valid_cluster d" "is_chain fs disk (d # ds)"
    using get_next_cluster_entry [OF assms(1), of fs c] by auto
  with Suc.IH [of "d # ds"] Suc.prems cs show ?case by (simp add: next_for_write_def is_valid_cluster_def)
qed

lemma length_cluster_bytes: "cluster_ok fs disk c \<Longrightarrow> length (cluster_bytes fs disk c) = ft_sectors_per_cluster fs * 512"
  by (simp add: cluster_bytes_def cluster_ok_def)

lemma drop_concat:
  assumes "\<forall>c \<in> set cs. length (f c) = k" "n < length cs" "j \<le> k"
  shows "drop (n * k + j) (concat (map f cs)) = drop j (f (cs ! n)) @ concat (map f (drop (Suc n) cs))"
  using assms
proof (induction n arbitrary: cs)
  case 0
  then show ?case by (cases cs) auto
next
  case (Suc n)
  then obtain c ds where cs: "cs = c # ds" by (cases cs) auto
  have "drop (Suc n * k + j) (concat (map f cs)) = drop (n * k + j) (concat (map f ds))"
    using Suc.prems cs by (simp add: algebra_simps)
  with Suc cs show ?case by simp
qed

lemma file_bytes_at:
  assumes "is_chain fs disk cs" "n < length cs" "j + len \<le> 512" "0 < ft_sectors_per_cluster fs"
  shows "take len (drop (n * (ft_sectors_per_cluster fs * 512) + j) (file_bytes fs disk cs)) =
    take len (drop j (sectors disk (cluster_lba fs (cs ! n)) 1))"
proof -
  let ?k = "ft_sectors_per_cluster fs * 512"
  have cl: "cluster_ok fs disk (cs ! n)" using chain_cluster_ok assms(1,2) by simp
  have l: "\<forall>c \<in> set cs. length (cluster_bytes fs disk c) = ?k"
    using chain_cluster_ok [OF assms(1)] length_cluster_bytes by blast
  obtain m where m: "ft_sectors_per_cluster fs = Suc m" using assms(4) by (cases "ft_sectors_per_cluster fs") auto
  have "(cluster_lba fs (cs ! n) + 1) * 512 \<le> (cluster_lba fs (cs ! n) + ft_sectors_per_cluster fs) * 512"
    by (rule mult_le_mono1) (simp add: m)
  also have "\<dots> \<le> length disk" using cl by (simp add: cluster_ok_def)
  finally have "length (sectors disk (cluster_lba fs (cs ! n)) 1) = 1 * 512" by (rule length_sectors)
  moreover have "cluster_bytes fs disk (cs ! n) = sectors disk (cluster_lba fs (cs ! n)) 1 @ sectors disk (Suc (cluster_lba fs (cs ! n))) m"
    unfolding cluster_bytes_def m by (rule sectors_split)
  moreover have "j \<le> ?k" using assms(3) m by simp
  ultimately show ?thesis
    using drop_concat [OF l assms(2), of j] assms(3) unfolding file_bytes_def by simp
qed

section \<open>Reading\<close>

lemma cluster_first_sector:
  assumes "image_ok disk" "cluster_ok fs disk c" "i < ft_sectors_per_cluster fs"
  shows "cluster2lba fs c = Some (cluster_lba fs c)" "(cluster_lba fs c + i + 1) * 512 \<le> length disk"
    "blk_read (cluster_lba fs c + i) 1 disk = Some (sectors disk (cluster_lba fs c + i) 1)"
proof -
  show "cluster2lba fs c = Some (cluster_lba fs c)" using assms(2) by (simp add: cluster2lba_def cluster_lba_def cluster_ok_def)
  have "(cluster_lba fs c + i + 1) * 512 \<le> (cluster_lba fs c + ft_sectors_per_cluster fs) * 512"
    using assms(3) by (intro mult_le_mono1) simp
  also have "\<dots> \<le> length disk" using assms(2) by (simp add: cluster_ok_def)
  finally show "(cluster_lba fs c + i + 1) * 512 \<le> length disk" .
  then show "blk_read (cluster_lba fs c + i) 1 disk = Some (sectors disk (cluster_lba fs c + i) 1)"
    using blk_read_sectors [OF assms(1), of "cluster_lba fs c + i" 1] by simp
qed

text \<open>A request inside the first sector of a cluster.\<close>

definition in_first_sector :: "fat \<Rightarrow> nat \<Rightarrow> nat \<Rightarrow> bool" where
  "in_first_sector fs off len \<longleftrightarrow>
     off mod (ft_sectors_per_cluster fs * 512) < 512 \<and> off mod (ft_sectors_per_cluster fs * 512) + len \<le> 512"

lemma fat_read_chain:
  assumes "image_ok disk" "is_chain fs disk cs" "ff_cluster file = hd cs" "0 < ft_sectors_per_cluster fs"
    and "in_first_sector fs off len" "len \<le> ff_size file" "off < length cs * (ft_sectors_per_cluster fs * 512)" "off + len < 2 ^ 64"
  shows "fat_read fs file off len disk = Some (Inr (len, take len (drop off (file_bytes fs disk cs))))"
proof -
  let ?k = "ft_sectors_per_cluster fs * 512"
  let ?n = "off div ?k" and ?j = "off mod ?k"
  have n: "?n < length cs" using assms(7) by (simp add: less_mult_imp_div_less)
  have cl: "cluster_ok fs disk (cs ! ?n)" using chain_cluster_ok assms(2) n by simp
  have j: "?j div 512 = 0" "?j + len \<le> 512" using assms(5) by (simp_all add: in_first_sector_def)
  note b = cluster_first_sector [OF assms(1) cl assms(4)]
  have "read_sectors fs (ff_size file) (cs ! ?n) ?j 0 len [] disk =
      Some (Inl (len, take len (drop ?j (sectors disk (cluster_lba fs (cs ! ?n)) 1))))"
    using b(1,3) j(2) assms(4,6) by (subst read_sectors.simps) (simp add: Let_def min_def)
  moreover have "take len (drop off (file_bytes fs disk cs)) = take len (drop ?j (sectors disk (cluster_lba fs (cs ! ?n)) 1))"
    using file_bytes_at [OF assms(2) n j(2) assms(4)] by (simp only: div_mult_mod_eq)
  ultimately have "read_clusters fs (ff_size file) len (cs ! ?n) ?j len [] disk = Some (len, take len (drop off (file_bytes fs disk cs)))"
    using j(1) by (subst read_clusters.simps) simp
  moreover have "cluster_walk fs ?n (ff_cluster file) disk = Some (Some (cs ! ?n))"
    using walk_chain [OF assms(1,2) n] assms(3) by simp
  ultimately show ?thesis using assms(8) by (simp add: fat_read_def Let_def)
qed

section \<open>Writing\<close>

lemma set_sector_chain:
  assumes "is_chain fs disk cs" "length sec = 512" "(i + 1) * 512 \<le> length disk" "ft_data_lba fs \<le> i"
  shows "is_chain fs (set_sector disk i sec) cs"
proof -
  have "cluster_ok fs (set_sector disk i sec) c = cluster_ok fs disk c" for c
    using assms(2,3) by (simp add: cluster_ok_def)
  moreover have "fat_entry fs (set_sector disk i sec) c = fat_entry fs disk c" if "cluster_ok fs disk c" for c
    using that assms(4) sectors_set_sector [OF assms(2,3), of "ft_fat_lba fs + c div 256"] by (simp add: cluster_ok_def fat_entry_def)
  ultimately show ?thesis using assms(1) by (induction fs disk cs rule: is_chain.induct) auto
qed

text \<open>What a write inside the first sector of a cluster does to the image.\<close>

definition written :: "u8 list \<Rightarrow> nat \<Rightarrow> nat \<Rightarrow> u8 list \<Rightarrow> u8 list" where
  "written disk i j data = set_sector disk i (take j (sectors disk i 1) @ data @ drop (j + length data) (sectors disk i 1))"

lemma fat_write_chain:
  assumes "image_ok disk" "is_chain fs disk cs" "ff_cluster file = hd cs" "0 < ft_sectors_per_cluster fs"
    and "in_first_sector fs off (length data)" "length data \<le> ff_size file"
    and "off < length cs * (ft_sectors_per_cluster fs * 512)" "off + length data < 2 ^ 64"
  shows "fat_write fs file off data disk = Some (Inr (length data,
    written disk (cluster_lba fs (cs ! (off div (ft_sectors_per_cluster fs * 512)))) (off mod (ft_sectors_per_cluster fs * 512)) data))"
proof -
  let ?k = "ft_sectors_per_cluster fs * 512"
  let ?n = "off div ?k" and ?j = "off mod ?k"
  let ?i = "cluster_lba fs (cs ! ?n)"
  have n: "?n < length cs" using assms(7) by (simp add: less_mult_imp_div_less)
  have cl: "cluster_ok fs disk (cs ! ?n)" using chain_cluster_ok assms(2) n by simp
  have j: "?j div 512 = 0" "?j + length data \<le> 512" using assms(5) by (simp_all add: in_first_sector_def)
  note b = cluster_first_sector [OF assms(1) cl assms(4)]
  have l: "length (sectors disk ?i 1) = 512" using length_sectors [of ?i 1 disk] b(2) by simp
  have "blk_write ?i (take ?j (sectors disk ?i 1) @ data @ drop (?j + length data) (sectors disk ?i 1)) disk = Some (written disk ?i ?j data)"
    unfolding written_def by (rule blk_write_sector [OF assms(1)]) (use b(2) l j(2) in simp_all)
  then have "write_sectors fs (ff_size file) (cs ! ?n) ?j 0 data disk = Some (Inl (length data, written disk ?i ?j data))"
    using b(1,3) j(2) assms(4,6) by (subst write_sectors.simps) (simp add: Let_def min_def)
  then have "write_clusters fs (ff_size file) (cs ! ?n) ?j data disk = Some (length data, written disk ?i ?j data)"
    using j(1) by (subst write_clusters.simps) simp
  moreover have "write_walk fs ?n (ff_cluster file) disk = Some (cs ! ?n)"
    using walk_chain [OF assms(1,2) n] assms(3) by simp
  ultimately show ?thesis using assms(8) by (simp add: fat_write_def Let_def)
qed

text \<open>C15: Bytes written inside a sector at the start of a cluster are read back; the file stays a chain, and
  no other sector of the disk changes.\<close>

theorem fat_write_read:
  assumes "image_ok disk" "is_chain fs disk cs" "ff_cluster file = hd cs" "0 < ft_sectors_per_cluster fs"
    and "in_first_sector fs off (length data)" "length data \<le> ff_size file"
    and "off < length cs * (ft_sectors_per_cluster fs * 512)" "off + length data < 2 ^ 64"
  shows "\<exists>disk'. fat_write fs file off data disk = Some (Inr (length data, disk')) \<and>
    fat_read fs file off (length data) disk' = Some (Inr (length data, data)) \<and> is_chain fs disk' cs \<and>
    (\<forall>i. i \<noteq> cluster_lba fs (cs ! (off div (ft_sectors_per_cluster fs * 512))) \<longrightarrow> sectors disk' i 1 = sectors disk i 1)"
proof -
  let ?k = "ft_sectors_per_cluster fs * 512"
  let ?n = "off div ?k" and ?j = "off mod ?k"
  let ?i = "cluster_lba fs (cs ! ?n)"
  let ?d = "written disk ?i ?j data"
  have n: "?n < length cs" using assms(7) by (simp add: less_mult_imp_div_less)
  have cl: "cluster_ok fs disk (cs ! ?n)" using chain_cluster_ok assms(2) n by simp
  have j: "?j + length data \<le> 512" using assms(5) by (simp add: in_first_sector_def)
  note b = cluster_first_sector [OF assms(1) cl assms(4)]
  let ?s = "take ?j (sectors disk ?i 1) @ data @ drop (?j + length data) (sectors disk ?i 1)"
  have l: "length (sectors disk ?i 1) = 512" "(?i + 1) * 512 \<le> length disk" using length_sectors [of ?i 1 disk] b(2) by simp_all
  then have s: "length ?s = 512" using j by simp
  have "ft_data_lba fs \<le> ?i" by (simp add: cluster_lba_def)
  then have chain: "is_chain fs ?d cs" unfolding written_def by (rule set_sector_chain [OF assms(2) s l(2)])
  have ok: "image_ok ?d" using assms(1) s l(2) by (simp add: image_ok_def written_def)
  have sec: "sectors ?d i 1 = (if i = ?i then ?s else sectors disk i 1)" for i
    unfolding written_def by (rule sectors_set_sector [OF s l(2)])
  have "take (length data) (drop off (file_bytes fs ?d cs)) = take (length data) (drop ?j (sectors ?d ?i 1))"
    using file_bytes_at [OF chain n j assms(4)] by (simp only: div_mult_mod_eq)
  also have "\<dots> = data" using sec [of ?i] l(1) j by simp
  finally have "fat_read fs file off (length data) ?d = Some (Inr (length data, data))"
    using fat_read_chain [OF ok chain assms(3-8)] by simp
  with fat_write_chain [OF assms] chain sec show ?thesis by auto
qed

text \<open>C40: A read over more than one sector copies the bytes but reports only the length of the last copy,
  so the client loses the rest.\<close>

theorem fat_read_short:
  assumes "image_ok disk" "cluster_ok fs disk c" "ff_cluster file = c" "2 \<le> ft_sectors_per_cluster fs"
    and "0 < n" "n \<le> 512" "512 + n \<le> ff_size file"
  shows "fat_read fs file 0 (512 + n) disk = Some (Inr (n, take (512 + n) (cluster_bytes fs disk c)))"
proof -
  let ?i = "cluster_lba fs c"
  obtain m where m: "ft_sectors_per_cluster fs = Suc (Suc m)" using assms(4) by (metis Suc_le_D numeral_2_eq_2 Suc_le_mono)
  note b0 = cluster_first_sector [OF assms(1,2), of 0] and b1 = cluster_first_sector [OF assms(1,2), of 1]
  have l: "length (sectors disk ?i 1) = 512" "length (sectors disk (Suc ?i) 1) = 512"
    using length_sectors [of ?i 1 disk] length_sectors [of "Suc ?i" 1 disk] b0(2) b1(2) m by simp_all
  have "cluster_bytes fs disk c = sectors disk ?i 1 @ sectors disk (Suc ?i) 1 @ sectors disk (Suc (Suc ?i)) m"
    unfolding cluster_bytes_def m using sectors_split [of disk ?i "Suc m"] sectors_split [of disk "Suc ?i" m] by simp
  then have t: "take (512 + n) (cluster_bytes fs disk c) = sectors disk ?i 1 @ take n (sectors disk (Suc ?i) 1)"
    using l assms(6) by simp
  have "read_sectors fs (ff_size file) c 0 1 n (sectors disk ?i 1) disk = Some (Inl (n, sectors disk ?i 1 @ take n (sectors disk (Suc ?i) 1)))"
    using b1 m assms(6,7) by (subst read_sectors.simps) (simp add: Let_def min_def)
  then have "read_sectors fs (ff_size file) c 0 0 (512 + n) [] disk = Some (Inl (n, sectors disk ?i 1 @ take n (sectors disk (Suc ?i) 1)))"
    using b0 m assms(5,7) l by (subst read_sectors.simps) (simp add: Let_def min_def)
  then have "read_clusters fs (ff_size file) (512 + n) c 0 (512 + n) [] disk = Some (n, take (512 + n) (cluster_bytes fs disk c))"
    unfolding t by (subst read_clusters.simps) simp
  then show ?thesis using assms(3,6) by (simp add: fat_read_def Let_def)
qed

section \<open>A small disk\<close>

text \<open>One sector of table and one cluster, of one sector, which is the last of its chain.\<close>

definition demo_fat :: fat where
  "demo_fat = \<lparr>ft_sectors_per_cluster = 1, ft_fat_lba = 0, ft_sectors_per_fat = 1, ft_root_dir_lba = 1, ft_data_lba = 1\<rparr>"

definition demo_disk :: "u8 list" where
  "demo_disk = [0, 0, 0, 0, 0xff, 0xff] @ replicate 506 0 @ replicate 512 7"

lemma demo_disk_ok: "image_ok demo_disk" "is_chain demo_fat demo_disk [2]"
proof -
  have "get16 (sectors demo_disk 0 1) 4 = 0xffff" by (simp add: get16_def sectors_def demo_disk_def)
  then show "is_chain demo_fat demo_disk [2]"
    by (simp add: cluster_ok_def cluster_lba_def fat_entry_def is_end_of_cluster_def demo_fat_def demo_disk_def)
qed (simp add: image_ok_def demo_disk_def)

theorem fat_write_read_witness:
  "\<exists>disk'. fat_write demo_fat \<lparr>ff_cluster = 2, ff_size = 100\<rparr> 3 [7, 8, 9] demo_disk = Some (Inr (3, disk')) \<and>
    fat_read demo_fat \<lparr>ff_cluster = 2, ff_size = 100\<rparr> 3 3 disk' = Some (Inr (3, [7, 8, 9]))"
proof -
  have "0 < ft_sectors_per_cluster demo_fat" "in_first_sector demo_fat 3 (length [7 :: u8, 8, 9])"
    "3 < length [2 :: nat] * (ft_sectors_per_cluster demo_fat * 512)" "length [7 :: u8, 8, 9] = 3"
    by (simp_all add: demo_fat_def in_first_sector_def)
  with fat_write_read [OF demo_disk_ok, of "\<lparr>ff_cluster = 2, ff_size = 100\<rparr>" 3 "[7, 8, 9]"] show ?thesis by (auto simp: numeral_3_eq_3)
qed

text \<open>Clusters of two sectors: of 600 bytes asked for, 88 are reported.\<close>

definition demo_fat2 :: fat where
  "demo_fat2 = demo_fat\<lparr>ft_sectors_per_cluster := 2\<rparr>"

theorem fat_read_short_witness:
  "\<exists>buf. fat_read demo_fat2 \<lparr>ff_cluster = 2, ff_size = 600\<rparr> 0 600 (demo_disk @ replicate 512 5) = Some (Inr (88, buf))"
proof -
  have "image_ok (demo_disk @ replicate 512 5)" "cluster_ok demo_fat2 (demo_disk @ replicate 512 5) 2" "2 \<le> ft_sectors_per_cluster demo_fat2"
    by (simp_all add: image_ok_def cluster_ok_def cluster_lba_def demo_fat2_def demo_fat_def demo_disk_def)
  from fat_read_short [OF this(1,2) _ this(3), of "\<lparr>ff_cluster = 2, ff_size = 600\<rparr>" 88] show ?thesis by simp
qed

end
