(* ===== verification/Spec2Isabelle.thy ===== *)
theory Spec2Isabelle
  imports Intrusive_List Kernel_Props Malloc Async Cmdline Datetime Vprintf Vm_Props Net_Props Tarfs Fat_Props
begin

text \<open>
  \<^bold>\<open>Resea\<close> is a microkernel operating system in C. The kernel schedules tasks, passes
  messages between them, and turns interrupts, timeouts and page faults into messages. All else
  is done by user tasks, the servers. The first one, \<^verbatim>\<open>vm\<close>, hands out memory, starts the
  others, answers their page faults, moves out-of-line payloads of messages and keeps the
  directory of services. The servers share the libraries \<^verbatim>\<open>libs/common\<close> and
  \<^verbatim>\<open>libs/resea\<close>.

  \<^bold>\<open>Conventions.\<close> A C function is a HOL function of the same name from a state to an \<open>option\<close>:
  \<open>None\<close> is a failed assertion, a panic, an access outside an object, or behaviour C leaves
  undefined. The debug build is modelled, so \<^verbatim>\<open>DEBUG_ASSERT\<close> is an assertion. Integers are
  words of their width where they can wrap, and natural numbers where they cannot. What the code
  asks of a part that is outside the model (the hardware, the kernel as seen from a server) is
  recorded as a list of calls in the state; what that part answers is an argument of the
  definitions. A \<^verbatim>\<open>#define\<close> of a number is a constant of
  the same name. Theory \<^verbatim>\<open>Prelude\<close> has the shared vocabulary, with \<open>returns x P\<close> for "the
  computation returns normally and its result satisfies \<open>P\<close>", and the collections \<open>kconst\<close>
  (constants) and \<open>exec\<close>.

  \<^bold>\<open>Common library\<close> (\<^verbatim>\<open>libs/common\<close>).
  \<^item> \<^verbatim>\<open>Bitmap\<close>: \<^verbatim>\<open>bitmap.c\<close>. A byte array implements a set of bits; setting and clearing do to
    the set what they should.
  \<^item> \<^verbatim>\<open>Intrusive_List\<close>: \<^verbatim>\<open>list.h\<close> on an explicit heap of \<^verbatim>\<open>prev\<close> and \<^verbatim>\<open>next\<close> pointers. The
    predicate \<open>dlist\<close> relates a heap to the sequence it represents; every operation refines the
    operation on sequences, the locale of queues is interpreted on the heap operations, and the
    iteration macro visits every element exactly once, also when its body unlinks it. The other
    theories use sequences in place of intrusive lists on this ground.
  \<^item> \<^verbatim>\<open>C_String\<close>: \<^verbatim>\<open>string.c\<close> on byte lists with checked access, related to lists of characters
    by \<open>cstr\<close>.
  \<^item> \<^verbatim>\<open>Vprintf\<close>: \<^verbatim>\<open>vprintf.c\<close>. Printed digits denote the number, \<^verbatim>\<open>vsnprintf\<close> stays inside its
    buffer, the symbol search is the linear one.

  \<^bold>\<open>Kernel\<close> (\<^verbatim>\<open>kernel\<close>, one CPU, x64).
  \<^item> \<^verbatim>\<open>Klog\<close>: the log ring of \<^verbatim>\<open>printk.c\<close>.
  \<^item> \<^verbatim>\<open>X64_VM\<close>: the page tables of \<^verbatim>\<open>arch/x64/vm.c\<close> on a physical memory of 64-bit words.
  \<^item> \<^verbatim>\<open>Kernel_State\<close>, \<^verbatim>\<open>Kernel_Task\<close>, \<^verbatim>\<open>Kernel_IPC\<close>, \<^verbatim>\<open>Kernel_Syscall\<close>: \<^verbatim>\<open>task.c\<close>, \<^verbatim>\<open>ipc.c\<close>,
    \<^verbatim>\<open>syscall.c\<close> and the dispatch of interrupts. The state is the record \<open>kernel\<close>; a task pointer
    is its number. A call of \<^verbatim>\<open>task_switch\<close> ends a step: the task that gives up the CPU keeps
    the rest of its call as a continuation, which runs when the scheduler picks it again.
  \<^item> \<^verbatim>\<open>Kernel_Inv\<close>, \<^verbatim>\<open>Kernel_Task_Inv\<close>, \<^verbatim>\<open>Kernel_Step\<close>, \<^verbatim>\<open>Kernel_Boot\<close>: the invariant
    \<open>kinv\<close> of run queues, sender queues, continuations and page tables; every handler keeps it;
    \<open>kstep\<close> is one kernel entry for an event from a task or a device; \<^verbatim>\<open>boot.c\<close> establishes it.
  \<^item> \<^verbatim>\<open>Kernel_Props\<close>: from boot on and for every sequence of events whose user pointers are mapped,
    no assertion of the kernel fails; messages arrive with the sender's identity; the scheduler
    picks the highest priority, in rotation.

  \<^bold>\<open>Runtime library\<close> (\<^verbatim>\<open>libs/resea\<close>).
  \<^item> \<^verbatim>\<open>Malloc\<close>: \<^verbatim>\<open>malloc.c\<close> on a map from addresses to chunks. The invariant \<open>heap_ok\<close> says that
    chunks do not overlap and that the bins hold exactly the free ones; allocation gives a chunk
    that was free, \<^verbatim>\<open>free\<close> returns it, \<^verbatim>\<open>realloc\<close> moves the contents, damage to the redzones stops
    the program.
  \<^item> \<^verbatim>\<open>Handle\<close>: \<^verbatim>\<open>handle.c\<close> implements a finite map from owners and numbers to objects.
  \<^item> \<^verbatim>\<open>Async\<close>: \<^verbatim>\<open>async.c\<close> is a queue of messages per destination.
  \<^item> \<^verbatim>\<open>Cmdline\<close>, \<^verbatim>\<open>Datetime\<close>: \<^verbatim>\<open>cmdline.c\<close> and \<^verbatim>\<open>datetime.c\<close>; the conversion of dates is checked
    against the calendar.

  \<^bold>\<open>Memory server\<close> (\<^verbatim>\<open>servers/vm\<close>).
  \<^item> \<^verbatim>\<open>Vm_State\<close>, \<^verbatim>\<open>Vm_Page\<close>, \<^verbatim>\<open>Vm_Server\<close>: \<^verbatim>\<open>page_alloc.c\<close>, \<^verbatim>\<open>task.c\<close>, \<^verbatim>\<open>bootfs.c\<close>,
    \<^verbatim>\<open>page_fault.c\<close>, \<^verbatim>\<open>ool.c\<close>, \<^verbatim>\<open>shm.c\<close> and \<^verbatim>\<open>main.c\<close>. The kernel's answers are the function
    \<open>env\<close> of the calls made so far.
  \<^item> \<^verbatim>\<open>Vm_Inv\<close>: the invariant \<open>vinv\<close>, kept by every handler: the reference count of a page is at
    least the number of areas that contain it, and the counter of unused pages is exact.
  \<^item> \<^verbatim>\<open>Vm_Props\<close>: allocation, release of a killed task, zeroed pages, delivery of payloads.

  \<^bold>\<open>Network server\<close> (\<^verbatim>\<open>servers/tcpip\<close>). A client opens sockets by handles; a driver passes received
  frames to the server and takes frames to send.
  \<^item> \<^verbatim>\<open>Net_Mbuf\<close>: \<^verbatim>\<open>mbuf.c\<close>, \<^verbatim>\<open>checksum.h\<close> and the byte order of \<^verbatim>\<open>endian.h\<close>. A chain of buffers is
    a list; \<open>bytes\<close> is what it holds. Reading and discarding are the operations on byte lists, the
    locale of byte streams is interpreted on the chains.
  \<^item> \<^verbatim>\<open>Net_State\<close>: addresses, headers and their layout, sockets, the state \<open>net\<close>. Pointers to devices
    and sockets are indices, a freed buffer is \<open>None\<close>, the contents of fresh memory and the answers
    of the kernel are in \<open>net_env\<close>, the messages sent are the list \<open>n_calls\<close>.
  \<^item> \<^verbatim>\<open>Net_Link\<close>: \<^verbatim>\<open>device.c\<close>, \<^verbatim>\<open>arp.c\<close>, \<^verbatim>\<open>ethernet.c\<close>, \<^verbatim>\<open>icmp.c\<close> and the sending side of \<^verbatim>\<open>ipv4.c\<close>;
    \<^verbatim>\<open>Net_Udp\<close>: \<^verbatim>\<open>udp.c\<close>, \<^verbatim>\<open>dhcp.c\<close>, \<^verbatim>\<open>dns.c\<close>; \<^verbatim>\<open>Net_Tcp\<close>: \<^verbatim>\<open>tcp.c\<close>; \<^verbatim>\<open>Net_Server\<close>: the receiving
    side of \<^verbatim>\<open>ipv4.c\<close> and \<^verbatim>\<open>ethernet.c\<close>, and \<^verbatim>\<open>main.c\<close> with every message.
  \<^item> \<^verbatim>\<open>Net_Inv\<close>: the invariant \<open>tinv\<close> of the TCP sockets, kept by every message: the receive window
    and the bytes waiting in the buffer are together the buffer's size.
  \<^item> \<^verbatim>\<open>Net_Packet\<close>: headers written and read back are the same, the checksum of an outgoing IPv4
    header is the one a receiver accepts. \<^verbatim>\<open>Net_Deliver\<close>: the frame a packet becomes, and what the
    receiving side of another server makes of that frame.
  \<^item> \<^verbatim>\<open>Net_Props\<close>: datagrams and segments of one server arrive unchanged at another, a segment that
    arrives twice counts once, windows are accounted for, name server answers are drained.

  \<^bold>\<open>File systems.\<close> Both serve files by handles.
  \<^item> \<^verbatim>\<open>Fs_State\<close>: the messages, and the RAM disk (\<^verbatim>\<open>servers/drivers/blk/ramdisk\<close>).
  \<^item> \<^verbatim>\<open>Tarfs\<close>: \<^verbatim>\<open>servers/fs/tarfs\<close>. The files of an archive are served with the bytes they have in it.
  \<^item> \<^verbatim>\<open>Fat\<close>, \<^verbatim>\<open>Fat_Props\<close>: \<^verbatim>\<open>servers/fs/fatfs\<close> over the RAM disk. A file is a chain of clusters; what is
    written inside a sector is read back, and nothing else on the disk changes.

  \<^bold>\<open>Termination and bounds.\<close> Loops are recursive functions with termination proofs. Some loops
  can run forever and are \<open>partial_function (option)\<close>: the retry loop around the kernel's
  mapping call, the copy loop of payloads, the loops that drain the sockets of DHCP and DNS, symbolic
  links of the tar file system, and the chains of clusters of FAT. The theorems about them state that
  they return.
  Sizes of tables (tasks, priorities, page-table levels) are the default configuration's.

  \<^bold>\<open>Not modelled.\<close> Assembly, register and device input and output, other CPUs and the lock
  between them, the other architectures, the hypervisor: their meaning is the hardware's. Drivers
  and the virtio library share rings with devices. The Linux emulation and the shell
  are not part of the library yet. Generated files (message definitions,
  configuration) are used through the constants and fields the code names.
\<close>

end
